(* ===== verification/Prelude.thy ===== *)
theory Prelude
  imports Main "HOL-Library.AList" "HOL-Library.Word" "HOL-Library.Multiset"
begin

section \<open>Prelude: what all components share\<close>

text \<open>
  Go maps, Go errors and the generic lemmas of the development.

  A Go map is an association list with distinct keys. The order in which a \<open>range\<close> statement
  visits a map is unspecified in Go and differs from one execution to the next, so every
  definition that ranges over a map takes a ranking of the keys and visits the entries in the
  order of their ranks. Every order of finitely many distinct keys is the order of some
  ranking, so a statement for all rankings is a statement for all iteration orders.
\<close>

named_theorems map_simps "lookups in Go maps after an insertion or a deletion"
named_theorems table_intros "preservation rules of the invariants of tables"

subsection \<open>Go maps\<close>

type_synonym ('k, 'v) gomap = "('k \<times> 'v) list"

type_synonym 'k ranking = "'k \<Rightarrow> nat"

definition gm_wf :: "('k, 'v) gomap \<Rightarrow> bool" where
  "gm_wf m \<longleftrightarrow> distinct (map fst m)"

definition gm_store :: "'k \<Rightarrow> 'v \<Rightarrow> ('k, 'v) gomap \<Rightarrow> ('k, 'v) gomap" where
  "gm_store k v m = AList.update k v m"

definition gm_remove :: "'k \<Rightarrow> ('k, 'v) gomap \<Rightarrow> ('k, 'v) gomap" where
  "gm_remove k m = AList.delete k m"

text \<open>The entries in the order a \<open>range\<close> statement visits them.\<close>

definition gm_range :: "'k ranking \<Rightarrow> ('k, 'v) gomap \<Rightarrow> ('k \<times> 'v) list" where
  "gm_range rk m = sort_key (\<lambda>e. rk (fst e)) m"

lemma gm_wf_Nil [simp, table_intros]: "gm_wf []"
  by (simp add: gm_wf_def)

lemma gm_wf_store [table_intros]: "gm_wf m \<Longrightarrow> gm_wf (gm_store k v m)"
  by (simp add: gm_wf_def gm_store_def distinct_update)

lemma gm_wf_remove [table_intros]: "gm_wf m \<Longrightarrow> gm_wf (gm_remove k m)"
  by (simp add: gm_wf_def gm_remove_def distinct_delete)

lemma map_of_gm_store [map_simps]: "map_of (gm_store k v m) = (map_of m)(k \<mapsto> v)"
  by (simp add: gm_store_def update_conv')

lemma map_of_gm_remove [map_simps]: "map_of (gm_remove k m) = (map_of m)(k := None)"
  by (simp add: gm_remove_def delete_conv')

lemma mset_gm_range [simp]: "mset (gm_range rk m) = mset m"
  by (simp add: gm_range_def)

lemma set_gm_range [simp]: "set (gm_range rk m) = set m"
  by (simp add: gm_range_def)

lemma gm_range_Nil [simp]: "gm_range rk [] = []"
  by (simp add: gm_range_def)

lemma gm_range_single [simp]: "gm_range rk [e] = [e]"
  by (simp add: gm_range_def)

lemma distinct_gm_range:
  assumes "gm_wf m"
  shows "distinct (gm_range rk m)"
proof -
  have "distinct m"
    using assms by (simp add: gm_wf_def distinct_map)
  then show ?thesis
    by (metis mset_gm_range mset_eq_imp_distinct_iff)
qed

lemma gm_wf_mem: "gm_wf m \<Longrightarrow> (k, v) \<in> set m \<longleftrightarrow> map_of m k = Some v"
  by (simp add: gm_wf_def map_of_eq_Some_iff)

lemma set_gm_store: "gm_wf m \<Longrightarrow> (j, w) \<in> set (gm_store k v m) \<longleftrightarrow>
    (if j = k then w = v else (j, w) \<in> set m)"
  by (auto simp: gm_wf_mem table_intros map_simps)

lemma set_gm_remove: "gm_wf m \<Longrightarrow> (j, w) \<in> set (gm_remove k m) \<longleftrightarrow> j \<noteq> k \<and> (j, w) \<in> set m"
  by (auto simp: gm_wf_mem table_intros map_simps)

subsection \<open>Filters that select at most one entry\<close>

lemma distinct_filter_unique:
  assumes "distinct xs" and "\<And>x. x \<in> set xs \<Longrightarrow> P x \<longleftrightarrow> x = a"
  shows "filter P xs = (if a \<in> set xs then [a] else [])"
proof -
  have "filter P xs = filter (\<lambda>x. x = a) xs"
    using assms(2) by (intro filter_cong) auto
  also have "\<dots> = (if a \<in> set xs then [a] else [])"
    using assms(1) by (induction xs) auto
  finally show ?thesis .
qed

text \<open>
  The pattern of every \<open>Get\<close> of the container runtime: list the entries that match a key and
  take the first. If exactly the entries under the key match, it is the lookup of that key.
\<close>

lemma gm_range_filter_lookup:
  assumes wf: "gm_wf m" and P: "\<And>j w. (j, w) \<in> set m \<Longrightarrow> P w \<longleftrightarrow> j = k"
  shows "filter P (map snd (gm_range rk m)) = (case map_of m k of None \<Rightarrow> [] | Some v \<Rightarrow> [v])"
proof -
  let ?r = "gm_range rk m"
  have flt: "filter P (map snd ?r) = map snd (filter (\<lambda>e. P (snd e)) ?r)"
    by (simp add: filter_map comp_def)
  show ?thesis
  proof (cases "map_of m k")
    case None
    then have "\<forall>e \<in> set ?r. \<not> P (snd e)"
      using P wf by (auto simp: gm_wf_mem)
    then show ?thesis
      using flt None by (simp add: filter_empty_conv)
  next
    case (Some v)
    have "filter (\<lambda>e. P (snd e)) ?r = (if (k, v) \<in> set ?r then [(k, v)] else [])"
    proof (rule distinct_filter_unique[OF distinct_gm_range[OF wf]])
      fix e assume in_r: "e \<in> set ?r"
      obtain j w where e: "e = (j, w)" by (cases e)
      with in_r have mem: "(j, w) \<in> set m" by simp
      from mem have "map_of m j = Some w"
        using wf by (simp add: gm_wf_mem)
      then show "P (snd e) \<longleftrightarrow> e = (k, v)"
        using P[OF mem] Some e by auto
    qed
    then show ?thesis
      using flt Some by (simp add: gm_wf_mem wf)
  qed
qed

end
