(* ===== verification/Go_Text.thy ===== *)
theory Go_Text
  imports Prelude
begin

section \<open>Go strings and decimal formatting\<close>

text \<open>
  What the program uses of the packages \<open>strings\<close>, \<open>strconv\<close> and \<open>time\<close>. A Go string is a
  list of bytes, an Isabelle \<open>char\<close> is one byte.
\<close>

subsection \<open>Package strings\<close>

definition has_prefix :: "string \<Rightarrow> string \<Rightarrow> bool" where
  "has_prefix s p \<longleftrightarrow> take (length p) s = p"

definition has_suffix :: "string \<Rightarrow> string \<Rightarrow> bool" where
  "has_suffix s p \<longleftrightarrow> length p \<le> length s \<and> drop (length s - length p) s = p"

text \<open>\<open>strings.CutPrefix\<close>: the rest of the string and whether the prefix was there.\<close>

definition cut_prefix :: "string \<Rightarrow> string \<Rightarrow> string \<times> bool" where
  "cut_prefix s p = (if has_prefix s p then (drop (length p) s, True) else (s, False))"

text \<open>\<open>strings.Cut\<close> at the first occurrence of a one-character separator.\<close>

fun cut_at :: "char \<Rightarrow> string \<Rightarrow> string \<times> string \<times> bool" where
  "cut_at c [] = ([], [], False)"
| "cut_at c (x # xs) =
     (if x = c then ([], xs, True)
      else (case cut_at c xs of (a, b, found) \<Rightarrow> (x # a, b, found)))"

text \<open>\<open>strings.Join\<close>.\<close>

fun join_with :: "string \<Rightarrow> string list \<Rightarrow> string" where
  "join_with sep [] = []"
| "join_with sep [x] = x"
| "join_with sep (x # y # ys) = x @ sep @ join_with sep (y # ys)"

lemma has_prefix_append [simp]: "has_prefix (p @ s) p"
  by (simp add: has_prefix_def)

lemma has_prefixE: "has_prefix s p \<Longrightarrow> \<exists>r. s = p @ r"
  by (metis append_take_drop_id has_prefix_def)

lemma has_suffix_append [simp]: "has_suffix (s @ p) p"
  by (simp add: has_suffix_def)

lemma has_suffixE: "has_suffix s p \<Longrightarrow> \<exists>r. s = r @ p"
  by (metis append_take_drop_id has_suffix_def)

lemma cut_prefix_append [simp]: "cut_prefix (p @ s) p = (s, True)"
  by (simp add: cut_prefix_def)

lemma cut_prefix_True: "cut_prefix s p = (r, True) \<longleftrightarrow> s = p @ r"
  by (auto simp: cut_prefix_def dest: has_prefixE split: if_splits)

lemma join_with_Cons: "ys \<noteq> [] \<Longrightarrow> join_with sep (x # ys) = x @ sep @ join_with sep ys"
  by (cases ys) auto

lemma cut_at_not_found: "c \<notin> set s \<Longrightarrow> cut_at c s = (s, [], False)"
  by (induction s) auto

lemma cut_at_found: "c \<notin> set a \<Longrightarrow> cut_at c (a @ c # b) = (a, b, True)"
  by (induction a) auto

lemma first_cut_inject: "c \<notin> set a \<Longrightarrow> c \<notin> set b \<Longrightarrow> a @ c # x = b @ c # y \<longleftrightarrow> a = b \<and> x = y"
  by (auto simp: append_eq_append_conv2 append_eq_Cons_conv Cons_eq_append_conv)

lemma last_cut_inject: "c \<notin> set x \<Longrightarrow> c \<notin> set y \<Longrightarrow> a @ c # x = b @ c # y \<longleftrightarrow> a = b \<and> x = y"
  by (auto simp: append_eq_append_conv2 append_eq_Cons_conv Cons_eq_append_conv)

subsection \<open>ASCII letters\<close>

definition is_lower :: "char \<Rightarrow> bool" where
  "is_lower c \<longleftrightarrow> 97 \<le> (of_char c :: nat) \<and> (of_char c :: nat) \<le> 122"

definition is_upper :: "char \<Rightarrow> bool" where
  "is_upper c \<longleftrightarrow> 65 \<le> (of_char c :: nat) \<and> (of_char c :: nat) \<le> 90"

text \<open>\<open>strings.ToLower\<close> of ASCII text.\<close>

definition to_lower :: "string \<Rightarrow> string" where
  "to_lower = map (\<lambda>c. if is_upper c then char_of (of_char c + 32 :: nat) else c)"

subsection \<open>Decimal numbers\<close>

definition digit :: "nat \<Rightarrow> char" where
  "digit d = char_of (48 + d)"

lemma digit_inj: "a < 10 \<Longrightarrow> b < 10 \<Longrightarrow> digit a = digit b \<longleftrightarrow> a = b"
  by (simp add: digit_def char_of_eq_iff [of "48 + a"] )

text \<open>A number in exactly \<open>w\<close> decimal places, and in as many as it needs.\<close>

fun dec_fixed :: "nat \<Rightarrow> nat \<Rightarrow> string" where
  "dec_fixed 0 n = []"
| "dec_fixed (Suc w) n = dec_fixed w (n div 10) @ [digit (n mod 10)]"

fun dec_nat :: "nat \<Rightarrow> string" where
  "dec_nat n = (if n < 10 then [digit n] else dec_nat (n div 10) @ [digit (n mod 10)])"

declare dec_nat.simps [simp del]

lemma length_dec_fixed [simp]: "length (dec_fixed w n) = w"
  by (induction w arbitrary: n) auto

lemma dec_fixed_append_eq:
  "dec_fixed w a @ x = dec_fixed w b @ y \<longleftrightarrow> dec_fixed w a = dec_fixed w b \<and> x = y"
  by (simp add: append_eq_append_conv)

lemma base10_eq_iff:
  fixes x y r q :: nat
  assumes "r < 10" "q < 10"
  shows "10 * x + r = 10 * y + q \<longleftrightarrow> x = y \<and> r = q"
proof
  assume eq: "10 * x + r = 10 * y + q"
  from assms have "(10 * x + r) mod 10 = r" "(10 * y + q) mod 10 = q" by simp_all
  with eq have "r = q" by simp
  with eq show "x = y \<and> r = q" by simp
qed simp

lemma dec_fixed_eq_iff: "dec_fixed w a = dec_fixed w b \<longleftrightarrow> a mod 10 ^ w = b mod 10 ^ w"
proof (induction w arbitrary: a b)
  case 0
  then show ?case by simp
next
  case (Suc w)
  have split: "n mod 10 ^ Suc w = 10 * ((n div 10) mod 10 ^ w) + n mod 10" for n :: nat
    using mod_mult2_eq [of n 10 "10 ^ w"] by simp
  have "dec_fixed (Suc w) a = dec_fixed (Suc w) b \<longleftrightarrow>
      (a div 10) mod 10 ^ w = (b div 10) mod 10 ^ w \<and> a mod 10 = b mod 10"
    by (simp add: Suc.IH digit_inj)
  also have "\<dots> \<longleftrightarrow> a mod 10 ^ Suc w = b mod 10 ^ Suc w"
    unfolding split by (simp add: base10_eq_iff)
  finally show ?case .
qed

lemma dec_nat_nonempty [simp]: "dec_nat n \<noteq> []"
  by (subst dec_nat.simps) simp

definition hex_digit :: "nat \<Rightarrow> char" where
  "hex_digit d = (if d < 10 then digit d else char_of (d + 87))"

definition is_digit :: "char \<Rightarrow> bool" where
  "is_digit c \<longleftrightarrow> 48 \<le> (of_char c :: nat) \<and> (of_char c :: nat) \<le> 57"

text \<open>The number digits stand for.\<close>

definition dec_value :: "string \<Rightarrow> nat" where
  "dec_value s = foldl (\<lambda>n c. 10 * n + (of_char c - 48)) 0 s"

lemma digit_value: "d < 10 \<Longrightarrow> of_char (digit d) = 48 + d"
  by (simp add: digit_def)

lemma digit_is_digit: "d < 10 \<Longrightarrow> is_digit (digit d)"
  by (simp add: is_digit_def digit_value)

lemma dec_value_nat [simp]: "dec_value (dec_nat n) = n"
proof (induction n rule: dec_nat.induct)
  case (1 n)
  then show ?case
    by (subst dec_nat.simps) (simp add: dec_value_def digit_value)
qed

lemma dec_nat_digits: "list_all is_digit (dec_nat n)"
proof (induction n rule: dec_nat.induct)
  case (1 n)
  then show ?case
    by (subst dec_nat.simps) (simp add: digit_is_digit)
qed

text \<open>No leading zero, but for zero itself.\<close>

lemma zero_digit: "CHR ''0'' = digit 0"
  by code_simp

lemma dec_nat_length: "n < 10 ^ k \<Longrightarrow> 0 < k \<Longrightarrow> length (dec_nat n) \<le> k"
proof (induction k arbitrary: n)
  case (Suc k)
  show ?case
  proof (cases "n < 10")
    case False
    then have "0 < k" "n div 10 < 10 ^ k"
      using Suc.prems(1) by (cases k, auto simp: less_mult_imp_div_less mult.commute)
    then show ?thesis
      using Suc.IH[of "n div 10"] by (subst dec_nat.simps) simp
  qed (subst dec_nat.simps, simp)
qed simp

lemma dec_nat_first: "hd (dec_nat n) = CHR ''0'' \<longleftrightarrow> n = 0"
proof (induction n rule: dec_nat.induct)
  case (1 n)
  then show ?case
    by (subst dec_nat.simps) (auto simp: zero_digit digit_inj)
qed

definition newline :: char where
  "newline = char_of (10 :: nat)"

text \<open>\<open>%d\<close>, and \<open>strconv.Atoi\<close> for 64 bits.\<close>

definition dec_int :: "int \<Rightarrow> string" where
  "dec_int n = (if n < 0 then ''-'' @ dec_nat (nat (- n)) else dec_nat (nat n))"

definition atoi :: "string \<Rightarrow> int option" where
  "atoi s =
     (let neg = has_prefix s ''-''; ds = (if neg \<or> has_prefix s ''+'' then tl s else s);
          n = (if neg then - int (dec_value ds) else int (dec_value ds))
      in if ds \<noteq> [] \<and> list_all is_digit ds \<and> - (2 ^ 63) \<le> n \<and> n < 2 ^ 63 then Some n else None)"

lemma digit_no_sign: "is_digit c \<Longrightarrow> c \<noteq> CHR ''-'' \<and> c \<noteq> CHR ''+''"
  by (auto simp: is_digit_def)

lemma atoi_dec_nat: "n < 2 ^ 63 \<Longrightarrow> atoi (dec_nat n) = Some (int n)"
proof -
  assume n: "n < 2 ^ 63"
  obtain c r where s: "dec_nat n = c # r"
    by (cases "dec_nat n") auto
  have "is_digit c"
    using dec_nat_digits[of n] by (simp add: s)
  then have "\<not> has_prefix (dec_nat n) ''-''" "\<not> has_prefix (dec_nat n) ''+''"
    using digit_no_sign by (auto simp: s has_prefix_def)
  moreover have "int n < 2 ^ 63"
    using n by simp
  ultimately show ?thesis
    using dec_nat_digits[of n] by (simp add: atoi_def)
qed

subsection \<open>The clock reading \<open>150405.000000\<close>\<close>

text \<open>
  \<open>t.UTC().Format("150405.000000")\<close> for the Unix time \<open>ns\<close> in nanoseconds: hour, minute and
  second of the day in two places each, a dot and the microsecond in six.
\<close>

definition micro_of_day :: "int \<Rightarrow> nat" where
  "micro_of_day ns = nat ((ns div 1000) mod 86400000000)"

definition format_clock :: "int \<Rightarrow> string" where
  "format_clock ns =
     (let u = micro_of_day ns; s = u div 1000000
      in dec_fixed 2 (s div 3600) @ dec_fixed 2 (s div 60 mod 60) @ dec_fixed 2 (s mod 60) @
         ''.'' @ dec_fixed 6 (u mod 1000000))"

lemma micro_of_day_bound: "micro_of_day ns < 86400000000"
  by (simp add: micro_of_day_def nat_less_iff)

lemma length_format_clock [simp]: "length (format_clock ns) = 13"
  by (simp add: format_clock_def Let_def)

lemma hms_unique:
  fixes s t :: nat
  assumes "s div 3600 = t div 3600" "s div 60 mod 60 = t div 60 mod 60" "s mod 60 = t mod 60"
  shows "s = t"
proof -
  have hours: "n div 3600 = n div 60 div 60" for n :: nat
    by (simp add: div_mult2_eq [symmetric])
  have "s div 60 = t div 60"
    using assms(1,2) unfolding hours by (metis div_mult_mod_eq)
  then show ?thesis
    using assms(3) by (metis div_mult_mod_eq)
qed

text \<open>Two readings look the same exactly when they are the same microsecond of a day.\<close>

lemma format_clock_eq_iff:
  "format_clock a = format_clock b \<longleftrightarrow> micro_of_day a = micro_of_day b"
proof
  assume eq: "format_clock a = format_clock b"
  define s where "s = micro_of_day a div 1000000"
  define t where "t = micro_of_day b div 1000000"
  have "s < 86400" "t < 86400"
    using micro_of_day_bound[of a] micro_of_day_bound[of b]
    unfolding s_def t_def by (simp_all add: less_mult_imp_div_less)
  then have bound: "s div 3600 < 10 ^ 2" "t div 3600 < 10 ^ 2"
    by simp_all
  have sixty: "n mod 60 < 10 ^ 2" for n :: nat
    by (rule less_trans [of _ 60]) simp_all
  from eq have parts: "dec_fixed 2 (s div 3600) = dec_fixed 2 (t div 3600)"
      "dec_fixed 2 (s div 60 mod 60) = dec_fixed 2 (t div 60 mod 60)"
      "dec_fixed 2 (s mod 60) = dec_fixed 2 (t mod 60)"
      "dec_fixed 6 (micro_of_day a mod 1000000) = dec_fixed 6 (micro_of_day b mod 1000000)"
    unfolding format_clock_def Let_def s_def [symmetric] t_def [symmetric]
    by (simp_all only: dec_fixed_append_eq append_Cons append_Nil list.inject)
  then have "s = t"
    unfolding dec_fixed_eq_iff mod_less [OF bound(1)] mod_less [OF bound(2)] mod_less [OF sixty]
    by (elim hms_unique)
  moreover have "micro_of_day a mod 1000000 = micro_of_day b mod 1000000"
    using parts(4) unfolding dec_fixed_eq_iff by simp
  ultimately show "micro_of_day a = micro_of_day b"
    unfolding s_def t_def by (metis div_mult_mod_eq)
qed (simp add: format_clock_def)

end
