(* ===== verification/Cri_Model.thy ===== *)
theory Cri_Model
  imports Go_Text
begin

section \<open>The container runtime model (pkg/cri/model/model.go)\<close>

text \<open>
  The in-memory objects of the fake container runtime, its tables and its event queue. A
  protobuf message is a record of the fields the program reads or writes; \<open>opaque\<close> stands for a
  message or a part of one that the program only copies. A pointer that may be nil is an
  \<open>option\<close>. Values are immutable here, so \<open>proto.Clone\<close> is the identity and an object handed out
  by the runtime never changes when the table does; the clones of the code are what makes this
  faithful.

  The events of the queue carry callbacks. \<open>'cb\<close> is the type of the callbacks; the theory of the
  RPC handlers instantiates it with one constructor per closure of the code.
\<close>

subsection \<open>Messages\<close>

datatype opaque = Opaque string

datatype sandbox_state = SANDBOX_READY | SANDBOX_NOTREADY

datatype container_state =
  CONTAINER_CREATED | CONTAINER_RUNNING | CONTAINER_EXITED | CONTAINER_UNKNOWN

type_synonym labels = "(string \<times> string) list"

record pod_metadata =
  pm_name :: string
  pm_uid :: string
  pm_namespace :: string
  pm_attempt :: "32 word"

record pod_sandbox =
  ps_id :: string
  ps_metadata :: pod_metadata
  ps_state :: sandbox_state
  ps_created_at :: int
  ps_labels :: labels
  ps_annotations :: labels
  ps_runtime_handler :: string

record pod_sandbox_status =
  pss_id :: string
  pss_metadata :: pod_metadata
  pss_state :: sandbox_state
  pss_created_at :: int
  pss_network_ip :: string
  pss_labels :: labels
  pss_annotations :: labels
  pss_runtime_handler :: string

record container_metadata =
  cm_name :: string
  cm_attempt :: "32 word"

record image_spec =
  is_image :: string
  is_rest :: opaque

record container_msg =
  ct_id :: string
  ct_pod_sandbox_id :: string
  ct_metadata :: "container_metadata option"
  ct_image :: "image_spec option"
  ct_image_ref :: string
  ct_state :: container_state
  ct_created_at :: int
  ct_labels :: labels
  ct_annotations :: labels
  ct_image_id :: string

record container_status =
  cs_id :: string
  cs_metadata :: "container_metadata option"
  cs_state :: container_state
  cs_created_at :: int
  cs_started_at :: int
  cs_finished_at :: int
  cs_image :: "image_spec option"
  cs_image_ref :: string
  cs_labels :: labels
  cs_annotations :: labels
  cs_log_path :: string

subsection \<open>Sandbox, Container and Image\<close>

record sandbox =
  sb_p :: "pod_sandbox option"
  sb_s :: "pod_sandbox_status option"
  sb_stats :: "opaque option"

record container =
  co_p :: "container_msg option"
  co_s :: "container_status option"
  co_stats :: "opaque option"

record image =
  im_i :: "image_spec option"

definition new_sandbox :: "pod_sandbox option \<Rightarrow> pod_sandbox_status option \<Rightarrow> sandbox" where
  "new_sandbox p s = \<lparr>sb_p = p, sb_s = s, sb_stats = None\<rparr>"

definition new_container :: "container_msg option \<Rightarrow> container_status option \<Rightarrow> container" where
  "new_container p s = \<lparr>co_p = p, co_s = s, co_stats = None\<rparr>"

definition new_image :: "image_spec option \<Rightarrow> image" where
  "new_image i = \<lparr>im_i = i\<rparr>"

text \<open>The accessors are methods on a pointer and answer nil on a nil receiver.\<close>

definition pod_sandbox_of :: "sandbox option \<Rightarrow> pod_sandbox option" where
  "pod_sandbox_of x = (case x of None \<Rightarrow> None | Some s \<Rightarrow> sb_p s)"

definition pod_sandbox_status_of :: "sandbox option \<Rightarrow> pod_sandbox_status option" where
  "pod_sandbox_status_of x = (case x of None \<Rightarrow> None | Some s \<Rightarrow> sb_s s)"

definition pod_sandbox_stats_of :: "sandbox option \<Rightarrow> opaque option" where
  "pod_sandbox_stats_of x = (case x of None \<Rightarrow> None | Some s \<Rightarrow> sb_stats s)"

definition set_pod_sandbox_stats :: "opaque option \<Rightarrow> sandbox option \<Rightarrow> sandbox option" where
  "set_pod_sandbox_stats st x = map_option (\<lambda>s. s\<lparr>sb_stats := st\<rparr>) x"

definition container_of :: "container option \<Rightarrow> container_msg option" where
  "container_of x = (case x of None \<Rightarrow> None | Some c \<Rightarrow> co_p c)"

definition container_status_of :: "container option \<Rightarrow> container_status option" where
  "container_status_of x = (case x of None \<Rightarrow> None | Some c \<Rightarrow> co_s c)"

definition container_stats_of :: "container option \<Rightarrow> opaque option" where
  "container_stats_of x = (case x of None \<Rightarrow> None | Some c \<Rightarrow> co_stats c)"

definition set_container_stats :: "opaque option \<Rightarrow> container option \<Rightarrow> container option" where
  "set_container_stats st x = map_option (\<lambda>c. c\<lparr>co_stats := st\<rparr>) x"

definition image_spec_of :: "image option \<Rightarrow> image_spec option" where
  "image_spec_of x = (case x of None \<Rightarrow> None | Some i \<Rightarrow> im_i i)"

text \<open>\<open>Clone\<close> copies each message that is not nil.\<close>

definition proto_clone :: "'a \<Rightarrow> 'a" where
  "proto_clone m = m"

definition sandbox_clone :: "sandbox \<Rightarrow> sandbox" where
  "sandbox_clone s =
     \<lparr>sb_p = map_option proto_clone (sb_p s),
      sb_s = map_option proto_clone (sb_s s),
      sb_stats = map_option proto_clone (sb_stats s)\<rparr>"

definition container_clone :: "container \<Rightarrow> container" where
  "container_clone c =
     \<lparr>co_p = map_option proto_clone (co_p c),
      co_s = map_option proto_clone (co_s c),
      co_stats = map_option proto_clone (co_stats c)\<rparr>"

definition image_clone :: "image \<Rightarrow> image" where
  "image_clone i = \<lparr>im_i = map_option proto_clone (im_i i)\<rparr>"

lemma proto_clone_id [simp]: "proto_clone m = m" "map_option proto_clone x = x"
  by (simp_all add: proto_clone_def option.map_ident [unfolded id_def] map_option_case split: option.split)

lemma clone_id [simp]:
  "sandbox_clone s = s" "container_clone c = c" "image_clone i = i"
  by (simp_all add: sandbox_clone_def container_clone_def image_clone_def)

subsection \<open>Matching\<close>

text \<open>
  \<open>labels.ValidatedSetSelector(sel).Matches(labels.Set(ls))\<close> belongs to
  \<open>k8s.io/apimachinery\<close>: it is the parameter \<open>lm\<close>, applied to the selector and the labels.
\<close>

type_synonym label_match = "labels \<Rightarrow> labels \<Rightarrow> bool"

record sandbox_filter =
  sf_id :: string
  sf_state :: "sandbox_state option"
  sf_labels :: "labels option"

record container_filter =
  cf_id :: string
  cf_state :: "container_state option"
  cf_pod_sandbox_id :: string
  cf_labels :: "labels option"

record image_filter =
  if_image :: "image_spec option"

definition selector_ok :: "label_match \<Rightarrow> labels option \<Rightarrow> labels option \<Rightarrow> bool" where
  "selector_ok lm sel ls =
     (case (sel, ls) of (Some s, Some l) \<Rightarrow> lm s l | _ \<Rightarrow> True)"

definition sandbox_match :: "label_match \<Rightarrow> sandbox \<Rightarrow> sandbox_filter option \<Rightarrow> bool" where
  "sandbox_match lm x fo =
     (case fo of None \<Rightarrow> True
      | Some f \<Rightarrow>
          if sf_id f \<noteq> [] \<and> (case sb_p x of None \<Rightarrow> True | Some p \<Rightarrow> ps_id p \<noteq> sf_id f) then False
          else if (case sf_state f of None \<Rightarrow> False
                   | Some st \<Rightarrow> (case sb_s x of None \<Rightarrow> True | Some s \<Rightarrow> pss_state s \<noteq> st)) then False
          else if \<not> selector_ok lm (sf_labels f) (map_option ps_labels (sb_p x)) then False
          else True)"

definition container_match :: "label_match \<Rightarrow> container \<Rightarrow> container_filter option \<Rightarrow> bool" where
  "container_match lm x fo =
     (case fo of None \<Rightarrow> True
      | Some f \<Rightarrow>
          if cf_id f \<noteq> [] \<and> (case co_p x of None \<Rightarrow> True | Some p \<Rightarrow> ct_id p \<noteq> cf_id f) then False
          else if cf_pod_sandbox_id f \<noteq> [] \<and>
                  (case co_p x of None \<Rightarrow> True
                   | Some p \<Rightarrow> ct_pod_sandbox_id p \<noteq> cf_pod_sandbox_id f) then False
          else if (case cf_state f of None \<Rightarrow> False
                   | Some st \<Rightarrow> (case co_s x of None \<Rightarrow> True | Some s \<Rightarrow> cs_state s \<noteq> st)) then False
          else if \<not> selector_ok lm (cf_labels f) (map_option ct_labels (co_p x)) then False
          else True)"

definition image_match :: "image \<Rightarrow> image_filter option \<Rightarrow> bool" where
  "image_match x fo =
     (case fo of None \<Rightarrow> True
      | Some f \<Rightarrow>
          (case (if_image f, im_i x) of
             (Some want, Some have) \<Rightarrow> is_image have = is_image want
           | _ \<Rightarrow> True))"

end
