(* ===== verification/Keyed_Store.thy ===== *)
theory Keyed_Store
  imports Prelude
begin

section \<open>The interface of the tables\<close>

text \<open>
  Several components keep objects in a Go map under a key: the container runtime its sandboxes,
  containers and images, the frontend its backends, the descriptor channel its sessions. Their
  clients rely on the same laws: what a lookup answers after an insertion and a deletion.

  \<open>get q k s\<close> is the lookup as the code performs it (\<open>q\<close> is whatever else the lookup depends
  on, such as the iteration order of the map), \<open>view s\<close> the table it stands for. \<open>ok k\<close> are the
  keys a client may use, \<open>owns k x\<close> that the object belongs under the key, \<open>inv s\<close> the
  invariant of the provider.
\<close>

locale keyed_lookup =
  fixes get :: "'q \<Rightarrow> 'k \<Rightarrow> 's \<Rightarrow> 'o option"
    and put :: "'k \<Rightarrow> 'o \<Rightarrow> 's \<Rightarrow> 's"
    and view :: "'s \<Rightarrow> 'k \<Rightarrow> 'o option"
    and ok :: "'k \<Rightarrow> bool"
    and owns :: "'k \<Rightarrow> 'o \<Rightarrow> bool"
    and inv :: "'s \<Rightarrow> bool"
  assumes get_view: "inv s \<Longrightarrow> ok k \<Longrightarrow> get q k s = view s k"
    and put_view: "inv s \<Longrightarrow> view (put k x s) = (view s)(k \<mapsto> x)"
    and put_inv: "inv s \<Longrightarrow> ok k \<Longrightarrow> owns k x \<Longrightarrow> inv (put k x s)"
    and view_owns: "inv s \<Longrightarrow> view s k = Some x \<Longrightarrow> ok k \<and> owns k x"
begin

lemma get_put_same: "inv s \<Longrightarrow> ok k \<Longrightarrow> owns k x \<Longrightarrow> get q k (put k x s) = Some x"
  by (simp add: get_view put_view put_inv)

lemma get_put_other:
  "inv s \<Longrightarrow> ok k \<Longrightarrow> owns k x \<Longrightarrow> ok j \<Longrightarrow> j \<noteq> k \<Longrightarrow> get q j (put k x s) = get q' j s"
  by (simp add: get_view put_view put_inv)

lemma get_owns: "inv s \<Longrightarrow> ok k \<Longrightarrow> get q k s = Some x \<Longrightarrow> owns k x"
  by (simp add: get_view view_owns)

text \<open>The read-modify-write of the delayed callbacks: look the object up, change it, store it.\<close>

lemma modify_view:
  assumes "inv s" "ok k"
  shows "view (case get q k s of None \<Rightarrow> s | Some x \<Rightarrow> put k (f x) s) =
      (view s)(k := map_option f (view s k))"
  using assms by (auto simp: get_view put_view split: option.split)

lemma modify_inv:
  assumes "inv s" "ok k" "\<And>x. owns k x \<Longrightarrow> owns k (f x)"
  shows "inv (case get q k s of None \<Rightarrow> s | Some x \<Rightarrow> put k (f x) s)"
  using assms by (auto simp: get_view put_inv view_owns split: option.split)

end

text \<open>A store from which objects are removed too.\<close>

locale keyed_store = keyed_lookup get put view ok owns inv
  for get :: "'q \<Rightarrow> 'k \<Rightarrow> 's \<Rightarrow> 'o option"
    and put :: "'k \<Rightarrow> 'o \<Rightarrow> 's \<Rightarrow> 's"
    and view :: "'s \<Rightarrow> 'k \<Rightarrow> 'o option"
    and ok :: "'k \<Rightarrow> bool"
    and owns :: "'k \<Rightarrow> 'o \<Rightarrow> bool"
    and inv :: "'s \<Rightarrow> bool" +
  fixes del :: "'k \<Rightarrow> 's \<Rightarrow> 's"
  assumes del_view: "inv s \<Longrightarrow> view (del k s) = (view s)(k := None)"
    and del_inv: "inv s \<Longrightarrow> inv (del k s)"
begin

lemma get_del_same: "inv s \<Longrightarrow> ok k \<Longrightarrow> get q k (del k s) = None"
  by (simp add: get_view del_view del_inv)

lemma get_del_other: "inv s \<Longrightarrow> ok j \<Longrightarrow> j \<noteq> k \<Longrightarrow> get q j (del k s) = get q' j s"
  by (simp add: get_view del_view del_inv)

end

text \<open>
  The invariant of a Go map that is used as such a table: its keys are distinct and usable, and
  every object belongs under its key.
\<close>

definition table_wf :: "('k \<Rightarrow> bool) \<Rightarrow> ('k \<Rightarrow> 'o \<Rightarrow> bool) \<Rightarrow> ('k, 'o) gomap \<Rightarrow> bool" where
  "table_wf ok owns m \<longleftrightarrow> gm_wf m \<and> list_all (\<lambda>(k, x). ok k \<and> owns k x) m"

lemma table_wf_Nil [simp, table_intros]: "table_wf ok owns []"
  by (simp add: table_wf_def)

lemma table_wf_gm_wf [dest]: "table_wf ok owns m \<Longrightarrow> gm_wf m"
  by (simp add: table_wf_def)

lemma table_wf_mem: "table_wf ok owns m \<Longrightarrow> (k, x) \<in> set m \<Longrightarrow> ok k \<and> owns k x"
  by (auto simp: table_wf_def list_all_iff)

lemma table_wf_lookup: "table_wf ok owns m \<Longrightarrow> map_of m k = Some x \<Longrightarrow> ok k \<and> owns k x"
  by (auto dest: map_of_SomeD table_wf_mem)

lemma table_wf_store [table_intros]:
  "table_wf ok owns m \<Longrightarrow> ok k \<Longrightarrow> owns k x \<Longrightarrow> table_wf ok owns (gm_store k x m)"
  by (auto simp: table_wf_def list_all_iff set_gm_store gm_wf_store split: if_splits)

lemma table_wf_remove [table_intros]:
  "table_wf ok owns m \<Longrightarrow> table_wf ok owns (gm_remove k m)"
  by (auto simp: table_wf_def list_all_iff set_gm_remove gm_wf_remove)

end
