(* ===== verification/Cri_Runtime.thy ===== *)
theory Cri_Runtime
  imports Cri_Model Keyed_Store
begin

section \<open>The runtime: tables, queue and clock (pkg/cri/model/model.go)\<close>

text \<open>
  \<open>Runtime\<close> with its three tables and the simulation queue. Every channel made by \<open>Enqueue\<close> is a
  ticket (a number); closing the channel is recording the ticket in \<open>rt_closed\<close>. The
  simulation goroutine holds the events it has taken from the queue and not yet run in
  \<open>rt_running\<close>: \<open>sim_tick\<close> is the part of an iteration under the runtime's lock, \<open>sim_run\<close> one
  iteration of the loop that calls the callbacks.
\<close>

record 'cb event =
  ev_sequence :: "64 word"
  ev_callback :: 'cb
  ev_done :: nat

record 'cb runtime =
  rt_sandboxes :: "(string, sandbox) gomap"
  rt_containers :: "(string, container) gomap"
  rt_images :: "(string, image) gomap"
  rt_tick_rate :: int
  rt_seq :: "64 word"
  rt_events :: "'cb event list"
  rt_running :: "'cb event list"
  rt_tickets :: nat
  rt_closed :: "nat list"

definition new_runtime :: "int \<Rightarrow> 'cb runtime" where
  "new_runtime rate =
     \<lparr>rt_sandboxes = [], rt_containers = [], rt_images = [], rt_tick_rate = rate, rt_seq = 0,
      rt_events = [], rt_running = [], rt_tickets = 0, rt_closed = []\<rparr>"

text \<open>Whether \<open>NewRuntime\<close> has started the simulation goroutine.\<close>

definition simulated :: "'cb runtime \<Rightarrow> bool" where
  "simulated r \<longleftrightarrow> 0 < rt_tick_rate r"

subsection \<open>The event queue\<close>

text \<open>
  \<open>Enqueue\<close> up to the point where it waits: the event is in the queue and the caller will
  continue when the ticket it gets back is closed.
\<close>

definition enqueue :: "64 word \<Rightarrow> 'cb \<Rightarrow> 'cb runtime \<Rightarrow> 'cb runtime \<times> nat" where
  "enqueue delay_ticks cb r =
     (let target_seq = rt_seq r + delay_ticks; done = rt_tickets r
      in (r\<lparr>rt_events := rt_events r @
              [\<lparr>ev_sequence = target_seq, ev_callback = cb, ev_done = done\<rparr>],
            rt_tickets := done + 1\<rparr>, done))"

definition due :: "64 word \<Rightarrow> 'cb event \<Rightarrow> bool" where
  "due current ev \<longleftrightarrow> ev_sequence ev \<le> current"

fun split_events :: "64 word \<Rightarrow> 'cb event list \<Rightarrow> 'cb event list \<times> 'cb event list" where
  "split_events current [] = ([], [])"
| "split_events current (ev # evs) =
     (case split_events current evs of (to_run, remaining) \<Rightarrow>
        if due current ev then (ev # to_run, remaining) else (to_run, ev # remaining))"

definition sim_tick :: "'cb runtime \<Rightarrow> 'cb runtime" where
  "sim_tick r =
     (let current = rt_seq r + 1; (to_run, remaining) = split_events current (rt_events r)
      in r\<lparr>rt_seq := current, rt_events := remaining, rt_running := to_run\<rparr>)"

text \<open>
  One call of the loop over \<open>toRun\<close>: the callback, then the close of its channel. A callback
  that dereferences nil takes the process down, there is no recovery in this goroutine: \<open>None\<close>.
\<close>

definition close_done :: "nat \<Rightarrow> 'cb runtime \<Rightarrow> 'cb runtime" where
  "close_done d r = r\<lparr>rt_closed := d # rt_closed r\<rparr>"

fun sim_run :: "('cb \<Rightarrow> 'cb runtime \<Rightarrow> 'cb runtime option) \<Rightarrow> 'cb runtime \<Rightarrow> 'cb runtime option" where
  "sim_run call r =
     (case rt_running r of
        [] \<Rightarrow> Some r
      | ev # rest \<Rightarrow>
          map_option (close_done (ev_done ev)) (call (ev_callback ev) (r\<lparr>rt_running := rest\<rparr>)))"

text \<open>An iteration of the loop over the ticker: the tick, then all the callbacks it has taken.\<close>

fun sim_drain ::
  "('cb \<Rightarrow> 'cb runtime \<Rightarrow> 'cb runtime option) \<Rightarrow> 'cb event list \<Rightarrow> 'cb runtime \<Rightarrow> 'cb runtime option" where
  "sim_drain call [] r = Some r"
| "sim_drain call (ev # evs) r =
     Option.bind (sim_run call (r\<lparr>rt_running := ev # evs\<rparr>)) (sim_drain call evs)"

definition sim_iteration ::
  "('cb \<Rightarrow> 'cb runtime \<Rightarrow> 'cb runtime option) \<Rightarrow> 'cb runtime \<Rightarrow> 'cb runtime option" where
  "sim_iteration call r = (let r1 = sim_tick r in sim_drain call (rt_running r1) r1)"

lemma split_events_filter:
  "split_events cur evs = (filter (due cur) evs, filter (\<lambda>e. \<not> due cur e) evs)"
  by (induction evs) auto

subsection \<open>Sandboxes\<close>

definition add_sandbox :: "string \<Rightarrow> sandbox \<Rightarrow> 'cb runtime \<Rightarrow> 'cb runtime" where
  "add_sandbox k sb r = r\<lparr>rt_sandboxes := gm_store k (sandbox_clone sb) (rt_sandboxes r)\<rparr>"

definition remove_sandbox :: "string \<Rightarrow> 'cb runtime \<Rightarrow> 'cb runtime" where
  "remove_sandbox k r = r\<lparr>rt_sandboxes := gm_remove k (rt_sandboxes r)\<rparr>"

definition update_sandbox :: "string \<Rightarrow> sandbox \<Rightarrow> 'cb runtime \<Rightarrow> 'cb runtime" where
  "update_sandbox k sb r = r\<lparr>rt_sandboxes := gm_store k (sandbox_clone sb) (rt_sandboxes r)\<rparr>"

definition list_sandboxes ::
  "label_match \<Rightarrow> string ranking \<Rightarrow> sandbox_filter option \<Rightarrow> 'cb runtime \<Rightarrow> sandbox list" where
  "list_sandboxes lm rk f r =
     map sandbox_clone
       (filter (\<lambda>sb. sandbox_match lm sb f) (map snd (gm_range rk (rt_sandboxes r))))"

definition sandbox_id_filter :: "string \<Rightarrow> sandbox_filter" where
  "sandbox_id_filter k = \<lparr>sf_id = k, sf_state = None, sf_labels = None\<rparr>"

definition get_sandbox ::
  "label_match \<Rightarrow> string ranking \<Rightarrow> string \<Rightarrow> 'cb runtime \<Rightarrow> sandbox option" where
  "get_sandbox lm rk k r =
     (case list_sandboxes lm rk (Some (sandbox_id_filter k)) r of [] \<Rightarrow> None | x # _ \<Rightarrow> Some x)"

subsection \<open>Containers\<close>

definition add_container :: "string \<Rightarrow> container \<Rightarrow> 'cb runtime \<Rightarrow> 'cb runtime" where
  "add_container k c r = r\<lparr>rt_containers := gm_store k (container_clone c) (rt_containers r)\<rparr>"

definition remove_container :: "string \<Rightarrow> 'cb runtime \<Rightarrow> 'cb runtime" where
  "remove_container k r = r\<lparr>rt_containers := gm_remove k (rt_containers r)\<rparr>"

definition update_container :: "string \<Rightarrow> container \<Rightarrow> 'cb runtime \<Rightarrow> 'cb runtime" where
  "update_container k c r = r\<lparr>rt_containers := gm_store k (container_clone c) (rt_containers r)\<rparr>"

definition list_containers ::
  "label_match \<Rightarrow> string ranking \<Rightarrow> container_filter option \<Rightarrow> 'cb runtime \<Rightarrow> container list" where
  "list_containers lm rk f r =
     map container_clone
       (filter (\<lambda>c. container_match lm c f) (map snd (gm_range rk (rt_containers r))))"

definition container_id_filter :: "string \<Rightarrow> container_filter" where
  "container_id_filter k =
     \<lparr>cf_id = k, cf_state = None, cf_pod_sandbox_id = [], cf_labels = None\<rparr>"

definition get_container ::
  "label_match \<Rightarrow> string ranking \<Rightarrow> string \<Rightarrow> 'cb runtime \<Rightarrow> container option" where
  "get_container lm rk k r =
     (case list_containers lm rk (Some (container_id_filter k)) r of [] \<Rightarrow> None | x # _ \<Rightarrow> Some x)"

subsection \<open>Images\<close>

definition add_image :: "string \<Rightarrow> image \<Rightarrow> 'cb runtime \<Rightarrow> 'cb runtime" where
  "add_image k i r = r\<lparr>rt_images := gm_store k (image_clone i) (rt_images r)\<rparr>"

definition remove_image :: "string \<Rightarrow> 'cb runtime \<Rightarrow> 'cb runtime" where
  "remove_image k r = r\<lparr>rt_images := gm_remove k (rt_images r)\<rparr>"

definition update_image :: "string \<Rightarrow> image \<Rightarrow> 'cb runtime \<Rightarrow> 'cb runtime" where
  "update_image k i r = r\<lparr>rt_images := gm_store k (image_clone i) (rt_images r)\<rparr>"

definition list_images :: "string ranking \<Rightarrow> image_filter option \<Rightarrow> 'cb runtime \<Rightarrow> image list" where
  "list_images rk f r =
     map image_clone (filter (\<lambda>i. image_match i f) (map snd (gm_range rk (rt_images r))))"

text \<open>A filter for the empty name carries no image and so matches every image.\<close>

definition image_id_filter :: "string \<Rightarrow> image_filter" where
  "image_id_filter k =
     \<lparr>if_image = (if k \<noteq> [] then Some \<lparr>is_image = k, is_rest = Opaque []\<rparr> else None)\<rparr>"

definition get_image :: "string ranking \<Rightarrow> string \<Rightarrow> 'cb runtime \<Rightarrow> image option" where
  "get_image rk k r =
     (case list_images rk (Some (image_id_filter k)) r of [] \<Rightarrow> None | x # _ \<Rightarrow> Some x)"

subsection \<open>Statistics\<close>

text \<open>
  The loop of \<open>ListPodSandboxStats\<close> reads the identifier of the sandbox message without a nil
  check when the filter names one: \<open>None\<close> is that panic. The filter's labels are not consulted.
\<close>

record sandbox_stats_filter =
  ssf_id :: string
  ssf_labels :: "labels option"

fun collect_sandbox_stats ::
  "sandbox_stats_filter option \<Rightarrow> sandbox list \<Rightarrow> opaque list option" where
  "collect_sandbox_stats f [] = Some []"
| "collect_sandbox_stats f (sb # sbs) =
     (case sb_stats sb of
        None \<Rightarrow> collect_sandbox_stats f sbs
      | Some st \<Rightarrow>
          (let keep = (case f of None \<Rightarrow> Some True
                       | Some g \<Rightarrow> if ssf_id g = [] then Some True
                                  else map_option (\<lambda>p. ps_id p = ssf_id g) (sb_p sb))
           in case keep of
                None \<Rightarrow> None
              | Some True \<Rightarrow> map_option ((#) (proto_clone st)) (collect_sandbox_stats f sbs)
              | Some False \<Rightarrow> collect_sandbox_stats f sbs))"

definition list_pod_sandbox_stats ::
  "string ranking \<Rightarrow> sandbox_stats_filter option \<Rightarrow> 'cb runtime \<Rightarrow> opaque list option" where
  "list_pod_sandbox_stats rk f r =
     collect_sandbox_stats f (map snd (gm_range rk (rt_sandboxes r)))"

definition get_pod_sandbox_stats ::
  "label_match \<Rightarrow> string ranking \<Rightarrow> string \<Rightarrow> 'cb runtime \<Rightarrow> opaque option" where
  "get_pod_sandbox_stats lm rk k r =
     (case get_sandbox lm rk k r of
        None \<Rightarrow> None
      | Some sb \<Rightarrow> map_option proto_clone (sb_stats sb))"

text \<open>\<open>ListContainerStats\<close> copies the fields of its filter before anything else: a nil filter panics.\<close>

record container_stats_filter =
  csf_id :: string
  csf_pod_sandbox_id :: string
  csf_labels :: "labels option"

definition list_container_stats ::
  "label_match \<Rightarrow> string ranking \<Rightarrow> container_stats_filter option \<Rightarrow> 'cb runtime \<Rightarrow>
     opaque list option" where
  "list_container_stats lm rk fo r =
     (case fo of
        None \<Rightarrow> None
      | Some f \<Rightarrow>
          (let cf = \<lparr>cf_id = csf_id f, cf_state = None,
                     cf_pod_sandbox_id = csf_pod_sandbox_id f, cf_labels = csf_labels f\<rparr>
           in Some (List.map_filter
                (\<lambda>c. if container_match lm c (Some cf) then map_option proto_clone (co_stats c) else None)
                (map snd (gm_range rk (rt_containers r))))))"

definition get_container_stats ::
  "label_match \<Rightarrow> string ranking \<Rightarrow> string \<Rightarrow> 'cb runtime \<Rightarrow> opaque option" where
  "get_container_stats lm rk k r =
     (case get_container lm rk k r of
        None \<Rightarrow> None
      | Some c \<Rightarrow> map_option proto_clone (co_stats c))"

subsection \<open>Well-formed tables\<close>

text \<open>
  An object is stored under the identifier both of its messages carry, and the two messages
  agree on the state.
\<close>

definition named :: "string \<Rightarrow> bool" where
  "named k \<longleftrightarrow> k \<noteq> []"

definition sandbox_ok :: "string \<Rightarrow> sandbox \<Rightarrow> bool" where
  "sandbox_ok k sb \<longleftrightarrow>
     (case (sb_p sb, sb_s sb) of
        (Some p, Some s) \<Rightarrow> ps_id p = k \<and> pss_id s = k \<and> pss_state s = ps_state p
      | _ \<Rightarrow> False)"

definition container_ok :: "string \<Rightarrow> container \<Rightarrow> bool" where
  "container_ok k c \<longleftrightarrow>
     (case (co_p c, co_s c) of
        (Some p, Some s) \<Rightarrow> ct_id p = k \<and> cs_id s = k \<and> cs_state s = ct_state p
      | _ \<Rightarrow> False)"

definition image_ok :: "string \<Rightarrow> image \<Rightarrow> bool" where
  "image_ok k i \<longleftrightarrow> (case im_i i of None \<Rightarrow> False | Some sp \<Rightarrow> is_image sp = k)"

definition sandboxes_wf :: "'cb runtime \<Rightarrow> bool" where
  "sandboxes_wf r \<longleftrightarrow> table_wf named sandbox_ok (rt_sandboxes r)"

definition containers_wf :: "'cb runtime \<Rightarrow> bool" where
  "containers_wf r \<longleftrightarrow> table_wf named container_ok (rt_containers r)"

definition images_wf :: "'cb runtime \<Rightarrow> bool" where
  "images_wf r \<longleftrightarrow> table_wf named image_ok (rt_images r)"

definition runtime_wf :: "'cb runtime \<Rightarrow> bool" where
  "runtime_wf r \<longleftrightarrow> sandboxes_wf r \<and> containers_wf r \<and> images_wf r"

lemma sandbox_match_id:
  "named k \<Longrightarrow> sandbox_ok j sb \<Longrightarrow>
     sandbox_match lm sb (Some (sandbox_id_filter k)) \<longleftrightarrow> j = k"
  by (auto simp: sandbox_match_def sandbox_id_filter_def sandbox_ok_def selector_ok_def named_def
      split: option.splits)

lemma container_match_id:
  "named k \<Longrightarrow> container_ok j c \<Longrightarrow>
     container_match lm c (Some (container_id_filter k)) \<longleftrightarrow> j = k"
  by (auto simp: container_match_def container_id_filter_def container_ok_def selector_ok_def
      named_def split: option.splits)

lemma image_match_id:
  "named k \<Longrightarrow> image_ok j i \<Longrightarrow> image_match i (Some (image_id_filter k)) \<longleftrightarrow> j = k"
  by (auto simp: image_match_def image_id_filter_def image_ok_def named_def split: option.splits)

text \<open>A lookup by a non-empty identifier finds the entry under that key, in any iteration order.\<close>

lemma get_sandbox_lookup:
  assumes "sandboxes_wf r" "named k"
  shows "get_sandbox lm rk k r = map_of (rt_sandboxes r) k"
proof -
  have wf: "table_wf named sandbox_ok (rt_sandboxes r)"
    using assms by (simp add: sandboxes_wf_def)
  have "filter (\<lambda>sb. sandbox_match lm sb (Some (sandbox_id_filter k)))
      (map snd (gm_range rk (rt_sandboxes r))) =
      (case map_of (rt_sandboxes r) k of None \<Rightarrow> [] | Some v \<Rightarrow> [v])"
    using wf assms(2) by (intro gm_range_filter_lookup) (auto simp: sandbox_match_id dest: table_wf_mem)
  then show ?thesis
    by (simp add: get_sandbox_def list_sandboxes_def split: option.split)
qed

lemma get_container_lookup:
  assumes "containers_wf r" "named k"
  shows "get_container lm rk k r = map_of (rt_containers r) k"
proof -
  have wf: "table_wf named container_ok (rt_containers r)"
    using assms by (simp add: containers_wf_def)
  have "filter (\<lambda>c. container_match lm c (Some (container_id_filter k)))
      (map snd (gm_range rk (rt_containers r))) =
      (case map_of (rt_containers r) k of None \<Rightarrow> [] | Some v \<Rightarrow> [v])"
    using wf assms(2) by (intro gm_range_filter_lookup) (auto simp: container_match_id dest: table_wf_mem)
  then show ?thesis
    by (simp add: get_container_def list_containers_def split: option.split)
qed

lemma get_image_lookup:
  assumes "images_wf r" "named k"
  shows "get_image rk k r = map_of (rt_images r) k"
proof -
  have wf: "table_wf named image_ok (rt_images r)"
    using assms by (simp add: images_wf_def)
  have "filter (\<lambda>i. image_match i (Some (image_id_filter k)))
      (map snd (gm_range rk (rt_images r))) =
      (case map_of (rt_images r) k of None \<Rightarrow> [] | Some v \<Rightarrow> [v])"
    using wf assms(2) by (intro gm_range_filter_lookup) (auto simp: image_match_id dest: table_wf_mem)
  then show ?thesis
    by (simp add: get_image_def list_images_def split: option.split)
qed

subsection \<open>The runtime provides three keyed stores\<close>

interpretation sbx: keyed_store "\<lambda>(lm, rk). get_sandbox lm rk" add_sandbox
  "\<lambda>r. map_of (rt_sandboxes r)" named sandbox_ok sandboxes_wf remove_sandbox
  by unfold_locales
    (auto simp: get_sandbox_lookup add_sandbox_def remove_sandbox_def sandboxes_wf_def map_simps
      intro: table_intros dest: table_wf_lookup)

interpretation ctr: keyed_store "\<lambda>(lm, rk). get_container lm rk" add_container
  "\<lambda>r. map_of (rt_containers r)" named container_ok containers_wf remove_container
  by unfold_locales
    (auto simp: get_container_lookup add_container_def remove_container_def containers_wf_def
      map_simps intro: table_intros dest: table_wf_lookup)

interpretation img: keyed_store "get_image" add_image
  "\<lambda>r. map_of (rt_images r)" named image_ok images_wf remove_image
  by unfold_locales
    (auto simp: get_image_lookup add_image_def remove_image_def images_wf_def map_simps
      intro: table_intros dest: table_wf_lookup)

end
