(* ===== verification/Cri_Handlers.thy ===== *)
theory Cri_Handlers
  imports Cri_Runtime
begin

section \<open>The CRI service (pkg/cri/cri.go)\<close>

text \<open>
  One definition per RPC of \<open>BuiltinCRIRuntime\<close>. A handler runs under the mutex \<open>b.mu\<close>; it
  returns the changed runtime and either its result (\<open>Now\<close>) or, when it called \<open>Enqueue\<close>, the
  ticket it waits for and the reply it gives once the ticket is closed (\<open>Await\<close>). \<open>Enqueue\<close>
  returns only after the event has run, so the part of a handler behind it runs after the
  callback; in all handlers but \<open>PullImage\<close> it is just the return statement.

  Everything a handler reads from outside comes in an \<open>env\<close>: the label selectors of
  \<open>k8s.io/apimachinery\<close>, the iteration order of its \<open>n\<close>-th range statement and the \<open>n\<close>-th
  reading of the clock (Unix time in nanoseconds). Of a gRPC status only the code is kept.
\<close>

record env =
  e_match :: label_match
  e_rank :: "nat \<Rightarrow> string ranking"
  e_now :: "nat \<Rightarrow> int"

datatype grpc_code = InvalidArgument | NotFound | AlreadyExists | Internal

datatype 'r rpc = Reply 'r | Fail grpc_code | Panicked

datatype 'r flow = Now "'r rpc" | Await nat 'r

text \<open>The closures handed to \<open>Enqueue\<close>, with the variables they capture.\<close>

datatype callback =
    SandboxReady string
  | SandboxStopped string
  | ContainerStarted string
  | ContainerStopped string
  | ImagePulled "image_spec option"

type_synonym cri = "callback runtime"

definition new_cri :: cri where
  "new_cri = new_runtime 100000000"

definition uniq_id :: "string list \<Rightarrow> int \<Rightarrow> string" where
  "uniq_id s now = join_with ''-'' (s @ [format_clock now])"

subsection \<open>Requests\<close>

record pod_config =
  pc_metadata :: "pod_metadata option"
  pc_labels :: labels
  pc_annotations :: labels

record run_pod_request =
  rp_config :: "pod_config option"
  rp_runtime_handler :: string

record container_config =
  cc_metadata :: "container_metadata option"
  cc_image :: "image_spec option"
  cc_labels :: labels
  cc_annotations :: labels
  cc_log_path :: string

record create_container_request =
  cr_pod_sandbox_id :: string
  cr_config :: "container_config option"

text \<open>The generated getters answer the zero value on a nil receiver.\<close>

definition no_metadata :: pod_metadata where
  "no_metadata = \<lparr>pm_name = [], pm_uid = [], pm_namespace = [], pm_attempt = 0\<rparr>"

definition pod_metadata_of :: "pod_config option \<Rightarrow> pod_metadata" where
  "pod_metadata_of c =
     (case Option.bind c pc_metadata of None \<Rightarrow> no_metadata | Some m \<Rightarrow> m)"

definition opt_list :: "('a \<Rightarrow> 'b list) \<Rightarrow> 'a option \<Rightarrow> 'b list" where
  "opt_list f x = (case x of None \<Rightarrow> [] | Some a \<Rightarrow> f a)"

definition image_name_of :: "image_spec option \<Rightarrow> string" where
  "image_name_of = opt_list is_image"

lemma opt_list_simps [simp]: "opt_list f None = []" "opt_list f (Some a) = f a"
  by (simp_all add: opt_list_def)

lemma image_name_of_simps [simp]:
  "image_name_of None = []" "image_name_of (Some i) = is_image i"
  by (simp_all add: image_name_of_def)

subsection \<open>The delayed callbacks\<close>

text \<open>Writing through a nil message panics: \<open>None\<close>.\<close>

definition with_sandbox_state :: "sandbox_state \<Rightarrow> sandbox \<Rightarrow> sandbox option" where
  "with_sandbox_state st sb =
     (case (sb_p sb, sb_s sb) of
        (Some p, Some s) \<Rightarrow>
          Some (sb\<lparr>sb_p := Some (p\<lparr>ps_state := st\<rparr>), sb_s := Some (s\<lparr>pss_state := st\<rparr>)\<rparr>)
      | _ \<Rightarrow> None)"

definition with_container_state ::
  "container_state \<Rightarrow> (container_status \<Rightarrow> container_status) \<Rightarrow> container \<Rightarrow> container option" where
  "with_container_state st stamp c =
     (case (co_p c, co_s c) of
        (Some p, Some s) \<Rightarrow>
          Some (c\<lparr>co_p := Some (p\<lparr>ct_state := st\<rparr>), co_s := Some (stamp (s\<lparr>cs_state := st\<rparr>))\<rparr>)
      | _ \<Rightarrow> None)"

definition stamp_started :: "int \<Rightarrow> container_status \<Rightarrow> container_status" where
  "stamp_started t s = s\<lparr>cs_started_at := t\<rparr>"

definition stamp_finished :: "int \<Rightarrow> container_status \<Rightarrow> container_status" where
  "stamp_finished t s = s\<lparr>cs_finished_at := t\<rparr>"

definition move_sandbox :: "env \<Rightarrow> sandbox_state \<Rightarrow> string \<Rightarrow> cri \<Rightarrow> cri option" where
  "move_sandbox e st sbid r =
     (case get_sandbox (e_match e) (e_rank e 0) sbid r of
        None \<Rightarrow> Some r
      | Some sb \<Rightarrow> map_option (\<lambda>sb'. update_sandbox sbid sb' r) (with_sandbox_state st sb))"

definition move_container ::
  "env \<Rightarrow> container_state \<Rightarrow> (container_status \<Rightarrow> container_status) \<Rightarrow> string \<Rightarrow> cri \<Rightarrow> cri option" where
  "move_container e st stamp scid r =
     (case get_container (e_match e) (e_rank e 0) scid r of
        None \<Rightarrow> Some r
      | Some c \<Rightarrow> map_option (\<lambda>c'. update_container scid c' r) (with_container_state st stamp c))"

text \<open>The loop of \<open>StopPodSandbox\<close> over the containers of the sandbox.\<close>

fun exit_children :: "env \<Rightarrow> string \<Rightarrow> nat \<Rightarrow> container list \<Rightarrow> cri \<Rightarrow> cri option" where
  "exit_children e sbid n [] r = Some r"
| "exit_children e sbid n (c # cs) r =
     (case co_p c of
        None \<Rightarrow> None
      | Some p \<Rightarrow>
          if ct_pod_sandbox_id p = sbid then
            (case with_container_state CONTAINER_EXITED (stamp_finished (e_now e n)) c of
               None \<Rightarrow> None
             | Some c' \<Rightarrow> exit_children e sbid (n + 1) cs (update_container (ct_id p) c' r))
          else exit_children e sbid n cs r)"

definition stop_sandbox :: "env \<Rightarrow> string \<Rightarrow> cri \<Rightarrow> cri option" where
  "stop_sandbox e sbid r =
     Option.bind (move_sandbox e SANDBOX_NOTREADY sbid r)
       (\<lambda>r'. exit_children e sbid 0 (list_containers (e_match e) (e_rank e 1) None r') r')"

definition pulled_image :: "image_spec option \<Rightarrow> cri \<Rightarrow> cri" where
  "pulled_image i r = add_image (image_name_of i) (new_image i) r"

fun run_callback :: "env \<Rightarrow> callback \<Rightarrow> cri \<Rightarrow> cri option" where
  "run_callback e (SandboxReady sbid) r = move_sandbox e SANDBOX_READY sbid r"
| "run_callback e (SandboxStopped sbid) r = stop_sandbox e sbid r"
| "run_callback e (ContainerStarted scid) r =
     move_container e CONTAINER_RUNNING (stamp_started (e_now e 0)) scid r"
| "run_callback e (ContainerStopped scid) r =
     move_container e CONTAINER_EXITED (stamp_finished (e_now e 0)) scid r"
| "run_callback e (ImagePulled i) r = Some (pulled_image i r)"

subsection \<open>Sandboxes\<close>

definition new_pod_sandbox :: "env \<Rightarrow> run_pod_request \<Rightarrow> string \<Rightarrow> pod_sandbox" where
  "new_pod_sandbox e req sbid =
     \<lparr>ps_id = sbid,
      ps_metadata = pod_metadata_of (rp_config req),
      ps_state = SANDBOX_NOTREADY,
      ps_created_at = e_now e 1,
      ps_labels = opt_list pc_labels (rp_config req),
      ps_annotations = opt_list pc_annotations (rp_config req),
      ps_runtime_handler = rp_runtime_handler req\<rparr>"

definition status_of_pod_sandbox :: "pod_sandbox \<Rightarrow> pod_sandbox_status" where
  "status_of_pod_sandbox np =
     \<lparr>pss_id = ps_id np, pss_metadata = ps_metadata np, pss_state = ps_state np,
      pss_created_at = ps_created_at np, pss_network_ip = ''10.0.0.1'',
      pss_labels = ps_labels np, pss_annotations = ps_annotations np,
      pss_runtime_handler = ps_runtime_handler np\<rparr>"

definition run_pod_sandbox :: "env \<Rightarrow> run_pod_request \<Rightarrow> cri \<Rightarrow> cri \<times> string flow" where
  "run_pod_sandbox e req r =
     (let uid = pm_uid (pod_metadata_of (rp_config req))
      in if uid = [] then (r, Now (Fail InvalidArgument))
         else
           let sbid = uniq_id [''sandbox'', uid] (e_now e 0)
           in if get_sandbox (e_match e) (e_rank e 0) sbid r \<noteq> None
              then (r, Now (Fail AlreadyExists))
              else
                let np = new_pod_sandbox e req sbid;
                    r1 = add_sandbox sbid (new_sandbox (Some np) (Some (status_of_pod_sandbox np))) r;
                    (r2, d) = enqueue 10 (SandboxReady sbid) r1
                in (r2, Await d sbid))"

definition stop_pod_sandbox :: "env \<Rightarrow> string \<Rightarrow> cri \<Rightarrow> cri \<times> unit flow" where
  "stop_pod_sandbox e sbid r =
     (if get_sandbox (e_match e) (e_rank e 0) sbid r = None then (r, Now (Fail NotFound))
      else let (r1, d) = enqueue 10 (SandboxStopped sbid) r in (r1, Await d ()))"

text \<open>Whether a container of the sandbox is met; a container without its message panics.\<close>

fun has_children :: "string \<Rightarrow> container list \<Rightarrow> bool option" where
  "has_children sbid [] = Some False"
| "has_children sbid (c # cs) =
     (case co_p c of
        None \<Rightarrow> None
      | Some p \<Rightarrow> if ct_pod_sandbox_id p = sbid then Some True else has_children sbid cs)"

definition remove_pod_sandbox :: "env \<Rightarrow> string \<Rightarrow> cri \<Rightarrow> cri \<times> unit rpc" where
  "remove_pod_sandbox e sbid r =
     (if sbid = [] then (r, Fail InvalidArgument)
      else if get_sandbox (e_match e) (e_rank e 0) sbid r = None then (r, Fail NotFound)
      else case has_children sbid (list_containers (e_match e) (e_rank e 1) None r) of
             None \<Rightarrow> (r, Panicked)
           | Some True \<Rightarrow> (r, Fail InvalidArgument)
           | Some False \<Rightarrow> (remove_sandbox sbid r, Reply ()))"

definition pod_sandbox_status_rpc ::
  "env \<Rightarrow> string \<Rightarrow> cri \<Rightarrow> pod_sandbox_status option rpc" where
  "pod_sandbox_status_rpc e sbid r =
     (case get_sandbox (e_match e) (e_rank e 0) sbid r of
        None \<Rightarrow> Fail NotFound
      | Some o' \<Rightarrow> Reply (map_option proto_clone (pod_sandbox_status_of (Some o'))))"

definition list_pod_sandbox ::
  "env \<Rightarrow> sandbox_filter option \<Rightarrow> cri \<Rightarrow> pod_sandbox option list rpc" where
  "list_pod_sandbox e f r =
     Reply (map (\<lambda>x. map_option proto_clone (pod_sandbox_of (Some x)))
       (list_sandboxes (e_match e) (e_rank e 0) f r))"

definition pod_sandbox_stats_rpc :: "env \<Rightarrow> string \<Rightarrow> cri \<Rightarrow> opaque rpc" where
  "pod_sandbox_stats_rpc e sbid r =
     (case get_pod_sandbox_stats (e_match e) (e_rank e 0) sbid r of
        None \<Rightarrow> Fail NotFound
      | Some st \<Rightarrow> Reply st)"

definition list_pod_sandbox_stats_rpc ::
  "env \<Rightarrow> sandbox_stats_filter option \<Rightarrow> cri \<Rightarrow> opaque list rpc" where
  "list_pod_sandbox_stats_rpc e f r =
     (case list_pod_sandbox_stats (e_rank e 0) f r of None \<Rightarrow> Panicked | Some l \<Rightarrow> Reply l)"

subsection \<open>Containers\<close>

definition new_container_msg ::
  "env \<Rightarrow> create_container_request \<Rightarrow> string \<Rightarrow> image_spec \<Rightarrow> container_msg" where
  "new_container_msg e req scid img =
     \<lparr>ct_id = scid,
      ct_pod_sandbox_id = cr_pod_sandbox_id req,
      ct_metadata = Option.bind (cr_config req) cc_metadata,
      ct_image = Some img,
      ct_image_ref = is_image img,
      ct_state = CONTAINER_CREATED,
      ct_created_at = e_now e 1,
      ct_labels = opt_list cc_labels (cr_config req),
      ct_annotations = opt_list cc_annotations (cr_config req),
      ct_image_id = is_image img\<rparr>"

definition status_of_container ::
  "create_container_request \<Rightarrow> image_spec \<Rightarrow> container_msg \<Rightarrow> container_status" where
  "status_of_container req img nc =
     \<lparr>cs_id = ct_id nc, cs_metadata = ct_metadata nc, cs_state = ct_state nc,
      cs_created_at = ct_created_at nc, cs_started_at = 0, cs_finished_at = 0,
      cs_image = ct_image nc, cs_image_ref = is_image img, cs_labels = ct_labels nc,
      cs_annotations = ct_annotations nc, cs_log_path = opt_list cc_log_path (cr_config req)\<rparr>"

text \<open>
  The container message reads the image's name without a nil check. A request without an image
  gets that far when any image is present, because a lookup of the empty name matches all.
\<close>

definition create_container :: "env \<Rightarrow> create_container_request \<Rightarrow> cri \<Rightarrow> cri \<times> string rpc" where
  "create_container e req r =
     (let sbid = cr_pod_sandbox_id req;
          img = Option.bind (cr_config req) cc_image
      in if sbid = [] then (r, Fail InvalidArgument)
         else if get_sandbox (e_match e) (e_rank e 0) sbid r = None then (r, Fail NotFound)
         else if get_image (e_rank e 1) (image_name_of img) r = None then (r, Fail NotFound)
         else
           let name = opt_list cm_name (Option.bind (cr_config req) cc_metadata);
               scid = uniq_id [''container'', sbid, name] (e_now e 0)
           in if get_container (e_match e) (e_rank e 2) scid r \<noteq> None
              then (r, Fail AlreadyExists)
              else case img of
                None \<Rightarrow> (r, Panicked)
              | Some i \<Rightarrow>
                  let nc = new_container_msg e req scid i
                  in (add_container scid
                        (new_container (Some nc) (Some (status_of_container req i nc))) r,
                      Reply scid))"

definition start_container :: "env \<Rightarrow> string \<Rightarrow> cri \<Rightarrow> cri \<times> unit flow" where
  "start_container e scid r =
     (if get_container (e_match e) (e_rank e 0) scid r = None then (r, Now (Fail NotFound))
      else let (r1, d) = enqueue 10 (ContainerStarted scid) r in (r1, Await d ()))"

definition stop_container :: "env \<Rightarrow> string \<Rightarrow> cri \<Rightarrow> cri \<times> unit flow" where
  "stop_container e scid r =
     (if get_container (e_match e) (e_rank e 0) scid r = None then (r, Now (Fail NotFound))
      else let (r1, d) = enqueue 10 (ContainerStopped scid) r in (r1, Await d ()))"

definition remove_container_rpc :: "env \<Rightarrow> string \<Rightarrow> cri \<Rightarrow> cri \<times> unit rpc" where
  "remove_container_rpc e scid r =
     (if get_container (e_match e) (e_rank e 0) scid r = None then (r, Fail NotFound)
      else (remove_container scid r, Reply ()))"

definition list_containers_rpc ::
  "env \<Rightarrow> container_filter option \<Rightarrow> cri \<Rightarrow> container_msg option list rpc" where
  "list_containers_rpc e f r =
     Reply (map (\<lambda>x. map_option proto_clone (container_of (Some x)))
       (list_containers (e_match e) (e_rank e 0) f r))"

definition container_status_rpc :: "env \<Rightarrow> string \<Rightarrow> cri \<Rightarrow> container_status option rpc" where
  "container_status_rpc e scid r =
     (case get_container (e_match e) (e_rank e 0) scid r of
        None \<Rightarrow> Fail NotFound
      | Some o' \<Rightarrow> Reply (map_option proto_clone (container_status_of (Some o'))))"

definition container_stats_rpc :: "env \<Rightarrow> string \<Rightarrow> cri \<Rightarrow> opaque rpc" where
  "container_stats_rpc e scid r =
     (case get_container_stats (e_match e) (e_rank e 0) scid r of
        None \<Rightarrow> Fail NotFound
      | Some st \<Rightarrow> Reply st)"

definition list_container_stats_rpc ::
  "env \<Rightarrow> container_stats_filter option \<Rightarrow> cri \<Rightarrow> opaque list rpc" where
  "list_container_stats_rpc e f r =
     (case list_container_stats (e_match e) (e_rank e 0) f r of None \<Rightarrow> Panicked | Some l \<Rightarrow> Reply l)"

subsection \<open>Images\<close>

record image_msg =
  img_id :: string
  img_size :: nat

definition image_msg_of :: "image \<Rightarrow> image_msg" where
  "image_msg_of x = \<lparr>img_id = image_name_of (image_spec_of (Some x)), img_size = 1\<rparr>"

definition list_images_rpc :: "env \<Rightarrow> cri \<Rightarrow> image_msg list rpc" where
  "list_images_rpc e r = Reply (map image_msg_of (list_images (e_rank e 0) None r))"

text \<open>An image that is not there is an empty response, not an error.\<close>

definition image_status :: "env \<Rightarrow> image_spec option \<Rightarrow> cri \<Rightarrow> image_msg option rpc" where
  "image_status e i r =
     Reply (map_option image_msg_of (get_image (e_rank e 0) (image_name_of i) r))"

text \<open>
  \<open>PullImage\<close> up to the wait in \<open>Enqueue\<close>. Behind it the handler gives up the mutex, selects
  between the channel its callback has closed and the context, and takes the mutex again:
  \<open>pull_image_resume\<close> is the outcome, by whether the select takes the context's branch.
\<close>

definition pull_image :: "env \<Rightarrow> image_spec option \<Rightarrow> cri \<Rightarrow> cri \<times> string flow" where
  "pull_image e i r =
     (let (r1, d) = enqueue 10 (ImagePulled i) r in (r1, Await d (image_name_of i)))"

datatype pull_result = Pulled string | ContextError

definition pull_image_resume :: "bool \<Rightarrow> string \<Rightarrow> pull_result" where
  "pull_image_resume ctx_branch ref = (if ctx_branch then ContextError else Pulled ref)"

definition remove_image_rpc :: "env \<Rightarrow> image_spec option \<Rightarrow> cri \<Rightarrow> cri \<times> unit rpc" where
  "remove_image_rpc e i r = (remove_image (image_name_of i) r, Reply ())"

subsection \<open>Calls with a constant answer\<close>

record version_response =
  vr_version :: string
  vr_runtime_name :: string
  vr_runtime_api_version :: string
  vr_runtime_version :: string

definition version_rpc :: "version_response rpc" where
  "version_rpc = Reply
     \<lparr>vr_version = ''0.1.0'', vr_runtime_name = ''breakbulk'', vr_runtime_api_version = ''v1'',
      vr_runtime_version = ''1.0.0''\<rparr>"

record runtime_handler =
  rh_name :: string
  rh_recursive_read_only_mounts :: bool
  rh_user_namespaces :: bool

record runtime_status =
  st_handlers :: "runtime_handler list"
  st_conditions :: "(string \<times> bool) list"

definition status_rpc :: "runtime_status rpc" where
  "status_rpc = Reply
     \<lparr>st_handlers =
        map (\<lambda>n. \<lparr>rh_name = n, rh_recursive_read_only_mounts = True, rh_user_namespaces = True\<rparr>)
          [[], ''default''],
      st_conditions = [(''RuntimeReady'', True), (''NetworkReady'', True)]\<rparr>"

datatype cgroup_driver = SYSTEMD | CGROUPFS

definition runtime_config_rpc :: "cgroup_driver rpc" where
  "runtime_config_rpc = Reply CGROUPFS"

definition update_runtime_config_rpc :: "unit rpc" where
  "update_runtime_config_rpc = Reply ()"

definition list_metric_descriptors_rpc :: "opaque list rpc" where
  "list_metric_descriptors_rpc = Reply []"

record filesystem_usage =
  fu_mountpoint :: string
  fu_used_bytes :: nat
  fu_timestamp :: int

definition image_fs_info_rpc :: "env \<Rightarrow> filesystem_usage list rpc" where
  "image_fs_info_rpc e =
     Reply [\<lparr>fu_mountpoint = ''/tmp'', fu_used_bytes = 1, fu_timestamp = e_now e 0\<rparr>]"

text \<open>The calls that answer a nil response and a nil error.\<close>

datatype stub_call =
    UpdatePodSandboxResources | ListPodSandboxMetrics | UpdateContainerResources
  | ReopenContainerLog | ExecSync | Exec | Attach | PortForward | CheckpointContainer

definition stub_rpc :: "stub_call \<Rightarrow> opaque option rpc" where
  "stub_rpc c = Reply None"

end
