(* ===== verification/Cri_Refinement.thy ===== *)
theory Cri_Refinement
  imports Cri_Handlers
begin

section \<open>What the CRI service promises\<close>

text \<open>
  The abstract state of the service: the state of every sandbox, the sandbox and the state of
  every container, and the names of the images that are present. The delayed callbacks and the
  handlers implement simple updates of it; the loops, the match-and-take-the-first lookups and
  the iteration orders of the code are gone.
\<close>

record service =
  sv_sandboxes :: "string \<Rightarrow> sandbox_state option"
  sv_containers :: "string \<Rightarrow> (string \<times> container_state) option"
  sv_images :: "string \<Rightarrow> bool"

definition sandbox_abs :: "sandbox \<Rightarrow> sandbox_state" where
  "sandbox_abs sb = (case sb_p sb of None \<Rightarrow> SANDBOX_NOTREADY | Some p \<Rightarrow> ps_state p)"

definition container_abs :: "container \<Rightarrow> string \<times> container_state" where
  "container_abs c =
     (case co_p c of None \<Rightarrow> ([], CONTAINER_UNKNOWN) | Some p \<Rightarrow> (ct_pod_sandbox_id p, ct_state p))"

definition service_of :: "cri \<Rightarrow> service" where
  "service_of r =
     \<lparr>sv_sandboxes = (\<lambda>k. map_option sandbox_abs (map_of (rt_sandboxes r) k)),
      sv_containers = (\<lambda>k. map_option container_abs (map_of (rt_containers r) k)),
      sv_images = (\<lambda>k. map_of (rt_images r) k \<noteq> None)\<rparr>"

text \<open>The effect each delayed callback promises.\<close>

fun promised :: "callback \<Rightarrow> service \<Rightarrow> service" where
  "promised (SandboxReady k) s =
     s\<lparr>sv_sandboxes := (sv_sandboxes s)(k := map_option (\<lambda>_. SANDBOX_READY) (sv_sandboxes s k))\<rparr>"
| "promised (SandboxStopped k) s =
     s\<lparr>sv_sandboxes := (sv_sandboxes s)(k := map_option (\<lambda>_. SANDBOX_NOTREADY) (sv_sandboxes s k)),
       sv_containers := (\<lambda>c. map_option (\<lambda>(pod, st). (pod, if pod = k then CONTAINER_EXITED else st))
         (sv_containers s c))\<rparr>"
| "promised (ContainerStarted k) s =
     s\<lparr>sv_containers := (sv_containers s)(k :=
         map_option (\<lambda>(pod, _). (pod, CONTAINER_RUNNING)) (sv_containers s k))\<rparr>"
| "promised (ContainerStopped k) s =
     s\<lparr>sv_containers := (sv_containers s)(k :=
         map_option (\<lambda>(pod, _). (pod, CONTAINER_EXITED)) (sv_containers s k))\<rparr>"
| "promised (ImagePulled i) s =
     s\<lparr>sv_images := (sv_images s)(image_name_of i := True)\<rparr>"

text \<open>The callbacks a well-behaved client causes: they name their object.\<close>

fun named_callback :: "callback \<Rightarrow> bool" where
  "named_callback (SandboxReady k) = named k"
| "named_callback (SandboxStopped k) = named k"
| "named_callback (ContainerStarted k) = named k"
| "named_callback (ContainerStopped k) = named k"
| "named_callback (ImagePulled i) = named (image_name_of i)"

subsection \<open>Single objects\<close>

lemma update_is_add [simp]:
  "update_sandbox k sb r = add_sandbox k sb r" "update_container k c r = add_container k c r"
  by (simp_all add: update_sandbox_def add_sandbox_def update_container_def add_container_def)

lemma with_sandbox_state_ok:
  assumes "sandbox_ok k sb"
  shows "\<exists>sb'. with_sandbox_state st sb = Some sb' \<and> sandbox_ok k sb' \<and> sandbox_abs sb' = st"
  using assms by (auto simp: sandbox_ok_def with_sandbox_state_def sandbox_abs_def split: option.splits)

lemma with_container_state_ok:
  assumes "container_ok k c"
    and "\<And>s. cs_id (stamp s) = cs_id s" "\<And>s. cs_state (stamp s) = cs_state s"
  shows "\<exists>c'. with_container_state st stamp c = Some c' \<and> container_ok k c' \<and>
    container_abs c' = (fst (container_abs c), st)"
  using assms by (auto simp: container_ok_def with_container_state_def container_abs_def
      split: option.splits)

lemma stamp_keeps [simp]:
  "cs_id (stamp_started t s) = cs_id s" "cs_state (stamp_started t s) = cs_state s"
  "cs_id (stamp_finished t s) = cs_id s" "cs_state (stamp_finished t s) = cs_state s"
  by (simp_all add: stamp_started_def stamp_finished_def)

text \<open>Frame: what the tables' operations leave alone.\<close>

lemma store_frame [simp]:
  "rt_containers (add_sandbox k sb r) = rt_containers r"
  "rt_images (add_sandbox k sb r) = rt_images r"
  "rt_sandboxes (add_container k c r) = rt_sandboxes r"
  "rt_images (add_container k c r) = rt_images r"
  "rt_sandboxes (add_image k i r) = rt_sandboxes r"
  "rt_containers (add_image k i r) = rt_containers r"
  "rt_containers (remove_sandbox k r) = rt_containers r"
  "rt_images (remove_sandbox k r) = rt_images r"
  "rt_sandboxes (remove_container k r) = rt_sandboxes r"
  "rt_images (remove_container k r) = rt_images r"
  "rt_sandboxes (remove_image k r) = rt_sandboxes r"
  "rt_containers (remove_image k r) = rt_containers r"
  by (simp_all add: add_sandbox_def add_container_def add_image_def remove_sandbox_def
      remove_container_def remove_image_def)

lemma wf_frame [simp]:
  "containers_wf (add_sandbox k sb r) = containers_wf r" "images_wf (add_sandbox k sb r) = images_wf r"
  "sandboxes_wf (add_container k c r) = sandboxes_wf r" "images_wf (add_container k c r) = images_wf r"
  "sandboxes_wf (add_image k i r) = sandboxes_wf r" "containers_wf (add_image k i r) = containers_wf r"
  "containers_wf (remove_sandbox k r) = containers_wf r" "images_wf (remove_sandbox k r) = images_wf r"
  "sandboxes_wf (remove_container k r) = sandboxes_wf r" "images_wf (remove_container k r) = images_wf r"
  "sandboxes_wf (remove_image k r) = sandboxes_wf r" "containers_wf (remove_image k r) = containers_wf r"
  by (simp_all add: sandboxes_wf_def containers_wf_def images_wf_def)

lemma move_sandbox_cases:
  assumes "sandboxes_wf r" "named k"
  obtains "map_of (rt_sandboxes r) k = None" "move_sandbox e st k r = Some r"
  | sb sb' where "map_of (rt_sandboxes r) k = Some sb" "sandbox_ok k sb'" "sandbox_abs sb' = st"
      "move_sandbox e st k r = Some (add_sandbox k sb' r)"
proof (cases "map_of (rt_sandboxes r) k")
  case None
  then show ?thesis
    using assms that(1) by (simp add: move_sandbox_def get_sandbox_lookup)
next
  case (Some sb)
  then have "sandbox_ok k sb"
    using sbx.view_owns[OF assms(1)] by blast
  then obtain sb' where "with_sandbox_state st sb = Some sb'" "sandbox_ok k sb'" "sandbox_abs sb' = st"
    using with_sandbox_state_ok by blast
  then show ?thesis
    using assms Some that(2) by (simp add: move_sandbox_def get_sandbox_lookup)
qed

lemma move_container_cases:
  assumes "containers_wf r" "named k"
    and "\<And>s. cs_id (stamp s) = cs_id s" "\<And>s. cs_state (stamp s) = cs_state s"
  obtains "map_of (rt_containers r) k = None" "move_container e st stamp k r = Some r"
  | c c' where "map_of (rt_containers r) k = Some c" "container_ok k c'"
      "container_abs c' = (fst (container_abs c), st)"
      "move_container e st stamp k r = Some (add_container k c' r)"
proof (cases "map_of (rt_containers r) k")
  case None
  then show ?thesis
    using assms that(1) by (simp add: move_container_def get_container_lookup)
next
  case (Some c)
  then have "container_ok k c"
    using ctr.view_owns[OF assms(1)] by blast
  then obtain c' where "with_container_state st stamp c = Some c'" "container_ok k c'"
      "container_abs c' = (fst (container_abs c), st)"
    using with_container_state_ok assms(3,4) by blast
  then show ?thesis
    using assms Some that(2) by (simp add: move_container_def get_container_lookup)
qed

text \<open>The part of the runtime that only the queue and the simulation change.\<close>

definition queue_of ::
  "'cb runtime \<Rightarrow> int \<times> 64 word \<times> 'cb event list \<times> 'cb event list \<times> nat \<times> nat list" where
  "queue_of r = (rt_tick_rate r, rt_seq r, rt_events r, rt_running r, rt_tickets r, rt_closed r)"

lemma queue_frame [simp]:
  "queue_of (add_sandbox k sb r) = queue_of r" "queue_of (add_container k c r) = queue_of r"
  "queue_of (add_image k i r) = queue_of r" "queue_of (remove_sandbox k r) = queue_of r"
  "queue_of (remove_container k r) = queue_of r" "queue_of (remove_image k r) = queue_of r"
  by (simp_all add: queue_of_def add_sandbox_def add_container_def add_image_def
      remove_sandbox_def remove_container_def remove_image_def)

subsection \<open>The loop over the containers of a stopped sandbox\<close>

definition exited_if :: "string \<Rightarrow> string \<times> container_state \<Rightarrow> string \<times> container_state" where
  "exited_if sbid = (\<lambda>(pod, st). (pod, if pod = sbid then CONTAINER_EXITED else st))"

definition container_view :: "cri \<Rightarrow> string \<Rightarrow> (string \<times> container_state) option" where
  "container_view r k = map_option container_abs (map_of (rt_containers r) k)"

lemma container_view_add:
  "containers_wf r \<Longrightarrow> container_view (add_container k c r) = (container_view r)(k \<mapsto> container_abs c)"
  by (auto simp: container_view_def ctr.put_view)

text \<open>What one pass of the loop over the entries \<open>es\<close> of the table does.\<close>

definition children_exited ::
  "string \<Rightarrow> (string \<times> container) list \<Rightarrow> cri \<Rightarrow> cri \<Rightarrow> bool" where
  "children_exited sbid es r r' \<longleftrightarrow>
     containers_wf r' \<and> rt_sandboxes r' = rt_sandboxes r \<and> rt_images r' = rt_images r \<and>
     queue_of r' = queue_of r \<and>
     (\<forall>k. container_view r' k = (if k \<in> fst ` set es
            then map_option (exited_if sbid) (container_view r k) else container_view r k))"

lemma exit_children_loop:
  assumes "containers_wf r" and "distinct (map fst es)"
    and "\<And>k c. (k, c) \<in> set es \<Longrightarrow> map_of (rt_containers r) k = Some c"
  shows "\<exists>r'. exit_children e sbid n (map snd es) r = Some r' \<and> children_exited sbid es r r'"
  using assms
proof (induction es arbitrary: n r)
  case Nil
  then show ?case by (simp add: children_exited_def)
next
  case (Cons kc es)
  obtain k c where kc: "kc = (k, c)" by (cases kc)
  have mk: "map_of (rt_containers r) k = Some c"
    using Cons.prems(3) kc by simp
  then have ok: "named k" "container_ok k c"
    using ctr.view_owns[OF Cons.prems(1)] by blast+
  from ok(2) obtain p where p: "co_p c = Some p" "ct_id p = k"
    and view: "container_view r k = Some (ct_pod_sandbox_id p, ct_state p)"
    using mk by (auto simp: container_ok_def container_abs_def container_view_def split: option.splits)
  have fresh: "k \<notin> fst ` set es" and dist: "distinct (map fst es)"
    using Cons.prems(2) kc by auto
  show ?case
  proof (cases "ct_pod_sandbox_id p = sbid")
    case False
    obtain r' where r': "exit_children e sbid n (map snd es) r = Some r'" "children_exited sbid es r r'"
      using Cons.IH[OF Cons.prems(1) dist] Cons.prems(3) by force
    have "children_exited sbid (kc # es) r r'"
      using r'(2) False view fresh kc by (auto simp: children_exited_def exited_if_def)
    then show ?thesis
      using r'(1) False p kc by auto
  next
    case True
    obtain c' where c': "with_container_state CONTAINER_EXITED (stamp_finished (e_now e n)) c = Some c'"
      "container_ok k c'" "container_abs c' = (sbid, CONTAINER_EXITED)"
      using with_container_state_ok[OF ok(2), of "stamp_finished (e_now e n)"] p(1) True
      by (auto simp: container_abs_def)
    let ?r = "add_container k c' r"
    have wf: "containers_wf ?r"
      by (rule ctr.put_inv[OF Cons.prems(1) ok(1) c'(2)])
    have rest: "map_of (rt_containers ?r) j = Some d" if "(j, d) \<in> set es" for j d
    proof -
      have "j \<noteq> k" using that fresh by force
      then show ?thesis
        using that Cons.prems(3) by (simp add: ctr.put_view[OF Cons.prems(1)])
    qed
    obtain r' where r': "exit_children e sbid (n + 1) (map snd es) ?r = Some r'"
      "children_exited sbid es ?r r'"
      using Cons.IH[OF wf dist rest] by blast
    have "children_exited sbid (kc # es) r r'"
      using r'(2) True view fresh kc c'(3)
      by (auto simp: children_exited_def exited_if_def container_view_add[OF Cons.prems(1)])
    then show ?thesis
      using r'(1) True p c'(1) kc by auto
  qed
qed

lemma exit_children_all:
  assumes "containers_wf r"
  shows "\<exists>r'. exit_children e sbid n (list_containers lm rk None r) r = Some r' \<and>
    children_exited sbid (rt_containers r) r r'"
proof -
  let ?es = "gm_range rk (rt_containers r)"
  have wf: "gm_wf (rt_containers r)"
    using assms by (auto simp: containers_wf_def)
  have list: "list_containers lm rk None r = map snd ?es"
    by (simp add: list_containers_def container_match_def map_idI)
  have "mset (map fst ?es) = mset (map fst (rt_containers r))"
    by simp
  then have "distinct (map fst ?es)"
    using wf unfolding gm_wf_def by (metis mset_eq_imp_distinct_iff)
  moreover have "map_of (rt_containers r) k = Some c" if "(k, c) \<in> set ?es" for k c
    using that wf by (simp add: gm_wf_mem)
  ultimately show ?thesis
    using exit_children_loop[OF assms, of ?es] by (simp add: list children_exited_def)
qed

subsection \<open>The callbacks keep their promises\<close>

lemma service_eqI:
  assumes "\<And>k. sv_sandboxes s k = sv_sandboxes t k" "\<And>k. sv_containers s k = sv_containers t k"
    "\<And>k. sv_images s k = sv_images t k"
  shows "s = (t :: service)"
  using assms by (cases s, cases t) (auto simp: fun_eq_iff)

lemma service_of_container_view [simp]: "sv_containers (service_of r) = container_view r"
  by (simp add: service_of_def container_view_def fun_eq_iff)

lemma sv_parts [simp]:
  "sv_sandboxes (service_of r) k = map_option sandbox_abs (map_of (rt_sandboxes r) k)"
  "sv_images (service_of r) k = (map_of (rt_images r) k \<noteq> None)"
  by (simp_all add: service_of_def)

text \<open>What holds after any callback that ran on well-formed tables.\<close>

definition callback_done :: "callback \<Rightarrow> cri \<Rightarrow> cri \<Rightarrow> bool" where
  "callback_done cb r r' \<longleftrightarrow>
     runtime_wf r' \<and> queue_of r' = queue_of r \<and> service_of r' = promised cb (service_of r)"

lemma move_sandbox_done:
  assumes "runtime_wf r" "named k"
  shows "\<exists>r'. move_sandbox e st k r = Some r' \<and> runtime_wf r' \<and> queue_of r' = queue_of r \<and>
    rt_containers r' = rt_containers r \<and> rt_images r' = rt_images r \<and>
    sv_sandboxes (service_of r') =
      (sv_sandboxes (service_of r))(k := map_option (\<lambda>_. st) (sv_sandboxes (service_of r) k))"
proof -
  have wf: "sandboxes_wf r"
    using assms(1) by (simp add: runtime_wf_def)
  from wf assms(2) show ?thesis
  proof (rule move_sandbox_cases[where e = e and st = st])
    assume "map_of (rt_sandboxes r) k = None" "move_sandbox e st k r = Some r"
    then show ?thesis
      using assms(1) by (auto simp: service_of_def fun_eq_iff)
  next
    fix sb sb'
    assume *: "map_of (rt_sandboxes r) k = Some sb" "sandbox_ok k sb'" "sandbox_abs sb' = st"
      "move_sandbox e st k r = Some (add_sandbox k sb' r)"
    then show ?thesis
      using assms wf by (auto simp: runtime_wf_def service_of_def fun_eq_iff sbx.put_view sbx.put_inv)
  qed
qed

lemma move_container_done:
  assumes "runtime_wf r" "named k"
    and "\<And>s. cs_id (stamp s) = cs_id s" "\<And>s. cs_state (stamp s) = cs_state s"
  shows "\<exists>r'. move_container e st stamp k r = Some r' \<and> runtime_wf r' \<and> queue_of r' = queue_of r \<and>
    rt_sandboxes r' = rt_sandboxes r \<and> rt_images r' = rt_images r \<and>
    container_view r' = (container_view r)(k := map_option (\<lambda>(pod, _). (pod, st)) (container_view r k))"
proof -
  have wf: "containers_wf r"
    using assms(1) by (simp add: runtime_wf_def)
  from wf assms(2,3,4) show ?thesis
  proof (rule move_container_cases[where e = e and st = st])
    assume "map_of (rt_containers r) k = None" "move_container e st stamp k r = Some r"
    then show ?thesis
      using assms(1) by (auto simp: container_view_def fun_eq_iff)
  next
    fix c c'
    assume *: "map_of (rt_containers r) k = Some c" "container_ok k c'"
      "container_abs c' = (fst (container_abs c), st)"
      "move_container e st stamp k r = Some (add_container k c' r)"
    then show ?thesis
      using assms wf
      by (auto simp: runtime_wf_def container_view_def fun_eq_iff ctr.put_inv ctr.put_view
          split: prod.split)
  qed
qed

lemma callback_refines:
  assumes "runtime_wf r" "named_callback cb"
  shows "\<exists>r'. run_callback e cb r = Some r' \<and> callback_done cb r r'"
proof (cases cb)
  case (SandboxReady k)
  then show ?thesis
    using move_sandbox_done[OF assms(1), of k e SANDBOX_READY] assms(2)
    by (auto simp: callback_done_def service_of_def container_view_def intro!: service_eqI)
next
  case (SandboxStopped k)
  then obtain r1 where r1: "move_sandbox e SANDBOX_NOTREADY k r = Some r1" "runtime_wf r1"
    "queue_of r1 = queue_of r" "rt_containers r1 = rt_containers r" "rt_images r1 = rt_images r"
    "sv_sandboxes (service_of r1) =
      (sv_sandboxes (service_of r))(k := map_option (\<lambda>_. SANDBOX_NOTREADY) (sv_sandboxes (service_of r) k))"
    using move_sandbox_done[OF assms(1), of k e SANDBOX_NOTREADY] assms(2) by auto
  have "containers_wf r1"
    using r1(2) by (simp add: runtime_wf_def)
  from exit_children_all[OF this, of e k 0 "e_match e" "e_rank e 1"]
  obtain r' where r': "stop_sandbox e k r = Some r'" "children_exited k (rt_containers r1) r1 r'"
    using r1(1) by (auto simp: stop_sandbox_def)
  have view: "container_view r' c = map_option (exited_if k) (container_view r c)" for c
    using r'(2) r1(4)
    by (auto simp: children_exited_def container_view_def map_of_eq_None_iff[symmetric])
  have "runtime_wf r'" "queue_of r' = queue_of r"
    using r'(2) r1(2,3) by (simp_all add: children_exited_def runtime_wf_def sandboxes_wf_def images_wf_def)
  moreover have "service_of r' = promised cb (service_of r)"
  proof -
    have "rt_sandboxes r' = rt_sandboxes r1" "rt_images r' = rt_images r"
      using r'(2) r1(5) by (simp_all add: children_exited_def)
    then have "sv_sandboxes (service_of r') = sv_sandboxes (service_of r1)"
      "sv_images (service_of r') = sv_images (service_of r)"
      by (simp_all add: service_of_def)
    then show ?thesis
      using SandboxStopped r1(6) view by (intro service_eqI) (simp_all add: exited_if_def)
  qed
  ultimately have "callback_done cb r r'"
    by (simp add: callback_done_def)
  then show ?thesis
    using SandboxStopped r'(1) by auto
next
  case (ContainerStarted k)
  then show ?thesis
    using move_container_done[OF assms(1), of k "stamp_started (e_now e 0)" e CONTAINER_RUNNING] assms(2)
    by (auto simp: callback_done_def sv_parts intro!: service_eqI)
next
  case (ContainerStopped k)
  then show ?thesis
    using move_container_done[OF assms(1), of k "stamp_finished (e_now e 0)" e CONTAINER_EXITED] assms(2)
    by (auto simp: callback_done_def sv_parts intro!: service_eqI)
next
  case (ImagePulled i)
  then show ?thesis
    using assms
    by (cases i) (auto simp: callback_done_def pulled_image_def runtime_wf_def img.put_inv img.put_view
        named_def image_ok_def new_image_def service_of_def intro!: service_eqI)
qed

end
