(* ===== verification/Cri_System.thy ===== *)
theory Cri_System
  imports Cri_Refinement
begin

section \<open>The running service: clients, the mutex and the simulation\<close>

text \<open>
  The CRI service as it runs: any number of RPCs (numbered by \<open>nat\<close>), the mutex \<open>b.mu\<close> they take,
  and the simulation goroutine. \<open>serve\<close> dispatches a request to its handler. A handler that
  calls \<open>Enqueue\<close> keeps the mutex while it waits, because the deferred \<open>Unlock\<close> runs only when it
  returns. Handlers that only read are not steps: they change nothing.
\<close>

datatype request =
    RunPodSandbox run_pod_request
  | StopPodSandbox string
  | RemovePodSandbox string
  | CreateContainer create_container_request
  | StartContainer string
  | StopContainer string
  | RemoveContainer string
  | PullImage "image_spec option"
  | RemoveImage "image_spec option"

datatype answer =
    SandboxAnswer "string rpc"
  | ContainerAnswer "string rpc"
  | EmptyAnswer "unit rpc"
  | PullAnswer pull_result

datatype outcome = Done answer | Blocked nat answer

fun outcome_of :: "('r rpc \<Rightarrow> answer) \<Rightarrow> cri \<times> 'r flow \<Rightarrow> cri \<times> outcome" where
  "outcome_of f (r, Now x) = (r, Done (f x))"
| "outcome_of f (r, Await d x) = (r, Blocked d (f (Reply x)))"

fun pull_answer :: "string rpc \<Rightarrow> answer" where
  "pull_answer (Reply ref) = PullAnswer (Pulled ref)"
| "pull_answer _ = PullAnswer ContextError"

fun serve :: "env \<Rightarrow> request \<Rightarrow> cri \<Rightarrow> cri \<times> outcome" where
  "serve e (RunPodSandbox q) r = outcome_of SandboxAnswer (run_pod_sandbox e q r)"
| "serve e (StopPodSandbox k) r = outcome_of EmptyAnswer (stop_pod_sandbox e k r)"
| "serve e (RemovePodSandbox k) r = (case remove_pod_sandbox e k r of (r', x) \<Rightarrow> (r', Done (EmptyAnswer x)))"
| "serve e (CreateContainer q) r = (case create_container e q r of (r', x) \<Rightarrow> (r', Done (ContainerAnswer x)))"
| "serve e (StartContainer k) r = outcome_of EmptyAnswer (start_container e k r)"
| "serve e (StopContainer k) r = outcome_of EmptyAnswer (stop_container e k r)"
| "serve e (RemoveContainer k) r = (case remove_container_rpc e k r of (r', x) \<Rightarrow> (r', Done (EmptyAnswer x)))"
| "serve e (PullImage i) r = outcome_of pull_answer (pull_image e i r)"
| "serve e (RemoveImage i) r = (case remove_image_rpc e i r of (r', x) \<Rightarrow> (r', Done (EmptyAnswer x)))"

text \<open>
  Where an RPC is: waiting in \<open>Enqueue\<close> for its ticket, or, for \<open>PullImage\<close>, in the select behind
  \<open>Unlock\<close>, or taking the mutex for the last time, or finished.
\<close>

datatype phase =
    Waiting nat request answer
  | Selecting string
  | Relocking pull_result
  | Finished answer

record sys =
  sy_rt :: cri
  sy_mu :: "nat option"
  sy_calls :: "nat \<Rightarrow> phase option"
  sy_crashed :: bool

definition init_sys :: sys where
  "init_sys = \<lparr>sy_rt = new_cri, sy_mu = None, sy_calls = (\<lambda>_. None), sy_crashed = False\<rparr>"

fun is_pull :: "request \<Rightarrow> bool" where
  "is_pull (PullImage i) = True"
| "is_pull _ = False"

text \<open>The steps; \<open>adm\<close> says which requests clients send.\<close>

inductive sys_step :: "(request \<Rightarrow> bool) \<Rightarrow> sys \<Rightarrow> sys \<Rightarrow> bool" for adm where
  answer: "\<lbrakk>\<not> sy_crashed s; sy_mu s = None; sy_calls s c = None; adm q;
      serve e q (sy_rt s) = (r', Done a)\<rbrakk> \<Longrightarrow>
    sys_step adm s (s\<lparr>sy_rt := r', sy_calls := (sy_calls s)(c \<mapsto> Finished a)\<rparr>)"
| block: "\<lbrakk>\<not> sy_crashed s; sy_mu s = None; sy_calls s c = None; adm q;
      serve e q (sy_rt s) = (r', Blocked d a)\<rbrakk> \<Longrightarrow>
    sys_step adm s
      (s\<lparr>sy_rt := r', sy_mu := Some c, sy_calls := (sy_calls s)(c \<mapsto> Waiting d q a)\<rparr>)"
| wake: "\<lbrakk>\<not> sy_crashed s; sy_calls s c = Some (Waiting d q a); d \<in> set (rt_closed (sy_rt s));
      \<not> is_pull q\<rbrakk> \<Longrightarrow>
    sys_step adm s (s\<lparr>sy_mu := None, sy_calls := (sy_calls s)(c \<mapsto> Finished a)\<rparr>)"
| wake_pull: "\<lbrakk>\<not> sy_crashed s; sy_calls s c = Some (Waiting d q (PullAnswer (Pulled ref)));
      d \<in> set (rt_closed (sy_rt s)); is_pull q\<rbrakk> \<Longrightarrow>
    sys_step adm s (s\<lparr>sy_mu := None, sy_calls := (sy_calls s)(c \<mapsto> Selecting ref)\<rparr>)"
| select: "\<lbrakk>\<not> sy_crashed s; sy_calls s c = Some (Selecting ref)\<rbrakk> \<Longrightarrow>
    sys_step adm s (s\<lparr>sy_calls := (sy_calls s)(c \<mapsto> Relocking (pull_image_resume b ref))\<rparr>)"
| relock: "\<lbrakk>\<not> sy_crashed s; sy_calls s c = Some (Relocking p); sy_mu s = None\<rbrakk> \<Longrightarrow>
    sys_step adm s (s\<lparr>sy_calls := (sy_calls s)(c \<mapsto> Finished (PullAnswer p))\<rparr>)"
| tick: "\<lbrakk>\<not> sy_crashed s; simulated (sy_rt s); rt_running (sy_rt s) = []\<rbrakk> \<Longrightarrow>
    sys_step adm s (s\<lparr>sy_rt := sim_tick (sy_rt s)\<rparr>)"
| run: "\<lbrakk>\<not> sy_crashed s; rt_running (sy_rt s) \<noteq> []; sim_run (run_callback e) (sy_rt s) = Some r'\<rbrakk> \<Longrightarrow>
    sys_step adm s (s\<lparr>sy_rt := r'\<rparr>)"
| crash: "\<lbrakk>\<not> sy_crashed s; rt_running (sy_rt s) \<noteq> []; sim_run (run_callback e) (sy_rt s) = None\<rbrakk> \<Longrightarrow>
    sys_step adm s (s\<lparr>sy_crashed := True\<rparr>)"

inductive reach :: "(request \<Rightarrow> bool) \<Rightarrow> sys \<Rightarrow> bool" for adm where
  start: "reach adm init_sys"
| step: "reach adm s \<Longrightarrow> sys_step adm s s' \<Longrightarrow> reach adm s'"

subsection \<open>One event at a time\<close>

definition outstanding :: "cri \<Rightarrow> callback event list" where
  "outstanding r = rt_running r @ rt_events r"

text \<open>The callback an RPC that waits has put into the queue.\<close>

fun callback_of :: "request \<Rightarrow> answer \<Rightarrow> callback option" where
  "callback_of (RunPodSandbox q) (SandboxAnswer (Reply k)) = Some (SandboxReady k)"
| "callback_of (StopPodSandbox k) _ = Some (SandboxStopped k)"
| "callback_of (StartContainer k) _ = Some (ContainerStarted k)"
| "callback_of (StopContainer k) _ = Some (ContainerStopped k)"
| "callback_of (PullImage i) (PullAnswer (Pulled ref)) = Some (ImagePulled i)"
| "callback_of _ _ = None"

definition waiting :: "phase option \<Rightarrow> bool" where
  "waiting p = (case p of Some (Waiting d q a) \<Rightarrow> True | _ \<Rightarrow> False)"

text \<open>
  The mutex is held exactly while an RPC waits in \<open>Enqueue\<close>, by that RPC, and the queue holds
  nothing but its event, until the event has run and its ticket is closed.
\<close>

definition holder_ok :: "sys \<Rightarrow> nat \<Rightarrow> nat \<Rightarrow> request \<Rightarrow> answer \<Rightarrow> bool" where
  "holder_ok s c d q a \<longleftrightarrow>
     sy_calls s c = Some (Waiting d q a) \<and> d < rt_tickets (sy_rt s) \<and>
     (\<forall>c'. waiting (sy_calls s c') \<longrightarrow> c' = c) \<and>
     (\<exists>cb. callback_of q a = Some cb \<and>
        (if d \<in> set (rt_closed (sy_rt s)) then outstanding (sy_rt s) = []
         else \<exists>n. outstanding (sy_rt s) = [\<lparr>ev_sequence = n, ev_callback = cb, ev_done = d\<rparr>]))"

definition mutex_inv :: "sys \<Rightarrow> bool" where
  "mutex_inv s \<longleftrightarrow>
     (\<forall>d \<in> set (rt_closed (sy_rt s)). d < rt_tickets (sy_rt s)) \<and>
     (case sy_mu s of
        None \<Rightarrow> outstanding (sy_rt s) = [] \<and> (\<forall>c. \<not> waiting (sy_calls s c))
      | Some c \<Rightarrow> \<exists>d q a. holder_ok s c d q a)"

subsection \<open>What a handler does to the queue\<close>

lemma enqueue_queue:
  "enqueue n cb r = (r', d) \<Longrightarrow>
     d = rt_tickets r \<and> rt_tickets r' = d + 1 \<and> rt_closed r' = rt_closed r \<and>
     rt_running r' = rt_running r \<and> rt_seq r' = rt_seq r \<and> rt_tick_rate r' = rt_tick_rate r \<and>
     rt_events r' = rt_events r @ [\<lparr>ev_sequence = rt_seq r + n, ev_callback = cb, ev_done = d\<rparr>] \<and>
     rt_sandboxes r' = rt_sandboxes r \<and> rt_containers r' = rt_containers r \<and> rt_images r' = rt_images r"
  by (auto simp: enqueue_def Let_def)

text \<open>What \<open>Enqueue\<close> adds to the queue of a runtime, and that the handler waits for it.\<close>

definition queued :: "callback \<Rightarrow> nat \<Rightarrow> cri \<Rightarrow> cri \<Rightarrow> bool" where
  "queued cb d r r' \<longleftrightarrow>
     d = rt_tickets r \<and> rt_tickets r' = d + 1 \<and> rt_closed r' = rt_closed r \<and>
     rt_running r' = rt_running r \<and> rt_seq r' = rt_seq r \<and> rt_tick_rate r' = rt_tick_rate r \<and>
     rt_events r' = rt_events r @ [\<lparr>ev_sequence = rt_seq r + 10, ev_callback = cb, ev_done = d\<rparr>]"

lemma enqueue_queued: "enqueue 10 cb r1 = (r', d) \<Longrightarrow> queue_of r1 = queue_of r \<Longrightarrow> queued cb d r r'"
  by (auto simp: queued_def queue_of_def dest!: enqueue_queue)

lemma enqueue_service: "enqueue n cb r = (r', d) \<Longrightarrow> service_of r' = service_of r \<and> runtime_wf r' = runtime_wf r"
  by (auto dest!: enqueue_queue simp: service_of_def runtime_wf_def sandboxes_wf_def containers_wf_def
      images_wf_def)

lemma serve_done_queue: "serve e q r = (r', Done a) \<Longrightarrow> queue_of r' = queue_of r"
  by (cases q)
    (auto simp: run_pod_sandbox_def stop_pod_sandbox_def remove_pod_sandbox_def create_container_def
      start_container_def stop_container_def remove_container_rpc_def pull_image_def
      remove_image_rpc_def Let_def split: prod.splits if_splits option.splits bool.splits)

lemma serve_blocked_queue:
  assumes "serve e q r = (r', Blocked d a)"
  shows "\<exists>cb. callback_of q a = Some cb \<and> queued cb d r r'"
  using assms
  by (cases q)
    (auto simp: run_pod_sandbox_def stop_pod_sandbox_def remove_pod_sandbox_def create_container_def
      start_container_def stop_container_def remove_container_rpc_def pull_image_def
      remove_image_rpc_def Let_def elim!: enqueue_queued
      split: prod.splits if_splits option.splits bool.splits)

lemma exit_children_queue: "exit_children e sbid n cs r = Some r' \<Longrightarrow> queue_of r' = queue_of r"
  by (induction e sbid n cs r rule: exit_children.induct) (auto split: option.splits if_splits)

lemma move_queue:
  "move_sandbox e st k r = Some r' \<Longrightarrow> queue_of r' = queue_of r"
  "move_container e st' stamp k r = Some r' \<Longrightarrow> queue_of r' = queue_of r"
  by (auto simp: move_sandbox_def move_container_def split: option.splits)

lemma run_callback_queue: "run_callback e cb r = Some r' \<Longrightarrow> queue_of r' = queue_of r"
  by (cases cb)
    (auto simp: stop_sandbox_def pulled_image_def bind_eq_Some_conv dest!: move_queue exit_children_queue)

subsection \<open>The mutex invariant holds in every reachable state\<close>

lemma sim_tick_outstanding:
  assumes "rt_running r = []" "outstanding r = [] \<or> (\<exists>ev. outstanding r = [ev])"
  shows "outstanding (sim_tick r) = outstanding r"
  using assms by (auto simp: outstanding_def sim_tick_def Let_def)

lemma sim_tick_queue [simp]:
  "rt_closed (sim_tick r) = rt_closed r" "rt_tickets (sim_tick r) = rt_tickets r"
  "rt_tick_rate (sim_tick r) = rt_tick_rate r" "rt_seq (sim_tick r) = rt_seq r + 1"
  "rt_sandboxes (sim_tick r) = rt_sandboxes r" "rt_containers (sim_tick r) = rt_containers r"
  "rt_images (sim_tick r) = rt_images r"
  by (simp_all add: sim_tick_def Let_def split: prod.split)

lemma sim_run_cases:
  assumes "sim_run (run_callback e) r = Some r'" "rt_running r \<noteq> []"
  obtains ev rest r1 where "rt_running r = ev # rest"
    "run_callback e (ev_callback ev) (r\<lparr>rt_running := rest\<rparr>) = Some r1" "r' = close_done (ev_done ev) r1"
    "rt_running r' = rest" "rt_events r' = rt_events r" "rt_tickets r' = rt_tickets r"
    "rt_closed r' = ev_done ev # rt_closed r" "rt_seq r' = rt_seq r"
    "rt_tick_rate r' = rt_tick_rate r"
proof -
  from assms obtain ev rest where ev: "rt_running r = ev # rest"
    by (cases "rt_running r") auto
  then obtain r1 where r1: "run_callback e (ev_callback ev) (r\<lparr>rt_running := rest\<rparr>) = Some r1"
    "r' = close_done (ev_done ev) r1"
    using assms(1) by auto
  show ?thesis
    using that[OF ev r1] run_callback_queue[OF r1(1)] r1(2) by (simp add: queue_of_def close_done_def)
qed

lemma waiting_simps [simp]:
  "\<not> waiting None" "waiting (Some (Waiting d q a))" "\<not> waiting (Some (Selecting ref))"
  "\<not> waiting (Some (Relocking p))" "\<not> waiting (Some (Finished x))"
  by (simp_all add: waiting_def)

lemma waitingE: "waiting p \<Longrightarrow> (\<And>d q a. p = Some (Waiting d q a) \<Longrightarrow> P) \<Longrightarrow> P"
  by (auto simp: waiting_def split: option.splits phase.splits)

text \<open>The RPC that waits holds the mutex.\<close>

lemma mutex_inv_holder:
  assumes "mutex_inv s" "sy_calls s c = Some (Waiting d q a)"
  shows "sy_mu s = Some c \<and> holder_ok s c d q a"
proof (cases "sy_mu s")
  case None
  then have "\<not> waiting (sy_calls s c)"
    using assms(1) by (simp add: mutex_inv_def)
  then show ?thesis
    using assms(2) by simp
next
  case (Some c0)
  then obtain d0 q0 a0 where h: "holder_ok s c0 d0 q0 a0"
    using assms(1) by (auto simp: mutex_inv_def)
  then have "c = c0"
    using assms(2) by (auto simp: holder_ok_def)
  with h assms(2) Some show ?thesis
    by (auto simp: holder_ok_def)
qed

lemma mutex_inv_init: "mutex_inv init_sys"
  by (simp add: mutex_inv_def init_sys_def new_cri_def new_runtime_def outstanding_def)

text \<open>Steps that leave the mutex, the waiting RPC and the queue alone.\<close>

lemma mutex_inv_frame:
  assumes "mutex_inv s" "sy_mu s' = sy_mu s"
    and "\<And>c. waiting (sy_calls s c) \<or> waiting (sy_calls s' c) \<Longrightarrow> sy_calls s' c = sy_calls s c"
    and "outstanding (sy_rt s') = outstanding (sy_rt s)"
    and "rt_tickets (sy_rt s') = rt_tickets (sy_rt s)" "rt_closed (sy_rt s') = rt_closed (sy_rt s)"
  shows "mutex_inv s'"
proof -
  have "waiting (sy_calls s' c) = waiting (sy_calls s c)" for c
    using assms(3)[of c] by auto
  moreover have "holder_ok s' c d q a" if "holder_ok s c d q a" for c d q a
    using that calculation assms(3)[of c] assms(4-6) by (auto simp: holder_ok_def)
  ultimately show ?thesis
    using assms(1,2,4-6) by (auto simp: mutex_inv_def split: option.splits) blast
qed

lemma mutex_inv_release:
  assumes "mutex_inv s" "sy_calls s c = Some (Waiting d q a)" "d \<in> set (rt_closed (sy_rt s))"
    and "\<not> waiting p"
  shows "mutex_inv (s\<lparr>sy_mu := None, sy_calls := (sy_calls s)(c := p)\<rparr>)"
  using mutex_inv_holder[OF assms(1,2)] assms by (auto simp: mutex_inv_def holder_ok_def)

lemma mutex_inv_step:
  assumes "sys_step adm s s'" "mutex_inv s"
  shows "mutex_inv s'"
  using assms
proof (induction rule: sys_step.induct)
  case (answer s c q e r' a)
  then have "queue_of r' = queue_of (sy_rt s)"
    using serve_done_queue by blast
  then show ?case
    using answer by (intro mutex_inv_frame[OF answer.prems]) (auto simp: queue_of_def outstanding_def)
next
  case (block s c q e r' d a)
  then obtain cb where "callback_of q a = Some cb" "queued cb d (sy_rt s) r'"
    using serve_blocked_queue by blast
  then show ?case
    using block by (force simp: mutex_inv_def holder_ok_def queued_def outstanding_def)
next
  case (wake s c d q a)
  then show ?case by (intro mutex_inv_release) auto
next
  case (wake_pull s c d q ref)
  then show ?case by (intro mutex_inv_release) auto
next
  case (select s c ref b)
  then show ?case by (intro mutex_inv_frame[OF select.prems]) (auto split: if_splits)
next
  case (relock s c p)
  then show ?case by (intro mutex_inv_frame[OF relock.prems]) (auto split: if_splits)
next
  case (tick s)
  have "outstanding (sim_tick (sy_rt s)) = outstanding (sy_rt s)"
    using tick by (intro sim_tick_outstanding)
      (auto simp: mutex_inv_def holder_ok_def split: option.splits if_splits)
  then show ?case
    by (intro mutex_inv_frame[OF tick.prems]) auto
next
  case (run s e r')
  from run(3,2) obtain ev rest where ev: "rt_running (sy_rt s) = ev # rest" "rt_running r' = rest"
    "rt_events r' = rt_events (sy_rt s)" "rt_tickets r' = rt_tickets (sy_rt s)"
    "rt_closed r' = ev_done ev # rt_closed (sy_rt s)"
    by (rule sim_run_cases)
  then obtain c d q a where c: "sy_mu s = Some c" "holder_ok s c d q a"
    using run.prems by (auto simp: mutex_inv_def outstanding_def split: option.splits)
  then have h: "holder_ok (s\<lparr>sy_rt := r'\<rparr>) c d q a" and "ev_done ev = d"
    using ev by (auto simp: holder_ok_def outstanding_def split: if_splits)
  moreover have "d < rt_tickets (sy_rt s)"
    using c(2) by (simp add: holder_ok_def)
  ultimately have "\<forall>d \<in> set (rt_closed r'). d < rt_tickets r'"
    using run.prems ev by (auto simp: mutex_inv_def)
  then show ?case
    using h c(1) by (auto simp: mutex_inv_def)
next
  case (crash s e)
  then show ?case by (intro mutex_inv_frame[OF crash.prems]) auto
qed

lemma reach_mutex_inv: "reach adm s \<Longrightarrow> mutex_inv s"
  by (induction rule: reach.induct) (auto intro: mutex_inv_init mutex_inv_step)

end
