(* ===== verification/Cri_Safety.thy ===== *)
theory Cri_Safety
  imports Cri_System
begin

section \<open>Safety and delivery of the CRI service\<close>

text \<open>
  The tables stay well formed, every container belongs to a sandbox that exists, no callback
  takes the process down, and an RPC that returns from \<open>Enqueue\<close> finds its transition done. All
  of it for clients that name the object of a delayed transition; the last section shows what
  the empty name does.
\<close>

fun well_named :: "request \<Rightarrow> bool" where
  "well_named (StopPodSandbox k) = named k"
| "well_named (StartContainer k) = named k"
| "well_named (StopContainer k) = named k"
| "well_named (PullImage i) = named (image_name_of i)"
| "well_named _ = True"

text \<open>Every container belongs to a sandbox in the table.\<close>

definition attached :: "service \<Rightarrow> bool" where
  "attached sv \<longleftrightarrow> (\<forall>k pod st. sv_containers sv k = Some (pod, st) \<longrightarrow> sv_sandboxes sv pod \<noteq> None)"

definition tables_ok :: "cri \<Rightarrow> bool" where
  "tables_ok r \<longleftrightarrow> runtime_wf r \<and> attached (service_of r)"

text \<open>A callback in the queue has its object; once it has run, the object is where it should be.\<close>

fun pending_ok :: "callback \<Rightarrow> service \<Rightarrow> bool" where
  "pending_ok (SandboxReady k) sv = (sv_sandboxes sv k = Some SANDBOX_NOTREADY)"
| "pending_ok (SandboxStopped k) sv = (sv_sandboxes sv k \<noteq> None)"
| "pending_ok (ContainerStarted k) sv = (sv_containers sv k \<noteq> None)"
| "pending_ok (ContainerStopped k) sv = (sv_containers sv k \<noteq> None)"
| "pending_ok (ImagePulled i) sv = True"

definition container_in :: "container_state \<Rightarrow> string \<Rightarrow> service \<Rightarrow> bool" where
  "container_in st k sv \<longleftrightarrow> map_option snd (sv_containers sv k) = Some st"

fun achieved :: "callback \<Rightarrow> service \<Rightarrow> bool" where
  "achieved (SandboxReady k) sv = (sv_sandboxes sv k = Some SANDBOX_READY)"
| "achieved (SandboxStopped k) sv =
     (sv_sandboxes sv k = Some SANDBOX_NOTREADY \<and>
      (\<forall>c pod st. sv_containers sv c = Some (pod, st) \<longrightarrow> pod = k \<longrightarrow> st = CONTAINER_EXITED))"
| "achieved (ContainerStarted k) sv = container_in CONTAINER_RUNNING k sv"
| "achieved (ContainerStopped k) sv = container_in CONTAINER_EXITED k sv"
| "achieved (ImagePulled i) sv = sv_images sv (image_name_of i)"

lemma achieved_promised: "pending_ok cb sv \<Longrightarrow> achieved cb (promised cb sv)"
  by (cases cb) (auto simp: container_in_def split: if_splits)

lemma attached_promised: "attached sv \<Longrightarrow> attached (promised cb sv)"
  by (cases cb) (fastforce simp: attached_def split: if_splits)+

subsection \<open>What the handlers do to the tables\<close>

lemma named_uniq_id [simp]: "named (uniq_id xs t)"
proof -
  have "length (join_with ''-'' (xs @ [format_clock t])) \<ge> length (format_clock t)" for xs
    by (induction xs) (auto simp: join_with_Cons)
  then have "length (uniq_id xs t) \<ge> 13"
    by (metis uniq_id_def length_format_clock)
  then show ?thesis
    by (auto simp: named_def)
qed

lemma new_sandbox_ok:
  "sandbox_ok k (new_sandbox (Some (new_pod_sandbox e q k)) (Some (status_of_pod_sandbox (new_pod_sandbox e q k))))"
  by (simp add: sandbox_ok_def new_sandbox_def new_pod_sandbox_def status_of_pod_sandbox_def)

lemma new_container_ok:
  "container_ok k (new_container (Some (new_container_msg e q k i))
     (Some (status_of_container q i (new_container_msg e q k i))))"
  by (simp add: container_ok_def new_container_def new_container_msg_def status_of_container_def)

lemma service_add_sandbox:
  "sandboxes_wf r \<Longrightarrow> service_of (add_sandbox k sb r) =
     (service_of r)\<lparr>sv_sandboxes := (sv_sandboxes (service_of r))(k \<mapsto> sandbox_abs sb)\<rparr>"
  by (auto simp: service_of_def sbx.put_view fun_eq_iff)

lemma service_remove_sandbox:
  "sandboxes_wf r \<Longrightarrow> service_of (remove_sandbox k r) =
     (service_of r)\<lparr>sv_sandboxes := (sv_sandboxes (service_of r))(k := None)\<rparr>"
  by (auto simp: service_of_def sbx.del_view fun_eq_iff)

lemma service_add_container:
  "containers_wf r \<Longrightarrow> service_of (add_container k c r) =
     (service_of r)\<lparr>sv_containers := (sv_containers (service_of r))(k \<mapsto> container_abs c)\<rparr>"
  by (auto simp: service_of_def ctr.put_view fun_eq_iff container_view_def)

lemma service_remove_container:
  "containers_wf r \<Longrightarrow> service_of (remove_container k r) =
     (service_of r)\<lparr>sv_containers := (sv_containers (service_of r))(k := None)\<rparr>"
  by (auto simp: service_of_def ctr.del_view fun_eq_iff container_view_def)

lemma service_remove_image:
  "images_wf r \<Longrightarrow> service_of (remove_image k r) =
     (service_of r)\<lparr>sv_images := (sv_images (service_of r))(k := False)\<rparr>"
  by (auto simp: service_of_def img.del_view fun_eq_iff)

lemmas service_updates = service_add_sandbox service_remove_sandbox service_add_container
  service_remove_container service_remove_image

text \<open>The loop of \<open>RemovePodSandbox\<close> finds a container of the sandbox exactly when there is one.\<close>

lemma has_children_iff:
  assumes "\<forall>c \<in> set cs. co_p c \<noteq> None"
  shows "has_children k cs = Some (\<exists>c \<in> set cs. fst (container_abs c) = k)"
  using assms by (induction cs) (auto simp: container_abs_def)

lemma has_children_service:
  assumes "containers_wf r"
  shows "has_children k (list_containers lm rk None r) =
    Some (\<exists>c st. sv_containers (service_of r) c = Some (k, st))"
proof -
  have wf: "table_wf named container_ok (rt_containers r)"
    using assms by (simp add: containers_wf_def)
  have cs: "set (list_containers lm rk None r) = snd ` set (rt_containers r)"
    by (auto simp: list_containers_def container_match_def)
  have p: "\<forall>c \<in> set (list_containers lm rk None r). co_p c \<noteq> None"
    using wf by (auto simp: cs container_ok_def dest!: table_wf_mem split: option.splits)
  have "(\<exists>c \<in> snd ` set (rt_containers r). fst (container_abs c) = k) \<longleftrightarrow>
    (\<exists>c st. sv_containers (service_of r) c = Some (k, st))"
  proof safe
    fix j c assume "(j, c) \<in> set (rt_containers r)" "k = fst (container_abs (snd (j, c)))"
    then show "\<exists>c' st. sv_containers (service_of r) c' = Some (fst (container_abs (snd (j, c))), st)"
      using wf by (auto simp: container_view_def gm_wf_mem table_wf_gm_wf intro!: exI[of _ j]
          intro: prod.collapse[symmetric])
  next
    fix j st assume "sv_containers (service_of r) j = Some (k, st)"
    then obtain c where "map_of (rt_containers r) j = Some c" "container_abs c = (k, st)"
      by (auto simp: container_view_def)
    then show "\<exists>c \<in> snd ` set (rt_containers r). fst (container_abs c) = k"
      by (force dest: map_of_SomeD)
  qed
  then show ?thesis
    using has_children_iff[OF p] cs by simp
qed

lemma enqueue_tables:
  assumes "enqueue n cb r = (r', d)"
  shows "tables_ok r' = tables_ok r" "service_of r' = service_of r"
  using enqueue_service[OF assms] by (auto simp: tables_ok_def)

lemma add_sandbox_tables:
  assumes "tables_ok r" "named k" "sandbox_ok k sb"
  shows "tables_ok (add_sandbox k sb r)"
  using assms by (auto simp: tables_ok_def runtime_wf_def sbx.put_inv service_add_sandbox attached_def)

lemma add_container_tables:
  assumes "tables_ok r" "named k" "container_ok k c"
    and "sv_sandboxes (service_of r) (fst (container_abs c)) \<noteq> None"
  shows "tables_ok (add_container k c r)"
  using assms
  by (auto simp: tables_ok_def runtime_wf_def ctr.put_inv service_add_container attached_def
      split: if_splits)

lemma run_pod_sandbox_tables:
  assumes "tables_ok r" "run_pod_sandbox e q r = (r', Await d k)"
  shows "tables_ok r'" "named k" "sv_sandboxes (service_of r') k = Some SANDBOX_NOTREADY"
proof -
  let ?np = "new_pod_sandbox e q k"
  let ?r1 = "add_sandbox k (new_sandbox (Some ?np) (Some (status_of_pod_sandbox ?np))) r"
  from assms(2) have k: "named k" and enq: "enqueue 10 (SandboxReady k) ?r1 = (r', d)"
    by (auto simp: run_pod_sandbox_def Let_def split: if_splits prod.splits)
  have "tables_ok ?r1"
    by (rule add_sandbox_tables[OF assms(1) k new_sandbox_ok])
  moreover have "sv_sandboxes (service_of ?r1) k = Some SANDBOX_NOTREADY"
    using assms(1) by (simp add: tables_ok_def runtime_wf_def sbx.put_view sandbox_abs_def
        new_sandbox_def new_pod_sandbox_def)
  ultimately show "tables_ok r'" "named k" "sv_sandboxes (service_of r') k = Some SANDBOX_NOTREADY"
    using enqueue_tables[OF enq] k by auto
qed

lemma run_pod_sandbox_now: "run_pod_sandbox e q r = (r', Now x) \<Longrightarrow> r' = r"
  by (auto simp: run_pod_sandbox_def Let_def split: if_splits prod.splits)

lemma remove_pod_sandbox_tables:
  assumes "tables_ok r" "remove_pod_sandbox e k r = (r', x)"
  shows "tables_ok r'"
proof -
  have wf: "sandboxes_wf r" "containers_wf r" "images_wf r" "attached (service_of r)"
    using assms(1) by (auto simp: tables_ok_def runtime_wf_def)
  obtain b where children: "has_children k (list_containers (e_match e) (e_rank e 1) None r) = Some b"
    and b: "b \<longleftrightarrow> (\<exists>c st. sv_containers (service_of r) c = Some (k, st))"
    using has_children_service[OF wf(2)] by blast
  from assms(2) consider "r' = r"
    | "\<not> (\<exists>c st. sv_containers (service_of r) c = Some (k, st))" "r' = remove_sandbox k r"
    unfolding remove_pod_sandbox_def children b[symmetric] by (cases b) (auto split: if_splits)
  then show ?thesis
  proof cases
    case 1
    then show ?thesis using assms(1) by simp
  next
    case 2
    then show ?thesis
      using wf by (auto simp: tables_ok_def runtime_wf_def sbx.del_inv service_remove_sandbox attached_def)
  qed
qed

lemma create_container_tables:
  assumes "tables_ok r" "create_container e q r = (r', x)"
  shows "tables_ok r'"
proof -
  have wf: "sandboxes_wf r" "containers_wf r" "images_wf r" "attached (service_of r)"
    using assms(1) by (auto simp: tables_ok_def runtime_wf_def)
  let ?k = "uniq_id [''container'', cr_pod_sandbox_id q,
    opt_list cm_name (Option.bind (cr_config q) cc_metadata)] (e_now e 0)"
  from assms(2) consider "r' = r"
    | i where "cr_pod_sandbox_id q \<noteq> []"
      "get_sandbox (e_match e) (e_rank e 0) (cr_pod_sandbox_id q) r \<noteq> None"
      "r' = add_container ?k (new_container (Some (new_container_msg e q ?k i))
         (Some (status_of_container q i (new_container_msg e q ?k i)))) r"
    by (auto simp: create_container_def Let_def split: if_splits option.splits)
  then show ?thesis
  proof cases
    case 1
    then show ?thesis using assms(1) by simp
  next
    case 2
    have "sv_sandboxes (service_of r) (cr_pod_sandbox_id q) \<noteq> None"
      using 2(1,2) wf(1) by (simp add: get_sandbox_lookup named_def)
    then show ?thesis
      unfolding 2(3) by (intro add_container_tables[OF assms(1) named_uniq_id new_container_ok])
        (simp add: container_abs_def new_container_def new_container_msg_def)
  qed
qed

lemma remove_container_tables:
  "tables_ok r \<Longrightarrow> tables_ok (remove_container k r)"
  by (auto simp: tables_ok_def runtime_wf_def ctr.del_inv service_remove_container attached_def
      split: if_splits)

lemma remove_image_tables:
  "tables_ok r \<Longrightarrow> tables_ok (remove_image k r)"
  by (auto simp: tables_ok_def runtime_wf_def img.del_inv service_remove_image attached_def)

lemma serve_done_tables:
  assumes "tables_ok r" "serve e q r = (r', Done a)"
  shows "tables_ok r'"
proof (cases q)
  case (RunPodSandbox x1)
  then show ?thesis
    using assms by (cases "run_pod_sandbox e x1 r"; cases "snd (run_pod_sandbox e x1 r)")
      (auto dest: run_pod_sandbox_now)
next
  case (RemovePodSandbox k)
  then show ?thesis
    using assms remove_pod_sandbox_tables by (auto split: prod.splits)
next
  case (CreateContainer x4)
  then show ?thesis
    using assms create_container_tables by (auto split: prod.splits)
qed (use assms in \<open>auto simp: stop_pod_sandbox_def start_container_def stop_container_def
      remove_container_rpc_def pull_image_def remove_image_rpc_def Let_def remove_container_tables
      remove_image_tables split: if_splits prod.splits\<close>)

lemma serve_blocked_tables:
  assumes "tables_ok r" "well_named q" "serve e q r = (r', Blocked d a)"
  shows "tables_ok r' \<and> (\<exists>cb. callback_of q a = Some cb \<and> named_callback cb \<and> pending_ok cb (service_of r'))"
proof -
  have wf: "sandboxes_wf r" "containers_wf r" "attached (service_of r)"
    using assms(1) by (auto simp: tables_ok_def runtime_wf_def)
  show ?thesis
  proof (cases q)
    case (RunPodSandbox x)
    then obtain k where "run_pod_sandbox e x r = (r', Await d k)" "a = SandboxAnswer (Reply k)"
      using assms(3) by (cases "run_pod_sandbox e x r"; cases "snd (run_pod_sandbox e x r)") auto
    then show ?thesis
      using run_pod_sandbox_tables[OF assms(1)] RunPodSandbox by simp
  next
    case (StopPodSandbox k)
    then have "get_sandbox (e_match e) (e_rank e 0) k r \<noteq> None"
      "enqueue 10 (SandboxStopped k) r = (r', d)"
      using assms(3) by (auto simp: stop_pod_sandbox_def Let_def split: if_splits prod.splits)
    then show ?thesis
      using StopPodSandbox assms wf enqueue_tables[of 10 "SandboxStopped k" r r' d]
      by (auto simp: get_sandbox_lookup)
  next
    case (StartContainer k)
    then have "get_container (e_match e) (e_rank e 0) k r \<noteq> None"
      "enqueue 10 (ContainerStarted k) r = (r', d)"
      using assms(3) by (auto simp: start_container_def Let_def split: if_splits prod.splits)
    then show ?thesis
      using StartContainer assms wf enqueue_tables[of 10 "ContainerStarted k" r r' d]
      by (auto simp: get_container_lookup container_view_def)
  next
    case (StopContainer k)
    then have "get_container (e_match e) (e_rank e 0) k r \<noteq> None"
      "enqueue 10 (ContainerStopped k) r = (r', d)"
      using assms(3) by (auto simp: stop_container_def Let_def split: if_splits prod.splits)
    then show ?thesis
      using StopContainer assms wf enqueue_tables[of 10 "ContainerStopped k" r r' d]
      by (auto simp: get_container_lookup container_view_def)
  next
    case (PullImage i)
    then have "enqueue 10 (ImagePulled i) r = (r', d)" "a = PullAnswer (Pulled (image_name_of i))"
      using assms(3) by (auto simp: pull_image_def Let_def split: prod.splits)
    then show ?thesis
      using PullImage assms enqueue_tables[of 10 "ImagePulled i" r r' d] by auto
  qed (use assms(3) in \<open>auto split: prod.splits\<close>)
qed

subsection \<open>The invariant of the running service\<close>

definition promise_kept :: "sys \<Rightarrow> nat \<Rightarrow> request \<Rightarrow> answer \<Rightarrow> bool" where
  "promise_kept s d q a \<longleftrightarrow>
     (\<exists>cb. callback_of q a = Some cb \<and> named_callback cb \<and>
        (if d \<in> set (rt_closed (sy_rt s)) then achieved cb (service_of (sy_rt s))
         else pending_ok cb (service_of (sy_rt s))))"

definition service_inv :: "sys \<Rightarrow> bool" where
  "service_inv s \<longleftrightarrow> mutex_inv s \<and> \<not> sy_crashed s \<and> tables_ok (sy_rt s) \<and>
     (\<forall>c d q a. sy_calls s c = Some (Waiting d q a) \<longrightarrow> promise_kept s d q a)"

lemma tables_ok_new: "tables_ok new_cri"
  by (simp add: tables_ok_def new_cri_def new_runtime_def runtime_wf_def sandboxes_wf_def
      containers_wf_def images_wf_def attached_def container_view_def)

lemma service_inv_init: "service_inv init_sys"
  using mutex_inv_init tables_ok_new by (simp add: service_inv_def init_sys_def)

lemma not_waiting_free: "mutex_inv s \<Longrightarrow> sy_mu s = None \<Longrightarrow> sy_calls s c \<noteq> Some (Waiting d q a)"
  by (auto dest: mutex_inv_holder)

lemma run_callback_step:
  assumes inv: "service_inv s" and run: "rt_running (sy_rt s) = ev # rest"
  obtains r1 c d q a where
    "run_callback e (ev_callback ev) ((sy_rt s)\<lparr>rt_running := rest\<rparr>) = Some r1"
    "callback_done (ev_callback ev) ((sy_rt s)\<lparr>rt_running := rest\<rparr>) r1"
    "holder_ok s c d q a" "ev_done ev = d" "callback_of q a = Some (ev_callback ev)"
    "sy_mu s = Some c" "pending_ok (ev_callback ev) (service_of (sy_rt s))"
proof -
  have m: "mutex_inv s" using inv by (simp add: service_inv_def)
  with run obtain c d q a where h: "sy_mu s = Some c" "holder_ok s c d q a"
    by (auto simp: mutex_inv_def outstanding_def split: option.splits)
  then obtain cb where cb: "callback_of q a = Some cb" "ev_done ev = d" "ev_callback ev = cb"
    "d \<notin> set (rt_closed (sy_rt s))"
    using run by (auto simp: holder_ok_def outstanding_def split: if_splits)
  have "promise_kept s d q a"
    using inv h(2) by (auto simp: service_inv_def holder_ok_def)
  then have p: "named_callback cb" "pending_ok cb (service_of (sy_rt s))"
    using cb by (auto simp: promise_kept_def)
  have "runtime_wf ((sy_rt s)\<lparr>rt_running := rest\<rparr>)"
    using inv by (auto simp: service_inv_def tables_ok_def runtime_wf_def sandboxes_wf_def
        containers_wf_def images_wf_def)
  from callback_refines[OF this p(1), of e] show ?thesis
    using that h cb p(2) by blast
qed

lemma service_of_running [simp]: "service_of (r\<lparr>rt_running := x\<rparr>) = service_of r"
  by (simp add: service_of_def)

lemma service_of_close [simp]: "service_of (close_done d r) = service_of r"
  by (simp add: service_of_def close_done_def)

lemma runtime_wf_close [simp]: "runtime_wf (close_done d r) = runtime_wf r"
  by (simp add: runtime_wf_def sandboxes_wf_def containers_wf_def images_wf_def close_done_def)

lemma sim_tick_tables [simp]:
  "service_of (sim_tick r) = service_of r" "runtime_wf (sim_tick r) = runtime_wf r"
  by (simp_all add: service_of_def runtime_wf_def sandboxes_wf_def containers_wf_def images_wf_def)

text \<open>Steps after which the RPC that waits, if any, is one that waited before, with the same tables.\<close>

lemma promise_kept_named:
  "promise_kept s d q a \<Longrightarrow> callback_of q a = Some cb \<Longrightarrow> named_callback cb"
  by (auto simp: promise_kept_def)

lemma service_inv_frame:
  assumes "service_inv s" "mutex_inv s'" "\<not> sy_crashed s'"
    and "\<And>c. waiting (sy_calls s' c) \<Longrightarrow> sy_calls s' c = sy_calls s c"
    and "rt_closed (sy_rt s') = rt_closed (sy_rt s)" "service_of (sy_rt s') = service_of (sy_rt s)"
    and "runtime_wf (sy_rt s') = runtime_wf (sy_rt s)"
  shows "service_inv s'"
proof -
  have "promise_kept s' d q a" if "sy_calls s' c = Some (Waiting d q a)" for c d q a
  proof -
    have "sy_calls s c = Some (Waiting d q a)"
      using assms(4)[of c] that by simp
    then have "promise_kept s d q a"
      using assms(1) by (simp add: service_inv_def)
    then show ?thesis
      unfolding promise_kept_def assms(5,6) .
  qed
  then show ?thesis
    using assms by (auto simp: service_inv_def tables_ok_def)
qed

lemma service_inv_step:
  assumes "sys_step adm s s'" "service_inv s" "\<And>q. adm q \<Longrightarrow> well_named q"
  shows "service_inv s'"
proof -
  have m: "mutex_inv s" and m': "mutex_inv s'"
    using assms(1,2) by (auto simp: service_inv_def intro: mutex_inv_step)
  from assms(1) show ?thesis
  proof cases
    case (answer c q e r' a)
    have "tables_ok r'"
      using serve_done_tables answer(6) assms(2) by (auto simp: service_inv_def)
    then show ?thesis
      using m' answer not_waiting_free[OF m] by (auto simp: service_inv_def split: if_splits)
  next
    case (block c q e r' d a)
    have t: "tables_ok r'" "\<exists>cb. callback_of q a = Some cb \<and> named_callback cb \<and>
        pending_ok cb (service_of r')"
      using serve_blocked_tables[of "sy_rt s" q e r' d a] block assms(2,3)
      by (auto simp: service_inv_def)
    obtain cb where "queued cb d (sy_rt s) r'"
      using serve_blocked_queue block by blast
    then have "d \<notin> set (rt_closed r')"
      using m by (auto simp: mutex_inv_def queued_def)
    then show ?thesis
      using m' block t not_waiting_free[OF m]
      by (auto simp: service_inv_def promise_kept_def split: if_splits)
  next
    case (wake c d q a)
    then show ?thesis by (intro service_inv_frame[OF assms(2) m']) (auto split: if_splits)
  next
    case (wake_pull c d q ref)
    then show ?thesis by (intro service_inv_frame[OF assms(2) m']) (auto split: if_splits)
  next
    case (select c ref b)
    then show ?thesis by (intro service_inv_frame[OF assms(2) m']) (auto split: if_splits)
  next
    case (relock c p)
    then show ?thesis by (intro service_inv_frame[OF assms(2) m']) (auto split: if_splits)
  next
    case tick
    then show ?thesis by (intro service_inv_frame[OF assms(2) m']) auto
  next
    case (run e r')
    then obtain ev rest where er: "rt_running (sy_rt s) = ev # rest"
      by (cases "rt_running (sy_rt s)") auto
    from run_callback_step[OF assms(2) er, of e] obtain r1 c d q a where r1:
      "run_callback e (ev_callback ev) ((sy_rt s)\<lparr>rt_running := rest\<rparr>) = Some r1"
      "callback_done (ev_callback ev) ((sy_rt s)\<lparr>rt_running := rest\<rparr>) r1"
      "holder_ok s c d q a" "ev_done ev = d" "callback_of q a = Some (ev_callback ev)"
      "pending_ok (ev_callback ev) (service_of (sy_rt s))" by metis
    have r': "r' = close_done d r1"
      using run er r1(1,4) by simp
    have sv: "service_of r' = promised (ev_callback ev) (service_of (sy_rt s))"
      "runtime_wf r'"
      using r1(2) r' by (simp_all add: callback_done_def)
    have cl: "rt_closed r' = d # rt_closed (sy_rt s)"
      using r1(2) r' by (simp add: callback_done_def queue_of_def close_done_def)
    have "promise_kept s' d' q' a'" if "sy_calls s' c' = Some (Waiting d' q' a')" for c' d' q' a'
    proof -
      have "c' = c" "sy_calls s c = Some (Waiting d q a)"
        using that r1(3) run by (auto simp: holder_ok_def)
      moreover have "named_callback (ev_callback ev)"
        using assms(2) r1(3,5) promise_kept_named unfolding service_inv_def holder_ok_def by fast
      ultimately show ?thesis
        using that run r1(5) sv cl achieved_promised[OF r1(6)] by (auto simp: promise_kept_def)
    qed
    moreover have "tables_ok r'"
      using sv assms(2) attached_promised by (auto simp: tables_ok_def service_inv_def)
    ultimately show ?thesis
      using m' run by (auto simp: service_inv_def)
  next
    case (crash e)
    then obtain ev rest where er: "rt_running (sy_rt s) = ev # rest"
      by (cases "rt_running (sy_rt s)") auto
    obtain r1 where "run_callback e (ev_callback ev) ((sy_rt s)\<lparr>rt_running := rest\<rparr>) = Some r1"
      using run_callback_step[OF assms(2) er, of e] by metis
    then show ?thesis
      using crash er by simp
  qed
qed

lemma reach_service_inv: "reach well_named s \<Longrightarrow> service_inv s"
  by (induction rule: reach.induct) (auto intro: service_inv_init service_inv_step)

end
