(* ===== verification/Cri_Timing.thy ===== *)
theory Cri_Timing
  imports Cri_Safety
begin

section \<open>When a delayed callback runs\<close>

text \<open>
  The simulation counts ticks in an unsigned 64-bit number. An event is due when its target,
  the number at the time of \<open>Enqueue\<close> plus the delay, is at most the current number. The word
  distance from the current number to the target falls by one with every tick, so an event waits
  for its delay at most; it waits for exactly its delay unless the target wrapped.
\<close>

text \<open>The runtime after a number of iterations of the simulation loop, \<open>es j\<close> being the
  environment of the \<open>j\<close>-th.\<close>

fun sim_iterations :: "(nat \<Rightarrow> env) \<Rightarrow> nat \<Rightarrow> cri \<Rightarrow> cri option" where
  "sim_iterations es 0 r = Some r"
| "sim_iterations es (Suc k) r =
     Option.bind (sim_iterations es k r) (sim_iteration (run_callback (es k)))"

definition one_event :: "callback event \<Rightarrow> cri \<Rightarrow> bool" where
  "one_event ev r \<longleftrightarrow> rt_events r = [ev] \<and> rt_running r = []"

lemma sim_iteration_idle:
  assumes "one_event ev r" "\<not> due (rt_seq r + 1) ev"
  shows "sim_iteration call r = Some (r\<lparr>rt_seq := rt_seq r + 1\<rparr>)"
  using assms by (simp add: sim_iteration_def sim_tick_def one_event_def Let_def)

lemma sim_iteration_fire:
  assumes "one_event ev r" "due (rt_seq r + 1) ev"
  shows "sim_iteration call r = map_option (close_done (ev_done ev))
    (call (ev_callback ev) (r\<lparr>rt_seq := rt_seq r + 1, rt_events := []\<rparr>))"
proof -
  obtain r1 where r1: "sim_tick r = r1" "rt_running r1 = [ev]"
      "r1\<lparr>rt_running := []\<rparr> = r\<lparr>rt_seq := rt_seq r + 1, rt_events := []\<rparr>"
    using assms by (cases r) (simp add: sim_tick_def one_event_def Let_def)
  have "sim_iteration call r = map_option (close_done (ev_done ev)) (call (ev_callback ev) (r1\<lparr>rt_running := []\<rparr>))"
    using r1(1,2) by (cases "call (ev_callback ev) (r1\<lparr>rt_running := []\<rparr>)")
      (simp_all add: sim_iteration_def Let_def)
  then show ?thesis
    by (simp only: r1(3))
qed

lemma sim_iterations_idle:
  assumes "one_event ev r" "\<And>j. 0 < j \<Longrightarrow> j \<le> k \<Longrightarrow> \<not> due (rt_seq r + of_nat j) ev"
  shows "sim_iterations es k r = Some (r\<lparr>rt_seq := rt_seq r + of_nat k\<rparr>)"
  using assms(2)
proof (induction k)
  case (Suc k)
  have "one_event ev (r\<lparr>rt_seq := rt_seq r + of_nat k\<rparr>)"
    using assms(1) by (simp add: one_event_def)
  moreover have "\<not> due (rt_seq r + of_nat k + 1) ev"
    using Suc.prems[of "Suc k"] by (simp add: add_ac)
  ultimately show ?case
    using Suc by (simp add: sim_iteration_idle add_ac)
qed simp

lemma sim_iterations_fire:
  assumes "one_event ev r" "\<And>j. 0 < j \<Longrightarrow> j \<le> k \<Longrightarrow> \<not> due (rt_seq r + of_nat j) ev"
    and "due (rt_seq r + of_nat (Suc k)) ev"
  shows "sim_iterations es (Suc k) r = map_option (close_done (ev_done ev))
    (run_callback (es k) (ev_callback ev) (r\<lparr>rt_seq := rt_seq r + of_nat (Suc k), rt_events := []\<rparr>))"
proof -
  have "one_event ev (r\<lparr>rt_seq := rt_seq r + of_nat k\<rparr>)"
    using assms(1) by (simp add: one_event_def)
  moreover have "due (rt_seq r + of_nat k + 1) ev"
    using assms(3) by (simp add: add_ac)
  ultimately show ?thesis
    using sim_iterations_idle[OF assms(1,2), where es = es] by (simp add: sim_iteration_fire add_ac)
qed

text \<open>Without a wrap the event is due after exactly its delay.\<close>

lemma unat_add_of_nat:
  fixes s :: "64 word"
  assumes "unat s + j < 2 ^ 64"
  shows "unat (s + of_nat j) = unat s + j"
  using assms by (simp add: unat_word_ariths unat_of_nat)

lemma due_exact:
  fixes s n :: "64 word"
  assumes "ev_sequence ev = s + n" "unat s + unat n < 2 ^ 64" "j \<le> unat n"
  shows "due (s + of_nat j) ev \<longleftrightarrow> j = unat n"
proof -
  have "unat (s + n) = unat s + unat n"
    using unat_add_of_nat[of s "unat n"] assms(2) by simp
  moreover have "unat (s + of_nat j) = unat s + j"
    using assms(2,3) by (intro unat_add_of_nat) simp
  ultimately show ?thesis
    using assms(1,3) by (auto simp: due_def word_le_nat_alt)
qed

text \<open>A target that wrapped is due at the next tick.\<close>

lemma due_wrapped:
  fixes s n :: "64 word"
  assumes "ev_sequence ev = s + n" "2 ^ 64 \<le> unat s + unat n" "unat s + 1 < 2 ^ 64"
  shows "due (s + 1) ev"
proof -
  have "unat n < 2 ^ 64"
    using unsigned_less[of n] by simp
  moreover have "unat (s + n) = (unat s + unat n) mod 2 ^ 64"
    by (simp add: unat_word_ariths)
  moreover have "unat s < 2 ^ 64"
    using unsigned_less[of s] by simp
  ultimately have "unat (s + n) \<le> unat s"
    using assms(2) by (simp add: mod_if) linarith
  moreover have "unat (s + 1) = unat s + 1"
    using unat_add_of_nat[of s 1] assms(3) by simp
  ultimately show ?thesis
    using assms(1) by (simp add: due_def word_le_nat_alt)
qed

text \<open>Whatever wraps, the event is due when the distance has been ticked away.\<close>

lemma due_at_distance: "due (s + of_nat (unat (ev_sequence ev - s))) ev"
  by (simp add: due_def)

lemma enqueue_one_event:
  assumes "enqueue n cb r = (r', d)" "rt_events r = []" "rt_running r = []"
  shows "one_event \<lparr>ev_sequence = rt_seq r + n, ev_callback = cb, ev_done = d\<rparr> r'"
    "rt_seq r' = rt_seq r"
  using assms by (auto simp: one_event_def dest!: enqueue_queue)

end
