(* ===== verification/Cri_Contract.thy ===== *)
theory Cri_Contract
  imports Cri_Timing
begin

section \<open>What every RPC answers, on the abstract state\<close>

text \<open>
  \<open>promised_reply\<close> is the contract of the nine RPCs that change the service: the new abstract
  state and the answer, given at once or when the delayed callback has run. \<open>serve_contract\<close>
  shows that the handlers keep it in every well-formed runtime, for every iteration order of the
  maps. A lookup of the empty name finds an object as soon as there is one, which \<open>found\<close> states.
\<close>

datatype verdict = Answered answer | Delayed callback answer

definition found :: "(string \<Rightarrow> bool) \<Rightarrow> string \<Rightarrow> bool" where
  "found present k \<longleftrightarrow> (if k = [] then \<exists>j. present j else present k)"

definition has_sandbox :: "service \<Rightarrow> string \<Rightarrow> bool" where
  "has_sandbox s k \<longleftrightarrow> sv_sandboxes s k \<noteq> None"

definition has_container :: "service \<Rightarrow> string \<Rightarrow> bool" where
  "has_container s k \<longleftrightarrow> sv_containers s k \<noteq> None"

definition occupied :: "service \<Rightarrow> string \<Rightarrow> bool" where
  "occupied s k \<longleftrightarrow> (\<exists>c st. sv_containers s c = Some (k, st))"

definition create_promise ::
  "env \<Rightarrow> create_container_request \<Rightarrow> service \<Rightarrow> service \<times> string rpc" where
  "create_promise e q s =
     (let sbid = cr_pod_sandbox_id q; img = Option.bind (cr_config q) cc_image;
          scid = uniq_id [''container'', sbid, opt_list cm_name (Option.bind (cr_config q) cc_metadata)]
            (e_now e 0)
      in if sbid = [] then (s, Fail InvalidArgument)
         else if \<not> has_sandbox s sbid then (s, Fail NotFound)
         else if \<not> found (sv_images s) (image_name_of img) then (s, Fail NotFound)
         else if has_container s scid then (s, Fail AlreadyExists)
         else if img = None then (s, Panicked)
         else (s\<lparr>sv_containers := (sv_containers s)(scid \<mapsto> (sbid, CONTAINER_CREATED))\<rparr>, Reply scid))"

fun promised_reply :: "env \<Rightarrow> request \<Rightarrow> service \<Rightarrow> service \<times> verdict" where
  "promised_reply e (RunPodSandbox q) s =
     (let uid = pm_uid (pod_metadata_of (rp_config q)); k = uniq_id [''sandbox'', uid] (e_now e 0)
      in if uid = [] then (s, Answered (SandboxAnswer (Fail InvalidArgument)))
         else if has_sandbox s k then (s, Answered (SandboxAnswer (Fail AlreadyExists)))
         else (s\<lparr>sv_sandboxes := (sv_sandboxes s)(k \<mapsto> SANDBOX_NOTREADY)\<rparr>,
               Delayed (SandboxReady k) (SandboxAnswer (Reply k))))"
| "promised_reply e (StopPodSandbox k) s =
     (s, if found (has_sandbox s) k then Delayed (SandboxStopped k) (EmptyAnswer (Reply ()))
         else Answered (EmptyAnswer (Fail NotFound)))"
| "promised_reply e (RemovePodSandbox k) s =
     (if k = [] then (s, Answered (EmptyAnswer (Fail InvalidArgument)))
      else if \<not> has_sandbox s k then (s, Answered (EmptyAnswer (Fail NotFound)))
      else if occupied s k then (s, Answered (EmptyAnswer (Fail InvalidArgument)))
      else (s\<lparr>sv_sandboxes := (sv_sandboxes s)(k := None)\<rparr>, Answered (EmptyAnswer (Reply ()))))"
| "promised_reply e (CreateContainer q) s =
     (case create_promise e q s of (s', x) \<Rightarrow> (s', Answered (ContainerAnswer x)))"
| "promised_reply e (StartContainer k) s =
     (s, if found (has_container s) k then Delayed (ContainerStarted k) (EmptyAnswer (Reply ()))
         else Answered (EmptyAnswer (Fail NotFound)))"
| "promised_reply e (StopContainer k) s =
     (s, if found (has_container s) k then Delayed (ContainerStopped k) (EmptyAnswer (Reply ()))
         else Answered (EmptyAnswer (Fail NotFound)))"
| "promised_reply e (RemoveContainer k) s =
     (if found (has_container s) k
      then (s\<lparr>sv_containers := (sv_containers s)(k := None)\<rparr>, Answered (EmptyAnswer (Reply ())))
      else (s, Answered (EmptyAnswer (Fail NotFound))))"
| "promised_reply e (PullImage i) s =
     (s, Delayed (ImagePulled i) (PullAnswer (Pulled (image_name_of i))))"
| "promised_reply e (RemoveImage i) s =
     (s\<lparr>sv_images := (sv_images s)(image_name_of i := False)\<rparr>, Answered (EmptyAnswer (Reply ())))"

subsection \<open>Lookups, with the empty name too\<close>

lemma map_of_all_None [simp]: "(\<forall>k. map_of m k = None) \<longleftrightarrow> m = []"
  by (cases m) auto

lemma map_of_empty_iff: "(\<exists>k. map_of m k \<noteq> None) \<longleftrightarrow> m \<noteq> []"
  by (metis map_of_all_None)

lemma gm_range_empty_iff [simp]: "gm_range rk m = [] \<longleftrightarrow> m = []"
  by (metis set_gm_range set_empty)

lemma get_sandbox_found:
  assumes "runtime_wf r"
  shows "get_sandbox lm rk k r = None \<longleftrightarrow> \<not> found (has_sandbox (service_of r)) k"
proof (cases "k = []")
  case True
  have "sandbox_match lm sb (Some (sandbox_id_filter []))" for sb
    by (simp add: sandbox_match_def sandbox_id_filter_def selector_ok_def)
  then have "get_sandbox lm rk k r = None \<longleftrightarrow> rt_sandboxes r = []"
    using True by (auto simp: get_sandbox_def list_sandboxes_def split: list.split)
  then show ?thesis
    using True map_of_empty_iff[of "rt_sandboxes r"]
    by (simp add: found_def has_sandbox_def service_of_def)
next
  case False
  then show ?thesis
    using assms by (simp add: get_sandbox_lookup runtime_wf_def named_def found_def has_sandbox_def service_of_def)
qed

lemma get_container_found:
  assumes "runtime_wf r"
  shows "get_container lm rk k r = None \<longleftrightarrow> \<not> found (has_container (service_of r)) k"
proof (cases "k = []")
  case True
  have "container_match lm c (Some (container_id_filter []))" for c
    by (simp add: container_match_def container_id_filter_def selector_ok_def)
  then have "get_container lm rk k r = None \<longleftrightarrow> rt_containers r = []"
    using True by (auto simp: get_container_def list_containers_def split: list.split)
  then show ?thesis
    using True map_of_empty_iff[of "rt_containers r"]
    by (simp add: found_def has_container_def service_of_def)
next
  case False
  then show ?thesis
    using assms by (simp add: get_container_lookup runtime_wf_def named_def found_def has_container_def service_of_def)
qed

lemma get_image_found:
  assumes "runtime_wf r"
  shows "get_image rk k r = None \<longleftrightarrow> \<not> found (sv_images (service_of r)) k"
proof (cases "k = []")
  case True
  then have "get_image rk k r = None \<longleftrightarrow> rt_images r = []"
    by (auto simp: get_image_def list_images_def image_match_def image_id_filter_def split: list.split)
  then show ?thesis
    using True map_of_empty_iff[of "rt_images r"]
    by (simp add: found_def service_of_def)
next
  case False
  then show ?thesis
    using assms by (simp add: get_image_lookup runtime_wf_def named_def found_def service_of_def)
qed

lemma found_named [simp]: "k \<noteq> [] \<Longrightarrow> found p k = p k" "found p (uniq_id xs t) = p (uniq_id xs t)"
  using named_uniq_id[of xs t] by (simp_all add: found_def named_def)

lemmas get_found = get_sandbox_found get_container_found get_image_found

subsection \<open>The handlers keep the contract\<close>

text \<open>What a handler owes the contract.\<close>

definition keeps :: "service \<times> verdict \<Rightarrow> cri \<Rightarrow> cri \<times> outcome \<Rightarrow> bool" where
  "keeps p r res \<longleftrightarrow>
     (case res of (r', out) \<Rightarrow> runtime_wf r' \<and>
        (case out of
           Done a \<Rightarrow> queue_of r' = queue_of r \<and> p = (service_of r', Answered a)
         | Blocked d a \<Rightarrow> \<exists>cb. queued cb d r r' \<and> p = (service_of r', Delayed cb a)))"

lemma keeps_now: "runtime_wf r \<Longrightarrow> keeps (service_of r, Answered (f x)) r (outcome_of f (r, Now x))"
  by (simp add: keeps_def)

lemma keeps_await:
  assumes "runtime_wf r1" "queue_of r1 = queue_of r"
  shows "keeps (service_of r1, Delayed cb (f (Reply x))) r
    (outcome_of f (let (r', d) = enqueue 10 cb r1 in (r', Await d x)))"
proof -
  obtain r' d where e: "enqueue 10 cb r1 = (r', d)" by (cases "enqueue 10 cb r1")
  then have "queued cb d r r'" "service_of r' = service_of r1" "runtime_wf r'"
    using enqueue_queued[OF e assms(2)] enqueue_service[OF e] assms(1) by auto
  then show ?thesis
    using e by (simp add: keeps_def)
qed

lemma run_pod_sandbox_keeps:
  assumes "runtime_wf r"
  shows "keeps (promised_reply e (RunPodSandbox q) (service_of r)) r (serve e (RunPodSandbox q) r)"
proof -
  let ?k = "uniq_id [''sandbox'', pm_uid (pod_metadata_of (rp_config q))] (e_now e 0)"
  let ?np = "new_pod_sandbox e q ?k"
  let ?sb = "new_sandbox (Some ?np) (Some (status_of_pod_sandbox ?np))"
  have sw: "sandboxes_wf r" "runtime_wf (add_sandbox ?k ?sb r)"
    using assms by (auto simp: runtime_wf_def new_sandbox_ok sbx.put_inv)
  have "sandbox_abs ?sb = SANDBOX_NOTREADY"
    by (simp add: sandbox_abs_def new_sandbox_def new_pod_sandbox_def)
  then show ?thesis
    using assms keeps_now[OF assms, of SandboxAnswer] sw
      keeps_await[OF sw(2), of r "SandboxReady ?k" SandboxAnswer ?k]
    by (simp add: run_pod_sandbox_def get_found Let_def service_add_sandbox)
qed

lemma create_container_keeps:
  assumes "runtime_wf r"
  shows "keeps (promised_reply e (CreateContainer q) (service_of r)) r (serve e (CreateContainer q) r)"
proof -
  let ?k = "uniq_id [''container'', cr_pod_sandbox_id q,
     opt_list cm_name (Option.bind (cr_config q) cc_metadata)] (e_now e 0)"
  let ?c = "\<lambda>i. new_container (Some (new_container_msg e q ?k i))
     (Some (status_of_container q i (new_container_msg e q ?k i)))"
  have cw: "containers_wf r" "runtime_wf (add_container ?k (?c i) r)" for i
    using assms by (auto simp: runtime_wf_def new_container_ok ctr.put_inv)
  have "container_abs (?c i) = (cr_pod_sandbox_id q, CONTAINER_CREATED)" for i
    by (simp add: container_abs_def new_container_def new_container_msg_def)
  then show ?thesis
    using assms cw
    by (cases "Option.bind (cr_config q) cc_image")
      (simp_all add: create_container_def create_promise_def get_found Let_def keeps_def
        service_add_container)
qed

lemma serve_contract: "runtime_wf r \<Longrightarrow> keeps (promised_reply e q (service_of r)) r (serve e q r)"
proof (cases q)
  case (RunPodSandbox p)
  assume "runtime_wf r"
  then show ?thesis unfolding RunPodSandbox by (rule run_pod_sandbox_keeps)
next
  case (StopPodSandbox k)
  assume wf: "runtime_wf r"
  then show ?thesis
    using StopPodSandbox keeps_now[OF wf, of EmptyAnswer] keeps_await[OF wf, of r _ EmptyAnswer]
    by (simp add: stop_pod_sandbox_def get_found)
next
  case (RemovePodSandbox k)
  assume wf: "runtime_wf r"
  then have "sandboxes_wf r" "containers_wf r" "runtime_wf (remove_sandbox k r)"
    by (auto simp: runtime_wf_def sbx.del_inv)
  then show ?thesis
    using wf RemovePodSandbox
    by (simp add: remove_pod_sandbox_def get_found has_children_service occupied_def keeps_def
        service_remove_sandbox)
next
  case (CreateContainer p)
  assume "runtime_wf r"
  then show ?thesis unfolding CreateContainer by (rule create_container_keeps)
next
  case (StartContainer k)
  assume wf: "runtime_wf r"
  then show ?thesis
    using StartContainer keeps_now[OF wf, of EmptyAnswer] keeps_await[OF wf, of r _ EmptyAnswer]
    by (simp add: start_container_def get_found)
next
  case (StopContainer k)
  assume wf: "runtime_wf r"
  then show ?thesis
    using StopContainer keeps_now[OF wf, of EmptyAnswer] keeps_await[OF wf, of r _ EmptyAnswer]
    by (simp add: stop_container_def get_found)
next
  case (RemoveContainer k)
  assume wf: "runtime_wf r"
  then have "containers_wf r" "runtime_wf (remove_container k r)"
    by (auto simp: runtime_wf_def ctr.del_inv)
  then show ?thesis
    using wf RemoveContainer
    by (simp add: remove_container_rpc_def get_found keeps_def service_remove_container)
next
  case (PullImage i)
  assume wf: "runtime_wf r"
  then show ?thesis
    using PullImage keeps_await[OF wf, of r "ImagePulled i" pull_answer "image_name_of i"]
    by (simp add: pull_image_def)
next
  case (RemoveImage i)
  assume wf: "runtime_wf r"
  then have "images_wf r" "runtime_wf (remove_image (image_name_of i) r)"
    by (auto simp: runtime_wf_def img.del_inv)
  then show ?thesis
    using RemoveImage by (simp add: remove_image_rpc_def keeps_def service_remove_image)
qed

end
