(* ===== verification/Cri_Properties.thy ===== *)
theory Cri_Properties
  imports Cri_Contract
begin

section \<open>Properties of the container runtime\<close>

text \<open>
  The properties of \<open>pkg/cri\<close> and \<open>pkg/cri/model\<close> and the concrete inputs that witness them: a
  sandbox and a container in a runtime, and the run of the service in which the sandbox is
  started.
\<close>

subsection \<open>Concrete inputs\<close>

definition sample_env :: env where
  "sample_env = \<lparr>e_match = (\<lambda>s l. set s \<subseteq> set l), e_rank = (\<lambda>_ _. 0), e_now = (\<lambda>_. 0)\<rparr>"

definition sample_pod :: run_pod_request where
  "sample_pod =
     \<lparr>rp_config = Some \<lparr>pc_metadata = Some \<lparr>pm_name = ''web'', pm_uid = ''u'', pm_namespace = ''ns'',
        pm_attempt = 0\<rparr>, pc_labels = [], pc_annotations = []\<rparr>, rp_runtime_handler = []\<rparr>"

definition sample_sandbox :: "string \<Rightarrow> sandbox" where
  "sample_sandbox k =
     new_sandbox (Some (new_pod_sandbox sample_env sample_pod k))
       (Some (status_of_pod_sandbox (new_pod_sandbox sample_env sample_pod k)))"

definition sample_image :: image_spec where
  "sample_image = \<lparr>is_image = ''img'', is_rest = Opaque []\<rparr>"

definition sample_container_request :: create_container_request where
  "sample_container_request =
     \<lparr>cr_pod_sandbox_id = ''s'', cr_config = Some \<lparr>cc_metadata = None, cc_image = Some sample_image,
        cc_labels = [], cc_annotations = [], cc_log_path = []\<rparr>\<rparr>"

definition sample_container :: container where
  "sample_container =
     new_container (Some (new_container_msg sample_env sample_container_request ''c'' sample_image))
       (Some (status_of_container sample_container_request sample_image
          (new_container_msg sample_env sample_container_request ''c'' sample_image)))"

definition sample_cri :: cri where
  "sample_cri = add_container ''c'' sample_container (add_sandbox ''s'' (sample_sandbox ''s'') new_cri)"

text \<open>The service after \<open>RunPodSandbox\<close> has been called on an empty runtime.\<close>

definition sample_sys :: sys where
  "sample_sys =
     init_sys\<lparr>sy_rt := fst (serve sample_env (RunPodSandbox sample_pod) new_cri), sy_mu := Some 0,
       sy_calls := [0 \<mapsto> Waiting 0 (RunPodSandbox sample_pod)
         (SandboxAnswer (Reply (uniq_id [''sandbox'', ''u''] 0)))]\<rparr>"

lemma sample_named [simp]: "named ''s''" "named ''c''" "named ''img''"
  by (simp_all add: named_def)

lemma runtime_wf_new [simp]: "runtime_wf new_cri"
  by (simp add: runtime_wf_def sandboxes_wf_def containers_wf_def images_wf_def new_cri_def new_runtime_def)

lemma sample_sandbox_ok [simp]: "sandbox_ok k (sample_sandbox k)"
  by (simp add: sample_sandbox_def new_sandbox_ok)

lemma sample_sandbox_abs [simp]: "sandbox_abs (sample_sandbox k) = SANDBOX_NOTREADY"
  by (simp add: sample_sandbox_def sandbox_abs_def new_sandbox_def new_pod_sandbox_def)

lemma sample_container_ok [simp]: "container_ok ''c'' sample_container"
  by (simp add: sample_container_def new_container_ok)

lemma sample_cri_wf [simp]: "runtime_wf sample_cri"
  using runtime_wf_new unfolding runtime_wf_def sample_cri_def
  by (simp add: sbx.put_inv ctr.put_inv)

lemma sample_serve:
  "serve sample_env (RunPodSandbox sample_pod) new_cri =
     (sy_rt sample_sys, Blocked 0 (SandboxAnswer (Reply (uniq_id [''sandbox'', ''u''] 0))))"
proof -
  have "serve sample_env (RunPodSandbox sample_pod) new_cri =
     (fst (serve sample_env (RunPodSandbox sample_pod) new_cri),
      Blocked 0 (SandboxAnswer (Reply (uniq_id [''sandbox'', ''u''] 0))))"
    by (simp add: run_pod_sandbox_def sample_pod_def sample_env_def pod_metadata_of_def Let_def
        get_sandbox_def list_sandboxes_def new_cri_def new_runtime_def enqueue_def add_sandbox_def)
  then show ?thesis
    by (simp add: sample_sys_def)
qed

lemma sample_reach: "reach well_named sample_sys"
proof -
  have "sys_step well_named init_sys sample_sys"
    using sys_step.block[of init_sys 0 well_named "RunPodSandbox sample_pod" sample_env]
      sample_serve by (simp add: init_sys_def sample_sys_def)
  then show ?thesis
    by (rule reach.step[OF reach.start])
qed


subsection \<open>The service under many clients\<close>

text \<open>
  C1. Whatever RPCs arrive, in whatever order, and however the simulation interleaves with them:
  as long as clients name the objects they stop, start and pull, no callback takes the process
  down, every object is stored under the name its messages carry, the two messages of an object
  agree on its state, and every container belongs to a sandbox that exists.
\<close>

theorem reachable_tables_ok:
  assumes "reach well_named s"
  shows "\<not> sy_crashed s \<and> runtime_wf (sy_rt s) \<and>
    (\<forall>k pod st. sv_containers (service_of (sy_rt s)) k = Some (pod, st) \<longrightarrow>
       sv_sandboxes (service_of (sy_rt s)) pod \<noteq> None)"
  using reach_service_inv[OF assms] by (auto simp: service_inv_def tables_ok_def attached_def)

lemma reachable_tables_ok_witness:
  "\<not> sy_crashed sample_sys \<and> runtime_wf (sy_rt sample_sys)"
  using reachable_tables_ok[OF sample_reach] by simp

text \<open>
  C2. An RPC that waits for its transition holds the mutex of the service: no two RPCs wait at
  once, and the queue holds nothing but the event of the one that waits, or nothing when that
  event has run. This needs nothing of the clients.
\<close>

theorem waiting_rpc_is_alone:
  assumes "reach adm s" "sy_calls s c = Some (Waiting d q a)"
  shows "sy_mu s = Some c \<and> (\<forall>c' d' q' a'. sy_calls s c' = Some (Waiting d' q' a') \<longrightarrow> c' = c) \<and>
    map ev_done (rt_running (sy_rt s) @ rt_events (sy_rt s)) =
      (if d \<in> set (rt_closed (sy_rt s)) then [] else [d])"
  using mutex_inv_holder[OF reach_mutex_inv[OF assms(1)] assms(2)]
  by (auto simp: holder_ok_def outstanding_def waiting_def simp del: map_append)

lemma waiting_rpc_is_alone_witness:
  "sy_mu sample_sys = Some 0 \<and>
   map ev_done (rt_running (sy_rt sample_sys) @ rt_events (sy_rt sample_sys)) =
     (if 0 \<in> set (rt_closed (sy_rt sample_sys)) then [] else [0])"
  using waiting_rpc_is_alone[OF sample_reach, of 0] by (simp add: sample_sys_def)




subsection \<open>Every RPC that waits can return\<close>

lemma reach_tick_rate: "reach adm s \<Longrightarrow> rt_tick_rate (sy_rt s) = 100000000"
proof (induction rule: reach.induct)
  case start
  show ?case by (simp add: init_sys_def new_cri_def new_runtime_def)
next
  case (step s s')
  from step.hyps(2) show ?case
  proof cases
    case (answer c q e r' a)
    then show ?thesis
      using serve_done_queue[of e q "sy_rt s" r' a] step.IH by (simp add: queue_of_def)
  next
    case (block c q e r' d a)
    then show ?thesis
      using serve_blocked_queue[of e q "sy_rt s" r' d a] step.IH by (auto simp: queued_def)
  next
    case (run e r')
    from run(4,3) show ?thesis
      by (rule sim_run_cases) (use run step.IH in simp)
  qed (use step.IH in simp_all)
qed

definition returns :: "sys \<Rightarrow> nat \<Rightarrow> bool" where
  "returns s c \<longleftrightarrow> (\<exists>s' a. (sys_step well_named)\<^sup>*\<^sup>* s s' \<and> sy_calls s' c = Some (Finished a))"

lemma returns_step: "sys_step well_named s s' \<Longrightarrow> returns s' c \<Longrightarrow> returns s c"
  unfolding returns_def by (meson converse_rtranclp_into_rtranclp)

lemma returns_closed:
  assumes "service_inv s" "sy_calls s c = Some (Waiting d q a)" "d \<in> set (rt_closed (sy_rt s))"
  shows "returns s c"
proof -
  have ok: "\<not> sy_crashed s" and h: "holder_ok s c d q a"
    using assms mutex_inv_holder by (auto simp: service_inv_def)
  show ?thesis
  proof (cases "is_pull q")
    case False
    have "sys_step well_named s (s\<lparr>sy_mu := None, sy_calls := (sy_calls s)(c \<mapsto> Finished a)\<rparr>)"
      using ok assms(2,3) False by (rule sys_step.wake)
    then show ?thesis
      by (rule returns_step) (auto simp: returns_def)
  next
    case True
    then obtain ref where a: "a = PullAnswer (Pulled ref)"
      using h by (cases q; cases a) (auto simp: holder_ok_def elim: callback_of.elims)
    let ?s1 = "s\<lparr>sy_mu := None, sy_calls := (sy_calls s)(c \<mapsto> Selecting ref)\<rparr>"
    let ?s2 = "?s1\<lparr>sy_calls := (sy_calls ?s1)(c \<mapsto> Relocking (pull_image_resume False ref))\<rparr>"
    let ?s3 = "?s2\<lparr>sy_calls := (sy_calls ?s2)(c \<mapsto> Finished (PullAnswer (pull_image_resume False ref)))\<rparr>"
    have "sys_step well_named s ?s1"
      using ok assms(2,3) True unfolding a by (intro sys_step.wake_pull)
    moreover have "sys_step well_named ?s1 ?s2"
      using ok by (intro sys_step.select) simp_all
    moreover have "sys_step well_named ?s2 ?s3"
      using ok by (intro sys_step.relock) simp_all
    ultimately show ?thesis
      by (elim returns_step) (auto simp: returns_def)
  qed
qed

lemma returns_running:
  assumes "reach well_named s" "sy_calls s c = Some (Waiting d q a)" "rt_running (sy_rt s) = ev # rest"
  shows "returns s c"
proof -
  have inv: "service_inv s"
    using assms(1) by (rule reach_service_inv)
  then have h: "sy_mu s = Some c"
    using assms(2) mutex_inv_holder by (auto simp: service_inv_def)
  obtain e :: env where True by simp
  obtain r1 c' d' q' a' where r1: "run_callback e (ev_callback ev) ((sy_rt s)\<lparr>rt_running := rest\<rparr>) = Some r1"
    "holder_ok s c' d' q' a'" "ev_done ev = d'" "sy_mu s = Some c'"
    by (rule run_callback_step[OF inv assms(3), of e])
  have "c' = c"
    using r1(4) h by simp
  then have ed: "ev_done ev = d"
    using r1(2,3) assms(2) by (auto simp: holder_ok_def)
  let ?s = "s\<lparr>sy_rt := close_done d r1\<rparr>"
  have st: "sys_step well_named s ?s"
    using inv assms(3) r1(1) ed by (intro sys_step.run[where e = e]) (auto simp: service_inv_def)
  moreover have "service_inv ?s"
    using reach_service_inv reach.step[OF assms(1) st] by blast
  moreover have "sy_calls ?s c = Some (Waiting d q a)" "d \<in> set (rt_closed (sy_rt ?s))"
    using assms(2) by (simp_all add: close_done_def)
  ultimately show ?thesis
    using returns_closed returns_step by blast
qed

text \<open>Every tick brings the number of the simulation one closer to the event's.\<close>

lemma word_distance_less:
  fixes a b :: "64 word"
  assumes "b \<noteq> a"
  shows "unat (a - (b + 1)) < unat (a - b)"
proof -
  have "a - b \<noteq> 0"
    using assms by simp
  then have "unat (a - b - 1) < unat (a - b)"
    by (simp add: measure_unat)
  then show ?thesis
    by (simp add: diff_diff_eq)
qed

lemma returns_queued:
  assumes "reach well_named s" "sy_calls s c = Some (Waiting d q a)" "one_event ev (sy_rt s)"
  shows "returns s c"
  using assms
proof (induction "unat (ev_sequence ev - (rt_seq (sy_rt s) + 1))" arbitrary: s rule: less_induct)
  case less
  let ?s = "s\<lparr>sy_rt := sim_tick (sy_rt s)\<rparr>"
  have st: "sys_step well_named s ?s"
    using reach_service_inv[OF less.prems(1)] reach_tick_rate[OF less.prems(1)] less.prems(3)
    by (intro sys_step.tick) (auto simp: service_inv_def simulated_def one_event_def)
  then have re: "reach well_named ?s"
    using less.prems(1) by (auto intro: reach.step)
  have call: "sy_calls ?s c = Some (Waiting d q a)"
    using less.prems(2) by simp
  show ?case
  proof (cases "due (rt_seq (sy_rt s) + 1) ev")
    case True
    then have "rt_running (sy_rt ?s) = ev # []"
      using less.prems(3) by (simp add: sim_tick_def one_event_def Let_def)
    then show ?thesis
      using returns_running[OF re call] returns_step[OF st] by blast
  next
    case False
    then have one: "one_event ev (sy_rt ?s)"
      using less.prems(3) by (simp add: sim_tick_def one_event_def Let_def)
    have "ev_sequence ev \<noteq> rt_seq (sy_rt s) + 1"
      using False by (auto simp: due_def)
    then have "unat (ev_sequence ev - (rt_seq (sy_rt ?s) + 1)) <
        unat (ev_sequence ev - (rt_seq (sy_rt s) + 1))"
      using word_distance_less[of "rt_seq (sy_rt s) + 1"] by simp
    then show ?thesis
      using less.hyps[OF _ re call one] returns_step[OF st] by blast
  qed
qed




subsection \<open>What the handlers and the callbacks do\<close>

text \<open>
  C5. Every RPC that changes the service answers what its contract says and changes the abstract
  state as the contract says, on every branch: the missing identifier, the unknown object, the
  object that exists, the sandbox that has containers, the request without an image, success.
  A handler that answers at once leaves the queue alone, one that waits has put exactly the
  callback of the contract into it. The tables stay well formed.
\<close>

theorem rpc_keeps_contract:
  assumes "runtime_wf r" "serve e q r = (r', out)"
  shows "runtime_wf r' \<and>
    (case out of
       Done a \<Rightarrow> queue_of r' = queue_of r \<and> promised_reply e q (service_of r) = (service_of r', Answered a)
     | Blocked d a \<Rightarrow> d = rt_tickets r \<and>
         (\<exists>cb. promised_reply e q (service_of r) = (service_of r', Delayed cb a) \<and>
            rt_events r' = rt_events r @
              [\<lparr>ev_sequence = rt_seq r + 10, ev_callback = cb, ev_done = d\<rparr>]))"
  using serve_contract[OF assms(1), of e q] assms(2)
  by (auto simp: keeps_def queued_def split: outcome.splits)

lemma sample_remove:
  "serve sample_env (RemovePodSandbox ''s'') sample_cri = (sample_cri, Done (EmptyAnswer (Fail InvalidArgument)))"
proof -
  have "get_sandbox lm rk ''s'' sample_cri \<noteq> None" for lm rk
    using sample_cri_wf by (auto simp: runtime_wf_def get_sandbox_lookup sample_cri_def
        add_container_def add_sandbox_def map_simps)
  moreover have "has_children ''s'' (list_containers lm rk None sample_cri) = Some True" for lm rk
    by (simp add: sample_cri_def list_containers_def add_container_def gm_store_def container_match_def
        sample_container_def new_container_def new_container_msg_def sample_container_request_def
        new_cri_def new_runtime_def add_sandbox_def)
  ultimately show ?thesis
    by (simp add: remove_pod_sandbox_def)
qed

lemma rpc_keeps_contract_witness:
  "promised_reply sample_env (RemovePodSandbox ''s'') (service_of sample_cri) =
     (service_of sample_cri, Answered (EmptyAnswer (Fail InvalidArgument)))"
  using rpc_keeps_contract[OF sample_cri_wf sample_remove] by simp

text \<open>
  C6. A delayed callback for a named object never panics and does to the abstract state exactly
  what it stands for: only that sandbox, container or image changes, except that the containers
  of a stopped sandbox exit with it. This is independent of the order in which the maps are
  iterated, and the queue does not change.
\<close>

theorem callback_does_what_it_promises:
  assumes "runtime_wf r" "named_callback cb"
  shows "\<exists>r'. run_callback e cb r = Some r' \<and> runtime_wf r' \<and> queue_of r' = queue_of r \<and>
    service_of r' = promised cb (service_of r)"
  using callback_refines[OF assms] by (auto simp: callback_done_def)

lemma callback_does_what_it_promises_witness:
  "\<exists>r'. run_callback sample_env (SandboxStopped ''s'') sample_cri = Some r' \<and> runtime_wf r' \<and>
     queue_of r' = queue_of sample_cri \<and>
     service_of r' = promised (SandboxStopped ''s'') (service_of sample_cri)"
  using callback_does_what_it_promises[OF sample_cri_wf, of "SandboxStopped ''s''" sample_env] by simp

text \<open>
  C7. On an idle runtime whose tick number is not about to wrap, \<open>RunPodSandbox\<close> is delivered
  after exactly ten iterations of the simulation: through nine of them the sandbox is NOTREADY
  and the channel open, with the tenth the sandbox is READY and the channel closed.
\<close>

theorem sandbox_ready_after_ten_ticks:
  assumes "tables_ok r" "rt_events r = []" "rt_running r = []" "\<forall>x \<in> set (rt_closed r). x < rt_tickets r"
    and "unat (rt_seq r) + 10 < 2 ^ 64" "run_pod_sandbox e q r = (r', Await d k)"
  shows "(\<forall>j < 10. \<exists>rj. sim_iterations es j r' = Some rj \<and> d \<notin> set (rt_closed rj) \<and>
            sv_sandboxes (service_of rj) k = Some SANDBOX_NOTREADY) \<and>
    (\<exists>rn. sim_iterations es 10 r' = Some rn \<and> d \<in> set (rt_closed rn) \<and>
            sv_sandboxes (service_of rn) k = Some SANDBOX_READY)"
proof -
  let ?ev = "\<lparr>ev_sequence = rt_seq r + 10, ev_callback = SandboxReady k, ev_done = d\<rparr>"
  have srv: "serve e (RunPodSandbox q) r = (r', Blocked d (SandboxAnswer (Reply k)))"
    using assms(6) by simp
  obtain cb where cb: "callback_of (RunPodSandbox q) (SandboxAnswer (Reply k)) = Some cb" "queued cb d r r'"
    using serve_blocked_queue[OF srv] by blast
  have qd: "queued (SandboxReady k) d r r'"
    using cb by simp
  have tb: "tables_ok r'" "named k" "sv_sandboxes (service_of r') k = Some SANDBOX_NOTREADY"
    using serve_blocked_tables[OF assms(1) _ srv] by auto
  have one: "one_event ?ev r'" and seq: "rt_seq r' = rt_seq r" and cl: "d \<notin> set (rt_closed r')"
    using qd assms(2-4) by (auto simp: queued_def one_event_def)
  have due: "due (rt_seq r' + of_nat j) ?ev \<longleftrightarrow> j = 10" if "j \<le> 10" for j
    using due_exact[of ?ev "rt_seq r" 10 j] assms(5) that seq by simp
  have svc: "service_of (r'\<lparr>rt_seq := x\<rparr>) = service_of r'" for x
    by (simp add: service_of_def)
  have "sim_iterations es j r' = Some (r'\<lparr>rt_seq := rt_seq r' + of_nat j\<rparr>)" if "j < 10" for j
    using sim_iterations_idle[OF one, of j es] due that by force
  then have idle: "\<exists>rj. sim_iterations es j r' = Some rj \<and> d \<notin> set (rt_closed rj) \<and>
            sv_sandboxes (service_of rj) k = Some SANDBOX_NOTREADY" if "j < 10" for j
    using that cl tb(3) svc by simp
  let ?r = "r'\<lparr>rt_seq := rt_seq r' + of_nat (Suc 9), rt_events := []\<rparr>"
  have wf: "runtime_wf ?r" and sv: "service_of ?r = service_of r'"
    using tb(1) by (simp_all add: tables_ok_def runtime_wf_def sandboxes_wf_def containers_wf_def
        images_wf_def service_of_def)
  obtain rn where rn: "run_callback (es 9) (SandboxReady k) ?r = Some rn"
    "service_of rn = promised (SandboxReady k) (service_of r')"
    using callback_refines[OF wf, of "SandboxReady k" "es 9"] tb(2) sv by (auto simp: callback_done_def)
  have "sim_iterations es (Suc 9) r' = map_option (close_done d) (run_callback (es 9) (SandboxReady k) ?r)"
    using sim_iterations_fire[OF one, of 9 es] due[of "Suc 9"] due by force
  then have "sim_iterations es 10 r' = Some (close_done d rn)"
    using rn(1) by (simp add: numeral_eq_Suc)
  moreover have "sv_sandboxes (service_of (close_done d rn)) k = Some SANDBOX_READY"
    using rn(2) tb(3) by auto
  ultimately show ?thesis
    using idle by (auto simp: close_done_def)
qed


lemma new_cri_queue [simp]:
  "rt_events new_cri = []" "rt_running new_cri = []" "rt_closed new_cri = []" "rt_seq new_cri = 0"
  by (simp_all add: new_cri_def new_runtime_def)

lemma sample_run:
  "run_pod_sandbox sample_env sample_pod new_cri =
     (sy_rt sample_sys, Await 0 (uniq_id [''sandbox'', ''u''] 0))"
  using sample_serve
  by (cases "run_pod_sandbox sample_env sample_pod new_cri"; cases "snd (run_pod_sandbox sample_env sample_pod new_cri)")
    auto

lemma sandbox_ready_after_ten_ticks_witness:
  "\<exists>rn. sim_iterations (\<lambda>_. sample_env) 10 (sy_rt sample_sys) = Some rn \<and> 0 \<in> set (rt_closed rn) \<and>
     sv_sandboxes (service_of rn) (uniq_id [''sandbox'', ''u''] 0) = Some SANDBOX_READY"
  using sandbox_ready_after_ten_ticks[OF tables_ok_new _ _ _ _ sample_run, of "\<lambda>_. sample_env"] by simp

text \<open>
  C8. The tick number is an unsigned 64-bit integer and the target of an event is computed with
  wrap-around: when the number is so high that the target wraps, the callback runs with the very
  next tick and not after its delay.
\<close>

theorem wrapped_delay_runs_at_next_tick:
  assumes "enqueue n cb r = (r', d)" "rt_events r = []" "rt_running r = []"
    and "2 ^ 64 \<le> unat (rt_seq r) + unat n" "unat (rt_seq r) + 1 < 2 ^ 64"
  shows "sim_iteration (run_callback e) r' = map_option (close_done d)
    (run_callback e cb (r'\<lparr>rt_seq := rt_seq r + 1, rt_events := []\<rparr>))"
proof -
  let ?ev = "\<lparr>ev_sequence = rt_seq r + n, ev_callback = cb, ev_done = d\<rparr>"
  have "due (rt_seq r + 1) ?ev"
    using assms(4,5) by (intro due_wrapped) simp_all
  then show ?thesis
    using sim_iteration_fire[of ?ev r' "run_callback e"] enqueue_one_event[OF assms(1-3)] by simp
qed

lemma wrapped_delay_runs_at_next_tick_witness:
  "sim_iteration (run_callback sample_env)
     (fst (enqueue 10 (ImagePulled None) (new_cri\<lparr>rt_seq := - 5\<rparr>))) =
   Some (close_done 0 (pulled_image None
     ((fst (enqueue 10 (ImagePulled None) (new_cri\<lparr>rt_seq := - 5\<rparr>)))\<lparr>rt_seq := - 4, rt_events := []\<rparr>)))"
proof -
  have "enqueue 10 (ImagePulled None) (new_cri\<lparr>rt_seq := - 5\<rparr>) =
      (fst (enqueue 10 (ImagePulled None) (new_cri\<lparr>rt_seq := - 5\<rparr>)), 0)"
    by (simp add: enqueue_def new_cri_def new_runtime_def Let_def)
  from wrapped_delay_runs_at_next_tick[OF this, of sample_env] show ?thesis
    by simp
qed

lemma join_with_last: "xs \<noteq> [] \<Longrightarrow> join_with sep (xs @ [y]) = join_with sep xs @ sep @ y"
proof (induction xs)
  case (Cons x xs)
  then show ?case
    by (cases xs) (simp_all add: join_with_Cons)
qed simp

lemma uniq_id_eq_iff: "xs \<noteq> [] \<Longrightarrow> uniq_id xs a = uniq_id xs b \<longleftrightarrow> micro_of_day a = micro_of_day b"
  by (simp add: uniq_id_def join_with_last format_clock_eq_iff)

text \<open>
  C9. Sandbox names come from the pod's UID and the time of day in microseconds: if a runtime has
  no sandbox of that pod yet, a second \<open>RunPodSandbox\<close> for it is refused with \<open>AlreadyExists\<close>
  exactly when it reads the same microsecond of the day as the first, be it on another day.
\<close>

theorem second_sandbox_refused_iff_same_microsecond:
  assumes "runtime_wf r" "pm_uid (pod_metadata_of (rp_config q)) = uid"
    and "\<forall>t. map_of (rt_sandboxes r) (uniq_id [''sandbox'', uid] t) = None"
    and "run_pod_sandbox e q r = (r', Await d k)"
  shows "snd (run_pod_sandbox e' q r') = Now (Fail AlreadyExists) \<longleftrightarrow>
    e_now e' 0 div 1000 mod 86400000000 = e_now e 0 div 1000 mod 86400000000"
proof -
  have srv: "serve e (RunPodSandbox q) r = (r', Blocked d (SandboxAnswer (Reply k)))"
    using assms(4) by simp
  have "keeps (promised_reply e (RunPodSandbox q) (service_of r)) r (serve e (RunPodSandbox q) r)"
    by (rule serve_contract[OF assms(1)])
  then have wf: "runtime_wf r'" and uid: "uid \<noteq> []" and k: "k = uniq_id [''sandbox'', uid] (e_now e 0)"
    and eq: "service_of r' =
      (service_of r)\<lparr>sv_sandboxes := (sv_sandboxes (service_of r))(k \<mapsto> SANDBOX_NOTREADY)\<rparr>"
    using assms(2) unfolding srv by (auto simp: keeps_def Let_def split: if_splits)
  have sv: "sv_sandboxes (service_of r') = (sv_sandboxes (service_of r))(k \<mapsto> SANDBOX_NOTREADY)"
    unfolding eq by simp
  have "has_sandbox (service_of r') (uniq_id [''sandbox'', uid] t) \<longleftrightarrow>
      uniq_id [''sandbox'', uid] t = k" for t
    using assms(3) unfolding has_sandbox_def sv by simp
  then have "snd (run_pod_sandbox e' q r') = Now (Fail AlreadyExists) \<longleftrightarrow>
      micro_of_day (e_now e' 0) = micro_of_day (e_now e 0)"
    using uid assms(2) k
    by (auto simp: run_pod_sandbox_def Let_def get_sandbox_found[OF wf] uniq_id_eq_iff split: prod.split)
  then show ?thesis
    by (auto simp: micro_of_day_def nat_eq_iff2 eq_nat_nat_iff)
qed

lemma second_sandbox_refused_iff_same_microsecond_witness:
  "snd (run_pod_sandbox (sample_env\<lparr>e_now := \<lambda>_. 86400000000000\<rparr>) sample_pod (sy_rt sample_sys)) =
     Now (Fail AlreadyExists)"
  using second_sandbox_refused_iff_same_microsecond[OF runtime_wf_new _ _ sample_run,
      of "''u''" "sample_env\<lparr>e_now := \<lambda>_. 86400000000000\<rparr>"]
  by (simp add: sample_env_def sample_pod_def pod_metadata_of_def new_cri_def new_runtime_def)


lemma distinct_range_keys: "gm_wf m \<Longrightarrow> distinct (map fst (filter P (gm_range rk m)))"
proof -
  assume "gm_wf m"
  moreover have "mset (map fst (gm_range rk m)) = mset (map fst m)"
    by simp
  ultimately have "distinct (map fst (gm_range rk m))"
    unfolding gm_wf_def by (metis mset_eq_imp_distinct_iff)
  then show ?thesis
    by (rule distinct_map_filter)
qed

lemma container_match_pod_state:
  "container_ok k c \<Longrightarrow> pod \<noteq> [] \<Longrightarrow>
     container_match lm c
       (Some \<lparr>cf_id = [], cf_state = Some st, cf_pod_sandbox_id = pod, cf_labels = None\<rparr>) \<longleftrightarrow>
     container_abs c = (pod, st)"
  by (auto simp: container_match_def container_ok_def container_abs_def selector_ok_def
      split: option.splits)

text \<open>
  C10. Listing the containers of a sandbox that are in a given state yields each such container
  exactly once and no other, whatever the iteration order.
\<close>

theorem list_containers_of_sandbox_in_state:
  assumes "runtime_wf r" "pod \<noteq> []"
  shows "\<exists>cs. list_containers_rpc e
      (Some \<lparr>cf_id = [], cf_state = Some st, cf_pod_sandbox_id = pod, cf_labels = None\<rparr>) r = Reply (map Some cs) \<and>
    distinct (map ct_id cs) \<and>
    set (map ct_id cs) = {k. sv_containers (service_of r) k = Some (pod, st)}"
proof -
  let ?f = "Some \<lparr>cf_id = [], cf_state = Some st, cf_pod_sandbox_id = pod, cf_labels = None\<rparr>"
  let ?es = "filter (\<lambda>x. container_match (e_match e) (snd x) ?f) (gm_range (e_rank e 0) (rt_containers r))"
  let ?cs = "map (\<lambda>x. the (co_p (snd x))) ?es"
  have wf: "table_wf named container_ok (rt_containers r)"
    using assms(1) by (simp add: runtime_wf_def containers_wf_def)
  then have ok: "container_ok k c \<and> map_of (rt_containers r) k = Some c" if "(k, c) \<in> set ?es" for k c
    using that by (auto dest: table_wf_mem simp: gm_wf_mem[OF table_wf_gm_wf[OF wf]])
  have "list_containers (e_match e) (e_rank e 0) ?f r = map snd ?es"
    by (simp add: list_containers_def filter_map comp_def)
  moreover have "co_p c = Some (the (co_p c)) \<and> ct_id (the (co_p c)) = k" if "(k, c) \<in> set ?es" for k c
    using ok[OF that] by (auto simp: container_ok_def split: option.splits)
  ultimately have list: "list_containers_rpc e ?f r = Reply (map Some ?cs)"
      and ids: "map ct_id ?cs = map fst ?es"
    by (auto simp: list_containers_rpc_def container_of_def comp_def simp del: set_filter)
  have dist: "distinct (map fst ?es)"
    by (rule distinct_range_keys[OF table_wf_gm_wf[OF wf]])
  have "k \<in> set (map fst ?es) \<longleftrightarrow> container_view r k = Some (pod, st)" for k
  proof -
    have mem: "(k, c) \<in> set (rt_containers r) \<longleftrightarrow> map_of (rt_containers r) k = Some c" for c
      by (rule gm_wf_mem[OF table_wf_gm_wf[OF wf]])
    have "k \<in> set (map fst ?es) \<longleftrightarrow>
        (\<exists>c. (k, c) \<in> set (rt_containers r) \<and> container_match (e_match e) c ?f)"
      by (simp add: image_iff Bex_def)
    also have "\<dots> \<longleftrightarrow> (\<exists>c. map_of (rt_containers r) k = Some c \<and> container_abs c = (pod, st))"
      using container_match_pod_state[OF _ assms(2)] table_wf_lookup[OF wf] unfolding mem by blast
    finally show ?thesis
      by (simp add: container_view_def)
  qed
  then have keys: "set (map fst ?es) = {k. sv_containers (service_of r) k = Some (pod, st)}"
    unfolding service_of_container_view by blast
  show ?thesis
    using list dist keys unfolding ids[symmetric] by blast
qed

lemma list_containers_of_sandbox_in_state_witness:
  "\<exists>cs. list_containers_rpc sample_env
      (Some \<lparr>cf_id = [], cf_state = Some CONTAINER_CREATED, cf_pod_sandbox_id = ''s'', cf_labels = None\<rparr>)
      sample_cri = Reply (map Some cs) \<and> distinct (map ct_id cs)"
  using list_containers_of_sandbox_in_state[OF sample_cri_wf, of "''s''" sample_env CONTAINER_CREATED] by auto

text \<open>
  C11. Why clients have to name their objects: \<open>StopPodSandbox\<close> with an empty identifier is
  accepted as soon as there is a sandbox, and its callback then stores a sandbox under the empty
  name, under which it does not belong: the table is no longer well formed.
\<close>

theorem stop_of_empty_name_breaks_table:
  assumes "runtime_wf r" "rt_sandboxes r \<noteq> []" "stop_pod_sandbox e [] r = (r', f)"
  shows "f = Await (rt_tickets r) () \<and>
    (\<exists>rc. run_callback e' (SandboxStopped []) r' = Some rc \<and> \<not> runtime_wf rc \<and>
       sv_sandboxes (service_of rc) [] = Some SANDBOX_NOTREADY)"
proof -
  have "\<exists>j. has_sandbox (service_of r) j"
    using assms(2) map_of_empty_iff[of "rt_sandboxes r"] by (simp add: has_sandbox_def)
  then have en: "enqueue 10 (SandboxStopped []) r = (r', rt_tickets r)" and f: "f = Await (rt_tickets r) ()"
    using assms(1,3) by (auto simp: stop_pod_sandbox_def get_sandbox_found found_def enqueue_def Let_def)
  then have wf: "runtime_wf r'" and sv: "service_of r' = service_of r"
    using enqueue_service[OF en] assms(1) by auto
  have "found (has_sandbox (service_of r')) []"
    using \<open>\<exists>j. has_sandbox (service_of r) j\<close> by (simp add: sv found_def)
  then obtain sb where sb: "get_sandbox (e_match e') (e_rank e' 0) [] r' = Some sb"
    using get_sandbox_found[OF wf, of "e_match e'" "e_rank e' 0" "[]"] by auto
  then have "sb \<in> snd ` set (rt_sandboxes r')"
    by (auto simp: get_sandbox_def list_sandboxes_def filter_eq_Cons_iff split: list.splits)
      (metis (no_types, lifting) in_set_conv_decomp set_gm_range image_set list.set_map)
  then obtain j where "sandbox_ok j sb"
    using wf by (force simp: runtime_wf_def sandboxes_wf_def dest: table_wf_mem)
  then obtain sb' where sb': "with_sandbox_state SANDBOX_NOTREADY sb = Some sb'" "sandbox_abs sb' = SANDBOX_NOTREADY"
    using with_sandbox_state_ok by blast
  let ?r = "add_sandbox [] sb' r'"
  have mv: "move_sandbox e' SANDBOX_NOTREADY [] r' = Some ?r"
    using sb sb' by (simp add: move_sandbox_def)
  have "containers_wf ?r"
    using wf by (simp add: runtime_wf_def)
  then obtain rc where rc: "exit_children e' [] 0 (list_containers (e_match e') (e_rank e' 1) None ?r) ?r = Some rc"
      "children_exited [] (rt_containers ?r) ?r rc"
    using exit_children_all by blast
  have look: "map_of (rt_sandboxes rc) [] = Some sb'"
    using rc(2) wf by (auto simp: children_exited_def runtime_wf_def sbx.put_view)
  then have "\<not> runtime_wf rc"
    using sbx.view_owns[of rc "[]" sb'] by (auto simp: runtime_wf_def named_def)
  then show ?thesis
    using f mv rc(1) look sb'(2) by (simp add: stop_sandbox_def)
qed

lemma sample_stop:
  "stop_pod_sandbox sample_env [] sample_cri =
     (fst (stop_pod_sandbox sample_env [] sample_cri), snd (stop_pod_sandbox sample_env [] sample_cri))"
  by simp

lemma stop_of_empty_name_breaks_table_witness:
  "\<exists>rc. run_callback sample_env (SandboxStopped []) (fst (stop_pod_sandbox sample_env [] sample_cri)) = Some rc \<and>
     \<not> runtime_wf rc"
  using stop_of_empty_name_breaks_table[OF sample_cri_wf _ sample_stop, of sample_env]
  by (auto simp: sample_cri_def add_container_def add_sandbox_def gm_store_def new_cri_def new_runtime_def)

end
