(* ===== verification/Http_Server.thy ===== *)
theory Http_Server
  imports Go_Text
begin

section \<open>Response writers and the server's middleware (pkg/server/server.go)\<close>

text \<open>
  What the program uses of \<open>net/http\<close>: a request with the fields the code reads, a response
  writer on which the first final status wins, and handlers. A handler is the list of calls it
  makes on its response writer; none of the handlers of the program reads the result of a call
  to decide on the next one. Header fields are not modelled.
\<close>

record http_request =
  rq_method :: string
  rq_host :: string
  rq_tls :: "string option"
  rq_path :: string

datatype action = WriteHeader nat | WriteBody string | Flush

type_synonym handler = "http_request \<Rightarrow> action list"

subsection \<open>The response writer of net/http\<close>

text \<open>
  A status below 200 other than 101 is informational: it is sent at once and does not count as
  the header. \<open>WriteHeader\<close> behind the header is ignored; the first write or flush sends 200.
  A response with status 204 or 304 takes no body.
\<close>

record http_writer =
  hw_status :: "nat option"
  hw_informational :: "nat list"
  hw_body :: string
  hw_flushes :: nat

definition fresh_writer :: http_writer where
  "fresh_writer = \<lparr>hw_status = None, hw_informational = [], hw_body = [], hw_flushes = 0\<rparr>"

definition final_status :: "nat \<Rightarrow> bool" where
  "final_status c \<longleftrightarrow> c = 101 \<or> 200 \<le> c"

definition body_allowed :: "nat \<Rightarrow> bool" where
  "body_allowed c \<longleftrightarrow> 200 \<le> c \<and> c \<noteq> 204 \<and> c \<noteq> 304"

definition hw_write_header :: "nat \<Rightarrow> http_writer \<Rightarrow> http_writer" where
  "hw_write_header c w =
     (if hw_status w \<noteq> None then w
      else if final_status c then w\<lparr>hw_status := Some c\<rparr>
      else w\<lparr>hw_informational := hw_informational w @ [c]\<rparr>)"

definition hw_write :: "string \<Rightarrow> http_writer \<Rightarrow> http_writer \<times> nat" where
  "hw_write b w =
     (let w1 = (if hw_status w = None then w\<lparr>hw_status := Some 200\<rparr> else w)
      in if body_allowed (the (hw_status w1)) then (w1\<lparr>hw_body := hw_body w1 @ b\<rparr>, length b)
         else (w1, 0))"

definition hw_flush :: "http_writer \<Rightarrow> http_writer" where
  "hw_flush w =
     (let w1 = (if hw_status w = None then w\<lparr>hw_status := Some 200\<rparr> else w)
      in w1\<lparr>hw_flushes := hw_flushes w1 + 1\<rparr>)"

subsection \<open>The interface\<close>

text \<open>
  What a handler may rely on, whatever writer it is given: the status the client gets is the
  first final one, or 200 when the first thing sent is a piece of the body or a flush; nothing
  sent later changes it.
\<close>

fun perform_on ::
  "(nat \<Rightarrow> 'w \<Rightarrow> 'w) \<Rightarrow> (string \<Rightarrow> 'w \<Rightarrow> 'w \<times> nat) \<Rightarrow> ('w \<Rightarrow> 'w) \<Rightarrow> action \<Rightarrow> 'w \<Rightarrow> 'w" where
  "perform_on wh wb fl (WriteHeader c) w = wh c w"
| "perform_on wh wb fl (WriteBody b) w = fst (wb b w)"
| "perform_on wh wb fl Flush w = fl w"

fun respond_on ::
  "(nat \<Rightarrow> 'w \<Rightarrow> 'w) \<Rightarrow> (string \<Rightarrow> 'w \<Rightarrow> 'w \<times> nat) \<Rightarrow> ('w \<Rightarrow> 'w) \<Rightarrow> action list \<Rightarrow> 'w \<Rightarrow> 'w" where
  "respond_on wh wb fl [] w = w"
| "respond_on wh wb fl (a # as) w = respond_on wh wb fl as (perform_on wh wb fl a w)"

locale response_writer =
  fixes write_header :: "nat \<Rightarrow> 'w \<Rightarrow> 'w"
    and write_body :: "string \<Rightarrow> 'w \<Rightarrow> 'w \<times> nat"
    and flush :: "'w \<Rightarrow> 'w"
    and committed :: "'w \<Rightarrow> nat option"
  assumes header_commits: "committed w = None \<Longrightarrow> final_status c \<Longrightarrow> committed (write_header c w) = Some c"
    and write_commits: "committed w = None \<Longrightarrow> committed (fst (write_body b w)) = Some 200"
    and flush_commits: "committed w = None \<Longrightarrow> committed (flush w) = Some 200"
    and header_keeps: "committed w = Some s \<Longrightarrow> committed (write_header c w) = Some s"
    and write_keeps: "committed w = Some s \<Longrightarrow> committed (fst (write_body b w)) = Some s"
    and flush_keeps: "committed w = Some s \<Longrightarrow> committed (flush w) = Some s"
begin

lemma perform_keeps:
  "committed w = Some s \<Longrightarrow> committed (perform_on write_header write_body flush a w) = Some s"
  by (cases a) (simp_all add: header_keeps write_keeps flush_keeps)

lemma respond_keeps:
  "committed w = Some s \<Longrightarrow> committed (respond_on write_header write_body flush as w) = Some s"
  by (induction as arbitrary: w) (simp_all add: perform_keeps)

text \<open>The first thing a handler sends decides the status.\<close>

lemma respond_status:
  assumes "committed w = None" "as \<noteq> []" "\<And>c. hd as = WriteHeader c \<Longrightarrow> final_status c"
  shows "committed (respond_on write_header write_body flush as w) =
    Some (case hd as of WriteHeader c \<Rightarrow> c | _ \<Rightarrow> 200)"
  using assms
  by (cases as; cases "hd as")
    (auto intro!: respond_keeps simp: header_commits write_commits flush_commits)

end

interpretation hw: response_writer hw_write_header hw_write hw_flush hw_status
  by unfold_locales (auto simp: hw_write_header_def hw_write_def hw_flush_def Let_def)

definition hw_respond :: "action list \<Rightarrow> http_writer \<Rightarrow> http_writer" where
  "hw_respond = respond_on hw_write_header hw_write hw_flush"

subsection \<open>loggingResponseWriter\<close>

text \<open>\<open>lw_status\<close> is 0 until the writer has seen a status; \<open>w\<close> is the writer it wraps.\<close>

record logging_writer =
  lw_inner :: http_writer
  lw_status :: nat
  lw_size :: nat

definition new_logging_writer :: "http_writer \<Rightarrow> logging_writer" where
  "new_logging_writer w = \<lparr>lw_inner = w, lw_status = 0, lw_size = 0\<rparr>"

definition lw_written :: "logging_writer \<Rightarrow> bool" where
  "lw_written l \<longleftrightarrow> lw_status l \<noteq> 0"

definition lw_write_header :: "nat \<Rightarrow> logging_writer \<Rightarrow> logging_writer" where
  "lw_write_header c l =
     (if lw_written l then l
      else l\<lparr>lw_status := c, lw_inner := hw_write_header c (lw_inner l)\<rparr>)"

definition lw_write :: "string \<Rightarrow> logging_writer \<Rightarrow> logging_writer \<times> nat" where
  "lw_write b l =
     (let l1 = (if \<not> lw_written l then (lw_write_header 200 l)\<lparr>lw_status := 200\<rparr> else l);
          (w, n) = hw_write b (lw_inner l1)
      in (l1\<lparr>lw_inner := w, lw_size := lw_size l1 + n\<rparr>, n))"

text \<open>The writer of \<open>net/http\<close> is a \<open>Flusher\<close>.\<close>

definition lw_flush :: "logging_writer \<Rightarrow> logging_writer" where
  "lw_flush l =
     (let l1 = (if \<not> lw_written l then (lw_write_header 200 l)\<lparr>lw_status := 200\<rparr> else l)
      in l1\<lparr>lw_inner := hw_flush (lw_inner l1)\<rparr>)"

definition lw_committed :: "logging_writer \<Rightarrow> nat option" where
  "lw_committed l = (if lw_written l then Some (lw_status l) else None)"

interpretation lw: response_writer lw_write_header lw_write lw_flush lw_committed
  by unfold_locales
    (auto simp: lw_write_header_def lw_write_def lw_flush_def lw_committed_def lw_written_def
      final_status_def Let_def split: if_splits prod.split)

definition lw_respond :: "action list \<Rightarrow> logging_writer \<Rightarrow> logging_writer" where
  "lw_respond = respond_on lw_write_header lw_write lw_flush"

subsection \<open>WithLogging and WithMatchingHost\<close>

definition http_error :: "string \<Rightarrow> nat \<Rightarrow> action list" where
  "http_error msg code = [WriteHeader code, WriteBody (msg @ [char_of (10 :: nat)])]"

definition with_matching_host :: "handler \<Rightarrow> string \<Rightarrow> handler" where
  "with_matching_host h n req =
     (let nh = n @ '':443''
      in if n = [] then http_error [] 500
         else case rq_tls req of
           None \<Rightarrow> http_error [] 502
         | Some sni \<Rightarrow>
             if sni \<noteq> n then http_error [] 502
             else if \<not> (rq_host req = n \<or> rq_host req = nh) then http_error [] 502
             else h req)"

datatype log_level = LevelDebug | LevelInfo

definition log_level_of :: "nat \<Rightarrow> log_level" where
  "log_level_of c = (if c = 200 \<or> c = 204 \<or> c = 0 then LevelDebug else LevelInfo)"

record access_log =
  al_level :: log_level
  al_sni :: string
  al_host :: string
  al_status :: nat
  al_size :: nat

text \<open>
  The writer after the handler, and the line that is logged: \<open>None\<close> when reading the server name
  of a request without TLS panics.
\<close>

definition with_logging :: "handler \<Rightarrow> http_request \<Rightarrow> http_writer \<Rightarrow> http_writer \<times> access_log option" where
  "with_logging h req w =
     (let l = lw_respond (h req) (new_logging_writer w)
      in (lw_inner l,
          map_option (\<lambda>sni. \<lparr>al_level = log_level_of (lw_status l), al_sni = sni,
            al_host = rq_host req, al_status = lw_status l, al_size = lw_size l\<rparr>) (rq_tls req)))"

subsection \<open>The wrapper is transparent\<close>

definition final_action :: "action \<Rightarrow> bool" where
  "final_action a \<longleftrightarrow> (case a of WriteHeader c \<Rightarrow> final_status c | _ \<Rightarrow> True)"

text \<open>The logged status and size are those of the wrapped writer, which has behaved as without the wrapper.\<close>

definition tracks :: "logging_writer \<Rightarrow> bool" where
  "tracks l \<longleftrightarrow> lw_status l = (case hw_status (lw_inner l) of None \<Rightarrow> 0 | Some c \<Rightarrow> c) \<and>
     hw_status (lw_inner l) \<noteq> Some 0"

lemma perform_tracks:
  assumes "tracks l" "final_action a"
  shows "tracks (perform_on lw_write_header lw_write lw_flush a l) \<and> lw_inner (perform_on lw_write_header lw_write lw_flush a l) = perform_on hw_write_header hw_write hw_flush a (lw_inner l) \<and>
    lw_size (perform_on lw_write_header lw_write lw_flush a l) + length (hw_body (lw_inner l)) =
      lw_size l + length (hw_body (lw_inner (perform_on lw_write_header lw_write lw_flush a l)))"
  using assms
  by (cases a)
    (auto simp: tracks_def lw_write_header_def lw_write_def lw_flush_def hw_write_header_def
      hw_write_def hw_flush_def final_action_def final_status_def lw_written_def Let_def
      split: option.splits)

lemma respond_tracks:
  assumes "tracks l" "list_all final_action as"
  shows "tracks (lw_respond as l) \<and> lw_inner (lw_respond as l) = hw_respond as (lw_inner l) \<and>
    lw_size (lw_respond as l) + length (hw_body (lw_inner l)) =
      lw_size l + length (hw_body (lw_inner (lw_respond as l)))"
  using assms
proof (induction as arbitrary: l)
  case (Cons a as)
  have a: "tracks (perform_on lw_write_header lw_write lw_flush a l)" "lw_inner (perform_on lw_write_header lw_write lw_flush a l) = perform_on hw_write_header hw_write hw_flush a (lw_inner l)"
    "lw_size (perform_on lw_write_header lw_write lw_flush a l) + length (hw_body (lw_inner l)) =
      lw_size l + length (hw_body (lw_inner (perform_on lw_write_header lw_write lw_flush a l)))"
    using perform_tracks[OF Cons.prems(1), of a] Cons.prems(2) by auto
  have "list_all final_action as"
    using Cons.prems(2) by simp
  from Cons.IH[OF a(1) this] a show ?case
    by (auto simp: lw_respond_def hw_respond_def)
qed (simp add: lw_respond_def hw_respond_def)

lemma tracks_fresh: "tracks (new_logging_writer fresh_writer)"
  by (simp add: tracks_def new_logging_writer_def fresh_writer_def)

subsection \<open>Properties\<close>


definition sample_http_request :: http_request where
  "sample_http_request = \<lparr>rq_method = ''GET'', rq_host = ''h:443'', rq_tls = Some ''h'', rq_path = ''/''\<rparr>"


text \<open>
  Behind \<open>WithLogging(WithMatchingHost(h, n))\<close> the handler decides the response exactly when
  the request came over TLS for the server name \<open>n\<close> and its \<open>Host\<close> is \<open>n\<close> or \<open>n:443\<close>. Every
  other request gets a bare 502 (500 when no name is configured), whatever \<open>h\<close> is, and one that
  did not come over TLS makes the logging panic after that.
\<close>

lemma only_matching_hosts_reach_the_handler:
  "with_logging (with_matching_host h n) req fresh_writer =
     (if n \<noteq> [] \<and> rq_tls req = Some n \<and> (rq_host req = n \<or> rq_host req = n @ '':443'')
      then with_logging h req fresh_writer
      else (\<lparr>hw_status = Some (if n = [] then 500 else 502), hw_informational = [],
             hw_body = [char_of (10 :: nat)], hw_flushes = 0\<rparr>,
            map_option (\<lambda>sni. \<lparr>al_level = LevelInfo, al_sni = sni, al_host = rq_host req,
              al_status = (if n = [] then 500 else 502), al_size = 1\<rparr>) (rq_tls req)))"
proof -
  have err: "with_logging (\<lambda>_. http_error [] c) req fresh_writer =
      (\<lparr>hw_status = Some c, hw_informational = [], hw_body = [char_of (10 :: nat)], hw_flushes = 0\<rparr>,
       map_option (\<lambda>sni. \<lparr>al_level = LevelInfo, al_sni = sni, al_host = rq_host req,
         al_status = c, al_size = 1\<rparr>) (rq_tls req))" if "c = 500 \<or> c = 502" for c
    using that by (auto simp: with_logging_def http_error_def Let_def new_logging_writer_def lw_respond_def
        lw_write_header_def lw_write_def lw_written_def hw_write_header_def hw_write_def
        fresh_writer_def final_status_def body_allowed_def log_level_of_def)
  have same: "with_logging g req w = with_logging g' req w" if "g req = g' req" for g g' w
    using that by (simp add: with_logging_def)
  show ?thesis
    using same[of "with_matching_host h n" h]
      same[of "with_matching_host h n" "\<lambda>_. http_error [] 500"]
      same[of "with_matching_host h n" "\<lambda>_. http_error [] 502"] err[of 500] err[of 502]
    by (auto simp: with_matching_host_def Let_def split: option.splits)
qed

end
