(* ===== verification/Go_Net.thy ===== *)
theory Go_Net
  imports Go_Text
begin

section \<open>Hosts and ports (packages net and net/url)\<close>

text \<open>
  What the code uses of \<open>net/url\<close> and \<open>net\<close>: \<open>Hostname\<close>, \<open>Port\<close> and \<open>JoinHostPort\<close>. The host
  is split at its last colon if nothing but digits follows; brackets around the rest go.
\<close>

definition colon :: char where
  "colon = CHR '':''"

definition split_last :: "char \<Rightarrow> string \<Rightarrow> (string \<times> string) option" where
  "split_last c s =
     (if c \<in> set s
      then Some (rev (tl (dropWhile (\<lambda>x. x \<noteq> c) (rev s))), rev (takeWhile (\<lambda>x. x \<noteq> c) (rev s)))
      else None)"

definition strip_brackets :: "string \<Rightarrow> string" where
  "strip_brackets h =
     (if has_prefix h ''['' \<and> has_suffix h '']'' then butlast (tl h) else h)"

definition split_host_port :: "string \<Rightarrow> string \<times> string" where
  "split_host_port hp =
     (case split_last colon hp of
        Some (h, p) \<Rightarrow> if list_all is_digit p then (strip_brackets h, p) else (strip_brackets hp, [])
      | None \<Rightarrow> (strip_brackets hp, []))"

definition join_host_port :: "string \<Rightarrow> string \<Rightarrow> string" where
  "join_host_port h p =
     (if colon \<in> set h then ''['' @ h @ '']:'' @ p else h @ '':'' @ p)"

subsection \<open>Host names\<close>

text \<open>A host name without colon or opening bracket, as the control plane uses them.\<close>

definition plain_host :: "string \<Rightarrow> bool" where
  "plain_host h \<longleftrightarrow> colon \<notin> set h \<and> (h = [] \<or> hd h \<noteq> CHR ''['')"

lemma split_last_append: "c \<notin> set p \<Longrightarrow> split_last c (h @ c # p) = Some (h, p)"
proof -
  assume "c \<notin> set p"
  then have *: "\<forall>x \<in> set (rev p). x \<noteq> c"
    by auto
  have "dropWhile (\<lambda>x. x \<noteq> c) (rev p @ c # rev h) = c # rev h"
    "takeWhile (\<lambda>x. x \<noteq> c) (rev p @ c # rev h) = rev p"
    using * dropWhile_append2[of "rev p" "\<lambda>x. x \<noteq> c" "c # rev h"]
      takeWhile_append2[of "rev p" "\<lambda>x. x \<noteq> c" "c # rev h"] by simp_all
  then show ?thesis
    by (simp add: split_last_def)
qed

lemma split_last_none: "c \<notin> set s \<Longrightarrow> split_last c s = None"
  by (simp add: split_last_def)

lemma strip_plain: "plain_host h \<Longrightarrow> strip_brackets h = h"
  by (cases h) (auto simp: strip_brackets_def plain_host_def has_prefix_def)

lemma digits_no_colon: "list_all is_digit p \<Longrightarrow> colon \<notin> set p"
  by (auto simp: list_all_iff is_digit_def colon_def)

lemma split_plain [simp]: "plain_host h \<Longrightarrow> split_host_port h = (h, [])"
  by (simp add: split_host_port_def split_last_none strip_plain plain_host_def)

lemma split_plain_port:
  "plain_host h \<Longrightarrow> list_all is_digit p \<Longrightarrow> split_host_port (h @ colon # p) = (h, p)"
  by (simp add: split_host_port_def split_last_append digits_no_colon strip_plain)

end
