(* ===== verification/Frontend.thy ===== *)
theory Frontend
  imports Http_Server Keyed_Store Go_Net
begin

section \<open>The frontend proxy (pkg/frontend/server.go)\<close>

text \<open>
  The frontend dispatches CONNECT requests to the backends that have been registered, by the
  host of the request: the connection is hijacked and put into the queue of the backend, whose
  own HTTP server accepts it from there.
\<close>

text \<open>\<open>backendKey\<close>: \<open>None\<close> is the error for another port than 443.\<close>

definition backend_key :: "string \<Rightarrow> string option" where
  "backend_key host =
     (let (h, p0) = split_host_port host; p = (if p0 = [] then ''443'' else p0)
      in if p \<noteq> ''443'' then None else Some (join_host_port h p))"

subsection \<open>Backends\<close>

text \<open>
  \<open>be_conns\<close> is the channel \<open>cs\<close> with its five places; \<open>be_host\<close> the host of the server name the
  backend was registered with. Connections and handlers are named by numbers.
\<close>

record backend =
  be_key :: string
  be_host :: string
  be_handler :: nat
  be_conns :: "nat list"
  be_closed :: bool

record backend_server =
  bs_host :: string
  bs_handler :: nat

record frontend =
  fe_backends :: "(string, backend) gomap"

definition new_frontend :: frontend where
  "new_frontend = \<lparr>fe_backends = []\<rparr>"

definition backend_for :: "string \<Rightarrow> frontend \<Rightarrow> backend option" where
  "backend_for k f = map_of (fe_backends f) k"

definition put_backend :: "string \<Rightarrow> backend \<Rightarrow> frontend \<Rightarrow> frontend" where
  "put_backend k b f = f\<lparr>fe_backends := gm_store k b (fe_backends f)\<rparr>"

datatype register_error = InvalidPort | ServerExists

definition register_one :: "backend_server \<Rightarrow> frontend \<Rightarrow> frontend \<times> register_error option" where
  "register_one o' f =
     (case backend_key (bs_host o') of
        None \<Rightarrow> (f, Some InvalidPort)
      | Some bk \<Rightarrow>
          if backend_for bk f \<noteq> None then (f, Some ServerExists)
          else (put_backend bk \<lparr>be_key = bk, be_host = bs_host o', be_handler = bs_handler o',
                  be_conns = [], be_closed = False\<rparr> f, None))"

text \<open>The first error ends the registration; what was registered before stays.\<close>

fun register :: "backend_server list \<Rightarrow> frontend \<Rightarrow> frontend \<times> register_error option" where
  "register [] f = (f, None)"
| "register (b # bs) f =
     (case register_one b f of
        (f', Some e) \<Rightarrow> (f', Some e)
      | (f', None) \<Rightarrow> register bs f')"

text \<open>
  \<open>AddConn\<close> is a select with a default branch: the connection is taken when the channel has a
  place, and refused at once when it has none. \<open>Accept\<close> waits while the channel is empty.
\<close>

definition add_conn :: "nat \<Rightarrow> backend \<Rightarrow> backend \<times> bool" where
  "add_conn c b =
     (if length (be_conns b) < 5 then (b\<lparr>be_conns := be_conns b @ [c]\<rparr>, True) else (b, False))"

definition accept_conn :: "backend \<Rightarrow> (nat \<times> backend) option" where
  "accept_conn b =
     (case be_conns b of [] \<Rightarrow> None | c # cs \<Rightarrow> Some (c, b\<lparr>be_conns := cs\<rparr>))"

definition close_backend :: "backend \<Rightarrow> backend \<times> bool" where
  "close_backend b = (b\<lparr>be_closed := True\<rparr>, \<not> be_closed b)"

subsection \<open>ServeHTTP\<close>

text \<open>
  A CONNECT request: whether its writer can be hijacked, whether hijacking succeeds, the
  connection it yields and whether closing that connection succeeds.
\<close>

record connect_request =
  cn_method :: string
  cn_host :: string
  cn_hijacker :: bool
  cn_hijack_ok :: bool
  cn_conn :: nat
  cn_close_ok :: bool

text \<open>What the frontend does with the connection itself.\<close>

datatype conn_action = ConnWrite nat string | ConnClose nat

definition crlf :: string where
  "crlf = [char_of (13 :: nat), char_of (10 :: nat)]"

definition connected :: string where
  "connected = ''HTTP/1.1 200 Connected'' @ crlf @ crlf"

definition serve_http ::
  "connect_request \<Rightarrow> frontend \<Rightarrow> frontend \<times> action list \<times> conn_action list" where
  "serve_http r f =
     (if cn_method r \<noteq> ''CONNECT'' then (f, http_error ''only CONNECT requests allowed'' 405, [])
      else if \<not> cn_hijacker r then (f, http_error ''hijacking not supported'' 500, [])
      else case backend_key (cn_host r) of
        None \<Rightarrow> (f, http_error ''bad proxy host'' 400, [])
      | Some k \<Rightarrow>
          (case backend_for k f of
             None \<Rightarrow> (f, http_error ''proxy host not found'' 502, [])
           | Some b \<Rightarrow>
               if \<not> cn_hijack_ok r then (f, http_error ''hijack'' 500, [])
               else
                 (case add_conn (cn_conn r) b of
                    (b', True) \<Rightarrow> (put_backend k b' f, [], [ConnWrite (cn_conn r) connected])
                  | (b', False) \<Rightarrow>
                      if \<not> cn_close_ok r then (f, [], [ConnClose (cn_conn r)])
                      else (f, [], [ConnClose (cn_conn r), ConnWrite (cn_conn r) connected]))))"

text \<open>The server of the backend under a key takes a connection.\<close>

definition accept_at :: "string \<Rightarrow> frontend \<Rightarrow> (nat \<times> frontend) option" where
  "accept_at k f =
     (case backend_for k f of
        None \<Rightarrow> None
      | Some b \<Rightarrow> map_option (\<lambda>(c, b'). (c, put_backend k b' f)) (accept_conn b))"

text \<open>The handler chain of \<open>serve\<close>, with the handlers a frontend was configured with.\<close>

definition backend_chain :: "(nat \<Rightarrow> handler) \<Rightarrow> backend \<Rightarrow> http_request \<Rightarrow> http_writer \<times> access_log option" where
  "backend_chain hs b req =
     with_logging (with_matching_host (hs (be_handler b)) (fst (split_host_port (be_host b)))) req fresh_writer"

text \<open>
  \<open>Run\<close> starts a server for every backend and one for the socket, and waits for them as a group. A server ends with the first
  error of its listener's \<open>Accept\<close>, or at once if it has no certificate: \<open>None\<close> has not ended, \<open>Some e\<close> has returned \<open>e\<close>. The
  \<open>Accept\<close> of a backend returns connections only. \<open>has_cert\<close> tells whether a backend was registered with a certificate, \<open>listen\<close> and \<open>serve\<close> are what listening on the socket and serving there return, \<open>wait\<close> is the \<open>Wait\<close> of the
  group.
\<close>

definition accept_error :: "backend \<Rightarrow> string option" where
  "accept_error b = None"

definition serve_backend :: "(backend \<Rightarrow> bool) \<Rightarrow> backend \<Rightarrow> string option option" where
  "serve_backend has_cert b =
     (if \<not> has_cert b then Some (Some ''open : no such file or directory'') else map_option Some (accept_error b))"

definition run_frontend ::
  "(string option option list \<Rightarrow> string option option) \<Rightarrow> (string \<Rightarrow> string option) \<Rightarrow> (string \<Rightarrow> string option option) \<Rightarrow>
     (backend \<Rightarrow> bool) \<Rightarrow> string \<Rightarrow> frontend \<Rightarrow> string option option" where
  "run_frontend wait listen serve has_cert sock f =
     wait (map (\<lambda>(k, b). serve_backend has_cert b) (fe_backends f) @
       [case listen sock of Some e \<Rightarrow> Some (Some e) | None \<Rightarrow> serve sock])"

text \<open>What \<open>Wait\<close> is documented to do: it blocks until all have returned.\<close>

definition waits_for_all :: "('e option option list \<Rightarrow> 'e option option) \<Rightarrow> bool" where
  "waits_for_all wait \<longleftrightarrow> (\<forall>xs. None \<in> set xs \<longrightarrow> wait xs = None)"

fun wait_all :: "'e option option list \<Rightarrow> 'e option option" where
  "wait_all [] = Some None"
| "wait_all (x # xs) =
     (case (x, wait_all xs) of (Some e, Some e') \<Rightarrow> Some (if e = None then e' else e) | _ \<Rightarrow> None)"

lemma wait_all_waits: "waits_for_all wait_all"
proof -
  have "None \<in> set xs \<Longrightarrow> wait_all xs = None" for xs :: "'a option option list"
    by (induction xs) (auto split: option.splits)
  then show ?thesis
    by (simp add: waits_for_all_def)
qed

lemma run_frontend_stays: "waits_for_all wait \<Longrightarrow> backend_for k f = Some b \<Longrightarrow> has_cert b \<Longrightarrow>
     run_frontend wait listen serve has_cert sock f = None"
proof -
  assume "waits_for_all wait" "backend_for k f = Some b" "has_cert b"
  moreover from this have "None \<in> (\<lambda>(k, b). serve_backend has_cert b) ` set (fe_backends f)"
    by (force simp: backend_for_def serve_backend_def accept_error_def dest: map_of_SomeD intro: rev_image_eqI)
  ultimately show ?thesis
    by (simp add: run_frontend_def waits_for_all_def)
qed

subsection \<open>The invariant and the store\<close>

definition backend_ok :: "string \<Rightarrow> backend \<Rightarrow> bool" where
  "backend_ok k b \<longleftrightarrow> be_key b = k \<and> backend_key (be_host b) = Some k \<and> length (be_conns b) \<le> 5"

definition frontend_wf :: "frontend \<Rightarrow> bool" where
  "frontend_wf f \<longleftrightarrow> table_wf (\<lambda>_. True) backend_ok (fe_backends f)"

interpretation bes: keyed_lookup "\<lambda>_::unit. backend_for" put_backend "\<lambda>f k. backend_for k f"
  "\<lambda>_. True" backend_ok frontend_wf
proof unfold_locales
  fix f k b assume "frontend_wf f" "backend_for k f = Some b"
  then show "True \<and> backend_ok k b"
    unfolding frontend_wf_def backend_for_def by (rule table_wf_lookup)
qed (simp_all add: backend_for_def put_backend_def frontend_wf_def map_simps table_wf_store fun_eq_iff)

lemma frontend_wf_new [simp]: "frontend_wf new_frontend"
  by (simp add: frontend_wf_def new_frontend_def)

lemma backend_for_put [simp]: "frontend_wf f \<Longrightarrow>
    backend_for j (put_backend k b f) = (if j = k then Some b else backend_for j f)"
  using bes.put_view[of f k b] by (simp add: fun_eq_iff)

lemma register_one_wf:
  assumes "frontend_wf f"
  shows "frontend_wf (fst (register_one b f))"
proof (cases "backend_key (bs_host b)")
  case (Some k)
  let ?b = "\<lparr>be_key = k, be_host = bs_host b, be_handler = bs_handler b, be_conns = [], be_closed = False\<rparr>"
  have "frontend_wf (put_backend k ?b f)"
    using Some by (intro bes.put_inv[OF assms]) (simp_all add: backend_ok_def)
  then show ?thesis
    using Some assms by (simp add: register_one_def)
qed (simp add: register_one_def assms)

lemma register_Cons:
  "register (b # bs) f =
     (if snd (register_one b f) = None then register bs (fst (register_one b f)) else register_one b f)"
  by (auto split: prod.split option.split)

lemma register_wf: "frontend_wf f \<Longrightarrow> frontend_wf (fst (register bs f))"
proof (induction bs arbitrary: f)
  case (Cons b bs)
  then have "frontend_wf (fst (register_one b f))"
    by (intro register_one_wf)
  then show ?case
    using Cons.IH by (simp only: register_Cons split: if_split) simp
qed simp

lemma backend_for_ok: "frontend_wf f \<Longrightarrow> backend_for k f = Some b \<Longrightarrow> backend_ok k b"
  using bes.view_owns by blast

lemma add_conn_ok: "backend_ok k b \<Longrightarrow> backend_ok k (fst (add_conn c b))"
  by (simp add: add_conn_def backend_ok_def)

lemma accept_conn_ok: "backend_ok k b \<Longrightarrow> accept_conn b = Some (c, b') \<Longrightarrow> backend_ok k b'"
  by (auto simp: accept_conn_def backend_ok_def split: list.splits)

text \<open>A request changes the frontend only by putting its connection into a queue.\<close>

lemma serve_http_state:
  "fst (serve_http r f) = f \<or>
   (\<exists>k b. cn_method r = ''CONNECT'' \<and> backend_key (cn_host r) = Some k \<and> backend_for k f = Some b \<and>
      snd (add_conn (cn_conn r) b) \<and>
      serve_http r f = (put_backend k (fst (add_conn (cn_conn r) b)) f, [], [ConnWrite (cn_conn r) connected]))"
  by (simp add: serve_http_def split: option.split prod.split bool.split)

lemma serve_http_wf:
  assumes "frontend_wf f"
  shows "frontend_wf (fst (serve_http r f))"
  using serve_http_state[of r f] assms bes.put_inv[OF assms] backend_for_ok[OF assms] add_conn_ok
  by fastforce

lemma accept_at_wf:
  assumes "frontend_wf f" "accept_at k f = Some (c, f')"
  shows "frontend_wf f'"
proof -
  obtain b b' where b: "backend_for k f = Some b" "accept_conn b = Some (c, b')" "f' = put_backend k b' f"
    using assms(2) by (auto simp: accept_at_def split: option.splits)
  show ?thesis
    unfolding b(3) using accept_conn_ok[OF backend_for_ok[OF assms(1) b(1)] b(2)]
    by (intro bes.put_inv[OF assms(1)]) simp_all
qed


subsection \<open>Keys\<close>

lemma backend_key_plain: "plain_host h \<Longrightarrow> backend_key h = Some (h @ '':443'')"
  by (simp add: backend_key_def join_host_port_def plain_host_def)

lemma backend_key_plain_port: "plain_host h \<Longrightarrow> backend_key (h @ '':443'') = Some (h @ '':443'')"
  using split_plain_port[of h "''443''"]
  by (simp add: backend_key_def join_host_port_def plain_host_def is_digit_def colon_def)

text \<open>
  Host names with and without the port name the same backend, and no other port is served:
  for a plain host name the keys of \<open>h\<close> and \<open>h:443\<close> are both \<open>h:443\<close>, and every other port is an
  error.
\<close>

lemma backend_key_ignores_default_port:
  assumes "plain_host h" "list_all is_digit p"
  shows "backend_key (h @ colon # p) = (if p = [] \<or> p = ''443'' then backend_key h else None) \<and>
    backend_key h = Some (h @ '':443'')"
  using assms split_plain_port[OF assms] backend_key_plain[OF assms(1)]
  by (auto simp: backend_key_def join_host_port_def plain_host_def Let_def)

subsection \<open>Registration\<close>

definition fresh_backend :: "string \<Rightarrow> backend_server \<Rightarrow> backend" where
  "fresh_backend k b =
     \<lparr>be_key = k, be_host = bs_host b, be_handler = bs_handler b, be_conns = [], be_closed = False\<rparr>"

lemma register_one_key:
  "backend_key (bs_host b) = Some k \<Longrightarrow>
     register_one b f = (if backend_for k f = None then (put_backend k (fresh_backend k b) f, None)
       else (f, Some ServerExists))"
  by (simp add: register_one_def fresh_backend_def)




subsection \<open>No connection is lost or misdirected\<close>

datatype frontend_event = Connect connect_request | Accept string

text \<open>
  A run of the frontend: its state, the connections it has queued and told that they are
  connected, and those its backends have accepted, each with the key of the backend.
\<close>

record frontend_run =
  fr_state :: frontend
  fr_queued :: "(string \<times> nat) list"
  fr_accepted :: "(string \<times> nat) list"

definition queued_key :: "connect_request \<Rightarrow> conn_action list \<Rightarrow> (string \<times> nat) list" where
  "queued_key r cs =
     (case (backend_key (cn_host r), cs) of
        (Some k, [ConnWrite c m]) \<Rightarrow> [(k, c)]
      | _ \<Rightarrow> [])"

fun frontend_step :: "frontend_event \<Rightarrow> frontend_run \<Rightarrow> frontend_run" where
  "frontend_step (Connect r) t =
     (case serve_http r (fr_state t) of (f', as, cs) \<Rightarrow>
        t\<lparr>fr_state := f', fr_queued := fr_queued t @ queued_key r cs\<rparr>)"
| "frontend_step (Accept k) t =
     (case accept_at k (fr_state t) of
        None \<Rightarrow> t
      | Some (c, f') \<Rightarrow> t\<lparr>fr_state := f', fr_accepted := fr_accepted t @ [(k, c)]\<rparr>)"

definition queue_at :: "string \<Rightarrow> frontend \<Rightarrow> nat list" where
  "queue_at k f = (case backend_for k f of None \<Rightarrow> [] | Some b \<Rightarrow> be_conns b)"

definition conns_of :: "string \<Rightarrow> (string \<times> nat) list \<Rightarrow> nat list" where
  "conns_of k l = map snd (filter (\<lambda>e. fst e = k) l)"

definition delivered :: "frontend_run \<Rightarrow> bool" where
  "delivered t \<longleftrightarrow> frontend_wf (fr_state t) \<and>
     (\<forall>k. conns_of k (fr_queued t) = conns_of k (fr_accepted t) @ queue_at k (fr_state t))"

lemma conns_of_simps [simp]:
  "conns_of k [] = []" "conns_of k (xs @ ys) = conns_of k xs @ conns_of k ys"
  "conns_of k [(j, c)] = (if j = k then [c] else [])"
  by (simp_all add: conns_of_def)

text \<open>The three outcomes of a request for the queues.\<close>

lemma serve_http_cases:
  obtains (same) "fst (serve_http r f) = f" "queued_key r (snd (snd (serve_http r f))) = []"
  | (queued) k b where "backend_for k f = Some b" "length (be_conns b) < 5"
      "fst (serve_http r f) = put_backend k (b\<lparr>be_conns := be_conns b @ [cn_conn r]\<rparr>) f"
      "queued_key r (snd (snd (serve_http r f))) = [(k, cn_conn r)]"
proof (cases "\<exists>k b. cn_method r = ''CONNECT'' \<and> cn_hijacker r \<and> cn_hijack_ok r \<and>
    backend_key (cn_host r) = Some k \<and> backend_for k f = Some b \<and> length (be_conns b) < 5")
  case True
  then obtain k b where kb: "cn_method r = ''CONNECT''" "cn_hijacker r" "cn_hijack_ok r"
    "backend_key (cn_host r) = Some k" "backend_for k f = Some b" "length (be_conns b) < 5"
    by blast
  then show ?thesis
    by (intro queued[of k b]) (simp_all add: serve_http_def add_conn_def queued_key_def)
next
  case False
  then show ?thesis
    by (intro same)
      (auto simp: serve_http_def add_conn_def queued_key_def split: option.splits list.splits if_splits)
qed

lemma queue_at_put [simp]: "frontend_wf f \<Longrightarrow>
    queue_at j (put_backend k b f) = (if j = k then be_conns b else queue_at j f)"
  by (simp add: queue_at_def)

lemma delivered_step:
  assumes "delivered t"
  shows "delivered (frontend_step ev t)"
proof (cases ev)
  case (Connect r)
  let ?f = "fr_state t"
  have wf: "frontend_wf ?f" and wf': "frontend_wf (fst (serve_http r ?f))"
    using assms serve_http_wf by (auto simp: delivered_def)
  have step: "frontend_step ev t = t\<lparr>fr_state := fst (serve_http r ?f),
      fr_queued := fr_queued t @ queued_key r (snd (snd (serve_http r ?f)))\<rparr>"
    using Connect by (simp split: prod.split)
  show ?thesis
  proof (rule serve_http_cases[of r ?f])
    assume *: "fst (serve_http r ?f) = ?f" "queued_key r (snd (snd (serve_http r ?f))) = []"
    then show ?thesis
      unfolding step * using assms by (simp add: delivered_def)
  next
    fix k b
    assume *: "backend_for k ?f = Some b" "length (be_conns b) < 5"
      "fst (serve_http r ?f) = put_backend k (b\<lparr>be_conns := be_conns b @ [cn_conn r]\<rparr>) ?f"
      "queued_key r (snd (snd (serve_http r ?f))) = [(k, cn_conn r)]"
    have "queue_at k ?f = be_conns b"
      using *(1) by (simp add: queue_at_def)
    then show ?thesis
      using assms wf wf' unfolding step *(3,4) by (auto simp: delivered_def)
  qed
next
  case (Accept k)
  show ?thesis
  proof (cases "accept_at k (fr_state t)")
    case None
    then show ?thesis using Accept assms by simp
  next
    case (Some cf)
    then obtain c f' where cf: "accept_at k (fr_state t) = Some (c, f')" by (cases cf) auto
    then obtain b b' where b: "backend_for k (fr_state t) = Some b" "accept_conn b = Some (c, b')"
        "f' = put_backend k b' (fr_state t)"
      by (auto simp: accept_at_def split: option.splits)
    then have "be_conns b = c # be_conns b'" "queue_at k (fr_state t) = be_conns b"
      by (auto simp: accept_conn_def queue_at_def split: list.splits)
    moreover have "frontend_wf f'"
      using assms cf accept_at_wf by (auto simp: delivered_def)
    ultimately show ?thesis
      using assms Accept cf b(3) by (auto simp: delivered_def)
  qed
qed

text \<open>
  C28. From any well-formed frontend whose queues are empty, through any sequence of requests and
  accepts: the connections a backend has accepted followed by those still in its queue are, in
  this order, exactly the connections that were queued for its key, so none is lost, duplicated,
  reordered or given to another backend; and no queue ever holds more than five.
\<close>

theorem connections_are_delivered_in_order:
  assumes "frontend_wf f" "\<forall>k. queue_at k f = []"
  shows "let t = fold frontend_step evs \<lparr>fr_state = f, fr_queued = [], fr_accepted = []\<rparr>
    in conns_of k (fr_queued t) = conns_of k (fr_accepted t) @ queue_at k (fr_state t) \<and>
       length (queue_at k (fr_state t)) \<le> 5"
proof -
  have "delivered t \<Longrightarrow> delivered (fold frontend_step evs t)" for t
    by (induction evs arbitrary: t) (simp_all add: delivered_step)
  then have d: "delivered (fold frontend_step evs \<lparr>fr_state = f, fr_queued = [], fr_accepted = []\<rparr>)"
    using assms by (simp add: delivered_def)
  then have "length (queue_at k (fr_state (fold frontend_step evs
      \<lparr>fr_state = f, fr_queued = [], fr_accepted = []\<rparr>))) \<le> 5"
    using backend_for_ok by (auto simp: delivered_def queue_at_def backend_ok_def split: option.split)
  with d show ?thesis
    by (simp add: delivered_def Let_def)
qed

lemma connections_are_delivered_in_order_witness:
  "conns_of ''a:443'' (fr_queued (fold frontend_step [] \<lparr>fr_state =
     fst (register [\<lparr>bs_host = ''a'', bs_handler = 0\<rparr>] new_frontend), fr_queued = [], fr_accepted = []\<rparr>)) = []"
proof -
  let ?f = "fst (register [\<lparr>bs_host = ''a'', bs_handler = 0\<rparr>] new_frontend)"
  have "frontend_wf ?f"
    by (rule register_wf[OF frontend_wf_new])
  moreover have "\<forall>k. queue_at k ?f = []"
    using backend_key_plain[of "''a''"]
    by (simp add: plain_host_def colon_def register_one_key queue_at_def fresh_backend_def
        new_frontend_def backend_for_def put_backend_def gm_store_def)
  ultimately show ?thesis
    using connections_are_delivered_in_order[of ?f "[]" "''a:443''"] by simp
qed

text \<open>
  C29. A proxied request reaches the handler of its host: after a server was registered under a
  plain host name \<open>n\<close>, a CONNECT to \<open>n\<close> or \<open>n:443\<close> puts the connection into the queue of the
  backend with that server's handler, and the chain in front of the handler lets a TLS request
  through exactly when both its server name and its \<open>Host\<close> name \<open>n\<close>.
\<close>

theorem proxied_request_reaches_its_handler:
  assumes "frontend_wf f" "plain_host n" "n \<noteq> []" "register_one \<lparr>bs_host = n, bs_handler = h\<rparr> f = (f', None)"
    and "cn_method r = ''CONNECT''" "cn_hijacker r" "cn_hijack_ok r" "cn_host r \<in> {n, n @ '':443''}"
  shows "\<exists>b. backend_for (n @ '':443'') (fst (serve_http r f')) = Some b \<and> be_conns b = [cn_conn r] \<and>
    (\<forall>hs req. rq_tls req = Some n \<and> rq_host req \<in> {n, n @ '':443''} \<longrightarrow>
       backend_chain hs b req = with_logging (hs h) req fresh_writer) \<and>
    (\<forall>hs req. \<not> (rq_tls req = Some n \<and> rq_host req \<in> {n, n @ '':443''}) \<longrightarrow>
       hw_status (fst (backend_chain hs b req)) = Some 502)"
proof -
  let ?k = "n @ '':443''" and ?b = "fresh_backend (n @ '':443'') \<lparr>bs_host = n, bs_handler = h\<rparr>"
  have k: "backend_key n = Some ?k" "backend_key (cn_host r) = Some ?k"
    using assms(8) backend_key_plain[OF assms(2)] backend_key_plain_port[OF assms(2)] by auto
  then have f': "f' = put_backend ?k ?b f"
    using assms(4) register_one_key[of "\<lparr>bs_host = n, bs_handler = h\<rparr>" ?k f] by (auto split: if_splits)
  let ?b' = "?b\<lparr>be_conns := [cn_conn r]\<rparr>"
  have wf': "frontend_wf f'"
    using register_one_wf[OF assms(1)] assms(4) by (metis fst_conv)
  have "backend_for ?k f' = Some ?b"
    unfolding f' using assms(1) by simp
  then have srv: "fst (serve_http r f') = put_backend ?k ?b' f'"
    using assms(5-7) k(2) by (simp add: serve_http_def add_conn_def fresh_backend_def)
  have look: "backend_for ?k (fst (serve_http r f')) = Some ?b'"
    unfolding srv using wf' by simp
  have chain: "backend_chain hs ?b' req = with_logging (with_matching_host (hs h) n) req fresh_writer" for hs req
    using assms(2) by (simp add: backend_chain_def fresh_backend_def)
  have through: "with_logging (with_matching_host g n) req fresh_writer = with_logging g req fresh_writer"
    if "rq_tls req = Some n" "rq_host req \<in> {n, ?k}" for g req
    using that assms(3) by (auto simp: with_logging_def with_matching_host_def)
  have stopped: "with_matching_host g n req = http_error [] 502"
    if "\<not> (rq_tls req = Some n \<and> rq_host req \<in> {n, ?k})" for g req
    using that assms(3) by (auto simp: with_matching_host_def Let_def split: option.splits)
  have "hw_status (fst (with_logging (with_matching_host g n) req fresh_writer)) = Some 502"
    if "\<not> (rq_tls req = Some n \<and> rq_host req \<in> {n, ?k})" for g req
    unfolding with_logging_def Let_def stopped[OF that]
    by (simp add: http_error_def lw_respond_def new_logging_writer_def lw_write_header_def lw_write_def
        lw_written_def hw_write_header_def hw_write_def fresh_writer_def final_status_def body_allowed_def)
  then show ?thesis
    using look through chain by (intro exI[of _ ?b']) (simp add: fresh_backend_def)
qed

definition sample_connect :: connect_request where
  "sample_connect = \<lparr>cn_method = ''CONNECT'', cn_host = ''a:443'', cn_hijacker = True,
     cn_hijack_ok = True, cn_conn = 7, cn_close_ok = True\<rparr>"

lemma proxied_request_reaches_its_handler_witness:
  "\<exists>b. backend_for ''a:443'' (fst (serve_http sample_connect
      (fst (register_one \<lparr>bs_host = ''a'', bs_handler = 3\<rparr> new_frontend)))) = Some b \<and> be_conns b = [7]"
proof -
  have plain: "plain_host ''a''"
    by (simp add: plain_host_def colon_def)
  have "register_one \<lparr>bs_host = ''a'', bs_handler = 3\<rparr> new_frontend =
      (fst (register_one \<lparr>bs_host = ''a'', bs_handler = 3\<rparr> new_frontend), None)"
    using backend_key_plain[OF plain]
    by (simp add: register_one_key new_frontend_def backend_for_def)
  from proxied_request_reaches_its_handler[OF frontend_wf_new plain _ this, of sample_connect]
  show ?thesis
    by (auto simp: sample_connect_def)
qed

end
