(* ===== verification/Go_Path.thy ===== *)
theory Go_Path
  imports Go_Text
begin

section \<open>Slash-separated paths (packages path and path/filepath)\<close>

text \<open>
  \<open>Clean\<close> works on the elements between the slashes: empty elements and \<open>.\<close> go, \<open>..\<close> takes the
  element in front of it away, or goes at the root of an absolute path. On Unix \<open>filepath\<close> does
  the same as \<open>path\<close>.
\<close>

definition slash :: char where
  "slash = CHR ''/''"

fun split_on :: "char \<Rightarrow> string \<Rightarrow> string list" where
  "split_on c [] = [[]]"
| "split_on c (x # xs) =
     (if x = c then [] # split_on c xs
      else (case split_on c xs of [] \<Rightarrow> [[x]] | y # ys \<Rightarrow> (x # y) # ys))"

text \<open>One element; the stack holds the elements kept so far, the last one first.\<close>

definition clean_step :: "bool \<Rightarrow> string \<Rightarrow> string list \<Rightarrow> string list" where
  "clean_step rooted e st =
     (if e = [] \<or> e = ''.'' then st
      else if e = ''..'' then
        (case st of
           [] \<Rightarrow> if rooted then [] else [e]
         | x # xs \<Rightarrow> if x = ''..'' then e # st else xs)
      else e # st)"

definition path_clean :: "string \<Rightarrow> string" where
  "path_clean p =
     (let rooted = (p \<noteq> [] \<and> hd p = slash);
          st = fold (clean_step rooted) (split_on slash p) [];
          body = join_with ''/'' (rev st)
      in if rooted then slash # body else if body = [] then ''.'' else body)"

text \<open>\<open>Join\<close> ignores empty elements; without any other it is empty.\<close>

definition path_join :: "string list \<Rightarrow> string" where
  "path_join es =
     (let es' = filter (\<lambda>e. e \<noteq> []) es in if es' = [] then [] else path_clean (join_with ''/'' es'))"

definition path_base :: "string \<Rightarrow> string" where
  "path_base p =
     (if p = [] then ''.''
      else let q = rev (dropWhile (\<lambda>c. c = slash) (rev p))
           in if q = [] then ''/'' else rev (takeWhile (\<lambda>c. c \<noteq> slash) (rev q)))"

definition path_dir :: "string \<Rightarrow> string" where
  "path_dir p = path_clean (rev (dropWhile (\<lambda>c. c \<noteq> slash) (rev p)))"

subsection \<open>Paths of ordinary elements\<close>

text \<open>An element that \<open>Clean\<close> leaves alone.\<close>

definition plain_elem :: "string \<Rightarrow> bool" where
  "plain_elem e \<longleftrightarrow> e \<noteq> [] \<and> e \<noteq> ''.'' \<and> e \<noteq> ''..'' \<and> slash \<notin> set e"

lemma split_on_plain: "c \<notin> set e \<Longrightarrow> split_on c e = [e]"
  by (induction e) auto

lemma split_on_nonempty [simp]: "split_on c s \<noteq> []"
  by (induction s) (auto split: list.split)

lemma split_on_append: "c \<notin> set e \<Longrightarrow> split_on c (e @ c # s) = e # split_on c s"
  by (induction e) auto

lemma split_on_join:
  "list_all plain_elem es \<Longrightarrow> es \<noteq> [] \<Longrightarrow> split_on slash (join_with ''/'' es) = es"
proof (induction es)
  case (Cons e es)
  then show ?case
    by (cases es) (auto simp: plain_elem_def split_on_plain split_on_append[of slash e, unfolded slash_def] slash_def)
qed simp

lemma clean_step_plain: "plain_elem e \<Longrightarrow> clean_step r e st = e # st"
  by (auto simp: clean_step_def plain_elem_def)

lemma fold_clean_plain: "list_all plain_elem es \<Longrightarrow> fold (clean_step r) es st = rev es @ st"
  by (induction es arbitrary: st) (auto simp: clean_step_plain)

lemma clean_step_empty [simp]: "clean_step r [] st = st"
  by (simp add: clean_step_def)

lemma path_clean_abs:
  assumes "list_all plain_elem es"
  shows "path_clean (slash # join_with ''/'' es) = slash # join_with ''/'' es"
proof (cases es)
  case Nil
  then show ?thesis by (simp add: path_clean_def Let_def)
next
  case (Cons e es')
  then have "split_on slash (slash # join_with ''/'' es) = [] # es"
    using assms split_on_join[of es] by simp
  then show ?thesis
    using assms by (simp add: path_clean_def Let_def fold_clean_plain)
qed

lemma fold_clean_leading: "fold (clean_step r) ([] # es) st = fold (clean_step r) es st"
  by simp

text \<open>Joining ordinary elements below the root directory.\<close>

lemma path_join_root:
  assumes "list_all (\<lambda>e. e = [] \<or> plain_elem e) es"
  shows "path_join (''/'' # es) = slash # join_with ''/'' (filter (\<lambda>e. e \<noteq> []) es)"
proof -
  let ?es = "filter (\<lambda>e. e \<noteq> []) es"
  have plain: "list_all plain_elem ?es"
    using assms by (auto simp: list_all_iff)
  show ?thesis
  proof (cases "?es = []")
    case True
    then show ?thesis by (simp add: path_join_def path_clean_def slash_def Let_def)
  next
    case False
    then have "join_with ''/'' (''/'' # ?es) = slash # slash # join_with ''/'' ?es"
      by (simp add: join_with_Cons slash_def)
    moreover have "split_on slash (slash # slash # join_with ''/'' ?es) = [] # [] # ?es"
      using split_on_join[OF plain False] by simp
    ultimately show ?thesis
      using plain False by (simp add: path_join_def path_clean_def Let_def fold_clean_plain)
  qed
qed

text \<open>Joining an absolute directory and relative paths of ordinary elements.\<close>

lemma join_with_append:
  "xs \<noteq> [] \<Longrightarrow> ys \<noteq> [] \<Longrightarrow> join_with sep (xs @ ys) = join_with sep xs @ sep @ join_with sep ys"
proof (induction xs)
  case (Cons x xs)
  then show ?case
    by (cases xs) (simp_all add: join_with_Cons)
qed simp

lemma join_with_inj:
  assumes "list_all plain_elem xs" "list_all plain_elem ys"
    and "join_with ''/'' xs = join_with ''/'' ys"
  shows "xs = ys"
proof (cases "xs = [] \<or> ys = []")
  case True
  have nonempty: "join_with ''/'' zs \<noteq> []" if "list_all plain_elem zs" "zs \<noteq> []" for zs
    using that by (cases zs; cases "tl zs") (auto simp: plain_elem_def)
  show ?thesis
    using True assms nonempty by fastforce
next
  case False
  then show ?thesis
    using split_on_join assms by metis
qed

text \<open>An absolute path given by its elements.\<close>

definition abs_path :: "string list \<Rightarrow> string" where
  "abs_path es = slash # join_with ''/'' es"

lemma abs_path_inj:
  "list_all plain_elem xs \<Longrightarrow> list_all plain_elem ys \<Longrightarrow> abs_path xs = abs_path ys \<longleftrightarrow> xs = ys"
  by (auto simp: abs_path_def intro: join_with_inj)


text \<open>Joining an absolute path and relative paths, each given by its elements.\<close>

definition rel_path :: "string list \<Rightarrow> string" where
  "rel_path es = join_with ''/'' es"

lemma join_rel_paths:
  "list_all (\<lambda>es. es \<noteq> []) ess \<Longrightarrow>
     join_with ''/'' (map rel_path ess) = join_with ''/'' (concat ess)"
proof (induction ess)
  case (Cons es ess)
  show ?case
  proof (cases ess)
    case Nil
    then show ?thesis by (simp add: rel_path_def)
  next
    case (Cons es' ess')
    then have "map rel_path ess \<noteq> []" "concat ess \<noteq> []" "es \<noteq> []"
      using Cons.prems by auto
    then show ?thesis
      using Cons.IH Cons.prems by (simp add: join_with_Cons join_with_append rel_path_def)
  qed
qed simp

lemma rel_path_nonempty: "list_all plain_elem es \<Longrightarrow> es \<noteq> [] \<Longrightarrow> rel_path es \<noteq> []"
  by (cases es; cases "tl es") (auto simp: rel_path_def plain_elem_def)

lemma filter_nonempty_rel:
  "list_all (\<lambda>es. es \<noteq> [] \<and> list_all plain_elem es) ess \<Longrightarrow>
     filter (\<lambda>e. e \<noteq> []) (map rel_path ess) = map rel_path ess"
  by (induction ess) (auto simp: rel_path_nonempty)

lemma path_join_abs:
  assumes "list_all plain_elem rs" "list_all (\<lambda>es. es \<noteq> [] \<and> list_all plain_elem es) ess"
  shows "path_join (abs_path rs # map rel_path ess) = abs_path (rs @ concat ess)"
proof -
  have plain: "list_all plain_elem (concat ess)"
    using assms(2) by (auto simp: list_all_iff)
  have "filter (\<lambda>e. e \<noteq> []) (abs_path rs # map rel_path ess) = abs_path rs # map rel_path ess"
    using filter_nonempty_rel[OF assms(2)] by (simp add: abs_path_def)
  then have join: "path_join (abs_path rs # map rel_path ess) =
      path_clean (join_with ''/'' (abs_path rs # map rel_path ess))"
    by (simp add: path_join_def Let_def)
  show ?thesis
  proof (cases ess)
    case Nil
    then show ?thesis
      using join path_clean_abs[OF assms(1)] by (simp add: abs_path_def)
  next
    case (Cons es ess')
    have ne: "concat ess \<noteq> []" "list_all (\<lambda>es. es \<noteq> []) ess"
      using Cons assms(2) by (auto simp: list_all_iff)
    have "join_with ''/'' (abs_path rs # map rel_path ess) =
        abs_path rs @ slash # join_with ''/'' (concat ess)"
      using Cons join_rel_paths[OF ne(2)] by (simp add: join_with_Cons slash_def)
    also have "\<dots> = (if rs = [] then slash # abs_path (concat ess) else abs_path (rs @ concat ess))"
      using ne(1) by (simp add: abs_path_def join_with_append slash_def)
    finally have joined: "join_with ''/'' (abs_path rs # map rel_path ess) =
        (if rs = [] then slash # abs_path (concat ess) else abs_path (rs @ concat ess))" .
    have "path_clean (slash # abs_path (concat ess)) = abs_path (concat ess)"
      using split_on_join[OF plain ne(1)] plain
      by (simp add: path_clean_def Let_def abs_path_def fold_clean_plain)
    moreover have "path_clean (abs_path (rs @ concat ess)) = abs_path (rs @ concat ess)"
      using assms(1) plain unfolding abs_path_def by (intro path_clean_abs) simp
    ultimately show ?thesis
      unfolding join joined by simp
  qed
qed


subsection \<open>Paths without dot-dot elements stay below\<close>

definition kept_elems :: "string \<Rightarrow> string list" where
  "kept_elems t = filter (\<lambda>e. e \<noteq> [] \<and> e \<noteq> ''.'') (split_on slash t)"

definition no_dotdot :: "string \<Rightarrow> bool" where
  "no_dotdot t \<longleftrightarrow> ''..'' \<notin> set (split_on slash t)"

lemma split_on_no_sep: "e \<in> set (split_on c s) \<Longrightarrow> c \<notin> set e"
  by (induction s arbitrary: e) (fastforce split: if_splits list.splits)+

lemma kept_elems_plain: "no_dotdot t \<Longrightarrow> list_all plain_elem (kept_elems t)"
  by (auto simp: kept_elems_def no_dotdot_def plain_elem_def list_all_iff dest: split_on_no_sep)

lemma fold_clean_no_dotdot:
  "''..'' \<notin> set es \<Longrightarrow> fold (clean_step r) es st = rev (filter (\<lambda>e. e \<noteq> [] \<and> e \<noteq> ''.'') es) @ st"
  by (induction es arbitrary: st) (auto simp: clean_step_def)

lemma split_on_abs_append:
  "list_all plain_elem rs \<Longrightarrow> rs \<noteq> [] \<Longrightarrow>
     split_on slash (abs_path rs @ slash # t) = [] # rs @ split_on slash t"
proof -
  assume rs: "list_all plain_elem rs" "rs \<noteq> []"
  have "split_on slash (join_with ''/'' rs @ slash # t) = rs @ split_on slash t"
    using rs
  proof (induction rs)
    case (Cons e es)
    then have e: "slash \<notin> set e"
      by (simp add: plain_elem_def)
    show ?case
    proof (cases es)
      case Nil
      then show ?thesis using e by (simp add: split_on_append)
    next
      case nonempty: (Cons e' es')
      have join: "join_with ''/'' (e # es) @ slash # t = e @ slash # (join_with ''/'' es @ slash # t)"
        using nonempty by (simp add: join_with_Cons slash_def)
      have "split_on slash (join_with ''/'' es @ slash # t) = es @ split_on slash t"
        using nonempty Cons.prems by (intro Cons.IH) simp_all
      then show ?thesis
        unfolding join split_on_append[OF e] by simp
    qed
  qed simp
  then show ?thesis
    by (simp add: abs_path_def)
qed

lemma path_join_below:
  assumes "list_all plain_elem rs" "rs \<noteq> []" "no_dotdot t"
  shows "path_join [abs_path rs, t] = abs_path (rs @ kept_elems t)"
proof (cases "t = []")
  case True
  then show ?thesis
    using path_clean_abs[OF assms(1)] assms(2)
    by (simp add: path_join_def kept_elems_def abs_path_def Let_def)
next
  case False
  have rs: "filter (\<lambda>e. e \<noteq> [] \<and> e \<noteq> ''.'') rs = rs" "''..'' \<notin> set rs"
    using assms(1) by (auto simp: filter_id_conv list_all_iff plain_elem_def)
  have "path_join [abs_path rs, t] = path_clean (abs_path rs @ slash # t)"
    using False by (simp add: path_join_def Let_def abs_path_def slash_def)
  also have "\<dots> = abs_path (rs @ kept_elems t)"
    using assms(3) rs split_on_abs_append[OF assms(1,2), of t]
    by (simp add: path_clean_def Let_def fold_clean_no_dotdot no_dotdot_def abs_path_def kept_elems_def)
  finally show ?thesis .
qed

lemma path_dir_abs:
  assumes "list_all plain_elem (es @ [e])" "es \<noteq> []"
  shows "path_dir (abs_path (es @ [e])) = abs_path es"
proof -
  have "abs_path (es @ [e]) = (abs_path es @ [slash]) @ e"
    using assms(2) by (simp add: abs_path_def join_with_append slash_def)
  moreover have "dropWhile (\<lambda>c. c \<noteq> slash) (rev ((abs_path es @ [slash]) @ e)) = rev (abs_path es @ [slash])"
  proof -
    have "\<forall>x \<in> set (rev e). x \<noteq> slash"
      using assms(1) by (auto simp: plain_elem_def)
    then show ?thesis
      using dropWhile_append2[of "rev e" "\<lambda>c. c \<noteq> slash" "slash # rev (abs_path es)"] by simp
  qed
  ultimately have "path_dir (abs_path (es @ [e])) = path_clean (abs_path es @ [slash])"
    by (simp add: path_dir_def)
  also have "\<dots> = abs_path es"
  proof -
    have "''..'' \<notin> set es" "filter (\<lambda>e. e \<noteq> [] \<and> e \<noteq> ''.'') es = es"
      using assms(1) by (auto simp: filter_id_conv list_all_iff plain_elem_def)
    then show ?thesis
      using split_on_abs_append[of es "[]"] assms
      by (simp add: path_clean_def Let_def fold_clean_no_dotdot abs_path_def)
  qed
  finally show ?thesis .
qed

end
