(* ===== verification/Webhook.thy ===== *)
theory Webhook
  imports Http_Server Go_Path
begin

section \<open>The webhook servers (pkg/webhook/webhook.go and webhook.go)\<close>

text \<open>
  The four kinds of webhook handlers and the builtin functions behind them. What
  \<open>k8s.io/apimachinery\<close> and \<open>encoding/json\<close> do is a parameter: the decoder's result for the body
  of a request (\<open>Inl\<close> its error message) is an argument of the handlers, \<open>enc\<close> encodes the
  answers. A handler that dereferences nil panics; \<open>net/http\<close> then drops the connection.
\<close>

datatype reply = Responds "action list" | Panics

subsection \<open>Messages\<close>

record user_info =
  ui_username :: string
  ui_groups :: "string list"
  ui_uid :: string

record resource_attributes =
  ra_verb :: string
  ra_group :: string
  ra_version :: string
  ra_resource :: string
  ra_subresource :: string
  ra_namespace :: string
  ra_name :: string

record non_resource_attributes =
  na_path :: string
  na_verb :: string

record sar_spec =
  sar_user :: string
  sar_groups :: "string list"
  sar_uid :: string
  sar_resource :: "resource_attributes option"
  sar_non_resource :: "non_resource_attributes option"

record sar_status =
  ss_allowed :: bool
  ss_denied :: bool
  ss_reason :: string

record group_version_resource =
  gvr_group :: string
  gvr_version :: string
  gvr_resource :: string

record admission_request =
  ar_uid :: string
  ar_operation :: string
  ar_user :: user_info
  ar_resource :: group_version_resource
  ar_namespace :: string
  ar_name :: string
  ar_subresource :: string
  ar_options :: string

record admission_response =
  ap_uid :: string
  ap_allowed :: bool
  ap_patch :: string

record admission_review =
  av_type_meta :: string
  av_request :: "admission_request option"
  av_response :: "admission_response option"

record token_status =
  ts_authenticated :: bool
  ts_user :: user_info

text \<open>What the handlers send.\<close>

datatype api_object =
    StatusObject string nat
  | AdmissionReviewObject string admission_response
  | TokenReviewObject token_status
  | SubjectAccessReviewObject sar_status

type_synonym encoder = "api_object \<Rightarrow> string"

subsection \<open>Responses\<close>

definition encode :: "encoder \<Rightarrow> api_object \<Rightarrow> action list" where
  "encode enc x = [WriteHeader 200, WriteBody (enc x)]"

definition write_status :: "encoder \<Rightarrow> nat \<Rightarrow> string \<Rightarrow> action list" where
  "write_status enc code msg = WriteHeader code # encode enc (StatusObject msg code)"

subsection \<open>Log values\<close>

text \<open>\<open>full\<close> is the generated \<open>String\<close> method of the message.\<close>

definition user_info_log_value :: "(user_info \<Rightarrow> string) \<Rightarrow> user_info \<Rightarrow> string" where
  "user_info_log_value full a =
     (case cut_prefix (ui_username a) ''system:'' of
        (p, ok) \<Rightarrow>
          if ok \<and> p \<noteq> [] then
            (if p = ''apiserver'' \<and> ''system:masters'' \<in> set (ui_groups a) then ui_username a
             else if p = ''kube-scheduler'' \<or> p = ''kube-controller-manager'' then ui_username a
             else case cut_prefix p ''node:'' of
               (n, node) \<Rightarrow>
                 if node \<and> n \<noteq> [] \<and> ''system:nodes'' \<in> set (ui_groups a) then ui_username a
                 else case cut_prefix p ''serviceaccount:'' of
                   (n', sa) \<Rightarrow>
                     if sa \<and> n' \<noteq> [] \<and> ''system:serviceaccounts'' \<in> set (ui_groups a)
                     then ui_username a
                     else full a)
          else full a)"

datatype sar_result = Allowed | Denied | NoOpinion | Invalid

definition sar_result_of :: "sar_status \<Rightarrow> sar_result" where
  "sar_result_of st =
     (if ss_denied st \<and> \<not> ss_allowed st then Denied
      else if ss_allowed st \<and> \<not> ss_denied st then Allowed
      else if \<not> ss_allowed st \<and> \<not> ss_denied st then NoOpinion
      else Invalid)"

datatype sar_target =
    ResourceTarget string string string string string string
  | PathTarget string string
  | UnknownTarget

definition sar_target_of :: "sar_spec \<Rightarrow> sar_target" where
  "sar_target_of s =
     (case sar_resource s of
        Some r \<Rightarrow> ResourceTarget (ra_verb r) (ra_group r) (ra_version r) (ra_resource r)
                    (ra_namespace r) (ra_name r)
      | None \<Rightarrow> (case sar_non_resource s of
          Some n \<Rightarrow> PathTarget (na_verb n) (na_path n)
        | None \<Rightarrow> UnknownTarget))"

definition sar_log_value ::
  "(user_info \<Rightarrow> string) \<Rightarrow> sar_spec \<Rightarrow> sar_status \<Rightarrow> sar_result \<times> string \<times> sar_target" where
  "sar_log_value full s st =
     (sar_result_of st,
      user_info_log_value full
        \<lparr>ui_username = sar_user s, ui_groups = sar_groups s, ui_uid = sar_uid s\<rparr>,
      sar_target_of s)"

definition url_for :: "group_version_resource \<Rightarrow> string \<Rightarrow> string \<Rightarrow> string \<Rightarrow> string" where
  "url_for g namespace name subresource =
     path_join ([''/''] @
       (if gvr_group g = [] then [''api'', gvr_version g] else [''apis'', gvr_group g, gvr_version g]) @
       (if namespace = [] then [gvr_resource g, name, subresource]
        else [''namespaces'', namespace, gvr_resource g, name, subresource]))"

text \<open>\<open>parse\<close> and \<open>print\<close> are the JSON decoder and encoder for maps from strings to strings.\<close>

definition options_log_value ::
  "(string \<Rightarrow> (string, string) gomap option) \<Rightarrow> ((string, string) gomap \<Rightarrow> string) \<Rightarrow> string \<Rightarrow> string" where
  "options_log_value parse print raw =
     (case parse raw of
        None \<Rightarrow> raw
      | Some o' \<Rightarrow>
          (let o1 = gm_remove ''apiVersion'' (gm_remove ''kind'' o')
           in if o1 = [] then ''{}'' else print o1))"

text \<open>Reading the response for the log panics when there is none.\<close>

datatype adm_response_log = Patched bool | AdmDenied

definition adm_response_log_value :: "admission_response option \<Rightarrow> adm_response_log option" where
  "adm_response_log_value a =
     (case a of
        None \<Rightarrow> None
      | Some r \<Rightarrow> Some (if ap_allowed r then Patched (length (ap_patch r) > 0) else AdmDenied))"

subsection \<open>The handlers\<close>

text \<open>An admitter answers a response, which may be nil, or an error.\<close>

type_synonym admitter = "admission_request \<Rightarrow> string + admission_response option"

definition serve_admission :: "encoder \<Rightarrow> admitter \<Rightarrow> string + admission_review \<Rightarrow> reply" where
  "serve_admission enc admit decoded =
     (case decoded of
        Inl err \<Rightarrow> Responds (write_status enc 400 err)
      | Inr rv \<Rightarrow>
          (case av_request rv of
             None \<Rightarrow> Panics
           | Some req \<Rightarrow>
               (case admit req of
                  Inl err \<Rightarrow>
                    (case adm_response_log_value (av_response rv) of
                       None \<Rightarrow> Panics
                     | Some _ \<Rightarrow> Responds (write_status enc 500 err))
                | Inr resp \<Rightarrow>
                    (case (resp, adm_response_log_value resp) of
                       (Some r, Some _) \<Rightarrow>
                         Responds (encode enc (AdmissionReviewObject (av_type_meta rv) (r\<lparr>ap_uid := ar_uid req\<rparr>)))
                     | _ \<Rightarrow> Panics))))"

text \<open>An auditor is called for the items of the list in order until one of the calls fails.\<close>

fun audit_items :: "('ev \<Rightarrow> string option) \<Rightarrow> 'ev list \<Rightarrow> string option" where
  "audit_items audit [] = None"
| "audit_items audit (ev # evs) =
     (case audit ev of Some err \<Rightarrow> Some err | None \<Rightarrow> audit_items audit evs)"

definition serve_audit :: "encoder \<Rightarrow> ('ev \<Rightarrow> string option) \<Rightarrow> string + 'ev list \<Rightarrow> reply" where
  "serve_audit enc audit decoded =
     (case decoded of
        Inl err \<Rightarrow> Responds (write_status enc 400 err)
      | Inr evs \<Rightarrow>
          (case audit_items audit evs of
             Some err \<Rightarrow> Responds (write_status enc 400 err)
           | None \<Rightarrow> Responds [WriteHeader 200]))"

definition serve_authentication ::
  "encoder \<Rightarrow> ('spec \<Rightarrow> string + token_status option) \<Rightarrow> string + 'spec \<Rightarrow> reply" where
  "serve_authentication enc auth decoded =
     (case decoded of
        Inl err \<Rightarrow> Responds (write_status enc 400 err)
      | Inr spec \<Rightarrow>
          (case auth spec of
             Inl err \<Rightarrow> Responds (write_status enc 400 err)
           | Inr None \<Rightarrow> Panics
           | Inr (Some st) \<Rightarrow> Responds (encode enc (TokenReviewObject st))))"

definition serve_authorization ::
  "encoder \<Rightarrow> (sar_spec \<Rightarrow> string + sar_status option) \<Rightarrow> string + sar_spec \<Rightarrow> reply" where
  "serve_authorization enc auth decoded =
     (case decoded of
        Inl err \<Rightarrow> Responds (http_error ''decoding request body'' 400)
      | Inr spec \<Rightarrow>
          (case auth spec of
             Inl err \<Rightarrow> Responds (write_status enc 500 err)
           | Inr None \<Rightarrow> Panics
           | Inr (Some st) \<Rightarrow> Responds (encode enc (SubjectAccessReviewObject st))))"

subsection \<open>The builtin functions\<close>

definition builtin_authorizer :: "sar_spec \<Rightarrow> string + sar_status option" where
  "builtin_authorizer spec =
     (let allowed =
        (if sar_user spec = ''system:apiserver'' then ''system:masters'' \<in> set (sar_groups spec)
         else if sar_user spec = ''system:controller-manager-authnz'' \<or> sar_user spec = ''system:scheduler-authnz''
         then (case sar_resource spec of
                 None \<Rightarrow> False
               | Some r \<Rightarrow>
                   list_all id
                     [ra_verb r = ''get'' \<or> ra_verb r = ''watch'' \<or> ra_verb r = ''list'',
                      ra_name r = ''extension-apiserver-authentication'',
                      ra_resource r = ''configmaps'', ra_group r = [], ra_subresource r = []])
         else False)
      in Inr (Some \<lparr>ss_allowed = allowed, ss_denied = False, ss_reason = ''by-builtin''\<rparr>))"

definition builtin_authenticator :: "'spec \<Rightarrow> string + token_status option" where
  "builtin_authenticator spec =
     Inr (Some \<lparr>ts_authenticated = False, ts_user = \<lparr>ui_username = [], ui_groups = [], ui_uid = []\<rparr>\<rparr>)"

definition builtin_auditor :: "'ev \<Rightarrow> string option" where
  "builtin_auditor ev = None"

definition builtin_admitter :: "bool \<Rightarrow> admitter" where
  "builtin_admitter mutating req = Inr (Some \<lparr>ap_uid = ar_uid req, ap_allowed = True, ap_patch = []\<rparr>)"

subsection \<open>Properties\<close>

definition client_status :: "reply \<Rightarrow> nat option" where
  "client_status r = (case r of Panics \<Rightarrow> None | Responds as \<Rightarrow> hw_status (hw_respond as fresh_writer))"

text \<open>The status is set by the first thing a handler sends, by the contract of the response writer.\<close>

lemma client_status_first:
  "as \<noteq> [] \<Longrightarrow> (\<And>c. hd as = WriteHeader c \<Longrightarrow> final_status c) \<Longrightarrow>
     client_status (Responds as) = Some (case hd as of WriteHeader c \<Rightarrow> c | _ \<Rightarrow> 200)"
  unfolding client_status_def hw_respond_def reply.case
  by (rule hw.respond_status) (simp_all add: fresh_writer_def)

lemma client_status_header:
  "final_status c \<Longrightarrow> client_status (Responds (WriteHeader c # as)) = Some c"
  using client_status_first[of "WriteHeader c # as"] by simp

lemma client_status_simps [simp]:
  "client_status Panics = None"
  "final_status c \<Longrightarrow> client_status (Responds (write_status enc c m)) = Some c"
  "final_status c \<Longrightarrow> client_status (Responds (http_error m c)) = Some c"
  "client_status (Responds (encode enc x)) = Some 200"
  "client_status (Responds [WriteHeader 200]) = Some 200"
  by (simp_all add: write_status_def encode_def http_error_def final_status_def client_status_header)
    (simp add: client_status_def)

text \<open>
  C30. The builtin authorizer grants exactly two things: everything to \<open>system:apiserver\<close> as a
  member of \<open>system:masters\<close>, and to the two delegated-authorization users of the controller
  manager and the scheduler reading the config map \<open>extension-apiserver-authentication\<close> of the
  core group. It never denies and never fails; the webhook sends its verdict with status 200.
\<close>

theorem builtin_authorization_grants:
  "\<exists>st. serve_authorization enc builtin_authorizer (Inr spec) =
      Responds (encode enc (SubjectAccessReviewObject st)) \<and>
    client_status (serve_authorization enc builtin_authorizer (Inr spec)) = Some 200 \<and>
    sar_result_of st = (if ss_allowed st then Allowed else NoOpinion) \<and>
    (ss_allowed st \<longleftrightarrow>
       (sar_user spec = ''system:apiserver'' \<and> ''system:masters'' \<in> set (sar_groups spec)) \<or>
       (sar_user spec \<in> {''system:controller-manager-authnz'', ''system:scheduler-authnz''} \<and>
        (\<exists>r. sar_resource spec = Some r \<and> ra_verb r \<in> {''get'', ''watch'', ''list''} \<and>
           ra_group r = [] \<and> ra_resource r = ''configmaps'' \<and> ra_subresource r = [] \<and>
           ra_name r = ''extension-apiserver-authentication'')))"
proof -
  obtain st where st: "builtin_authorizer spec = Inr (Some st)" "\<not> ss_denied st"
    by (simp add: builtin_authorizer_def)
  then have "ss_allowed st \<longleftrightarrow>
       (sar_user spec = ''system:apiserver'' \<and> ''system:masters'' \<in> set (sar_groups spec)) \<or>
       (sar_user spec \<in> {''system:controller-manager-authnz'', ''system:scheduler-authnz''} \<and>
        (\<exists>r. sar_resource spec = Some r \<and> ra_verb r \<in> {''get'', ''watch'', ''list''} \<and>
           ra_group r = [] \<and> ra_resource r = ''configmaps'' \<and> ra_subresource r = [] \<and>
           ra_name r = ''extension-apiserver-authentication''))"
    by (auto simp: builtin_authorizer_def Let_def split: option.splits if_splits)
  then show ?thesis
    using st by (intro exI[of _ st]) (auto simp: serve_authorization_def sar_result_of_def)
qed

text \<open>
  C31. The status a webhook client sees tells what happened: 400 for a body that cannot be
  decoded, and for an admitter, an auditor, an authenticator or an authorizer that fails 500 or
  400 as written, although \<open>writeStatus\<close> calls \<open>WriteHeader\<close> a second time with 200; 200
  otherwise. For an admission review the status is missing (the handler panics) when the review
  has no request, when the admitter answers nil, and when the admitter fails on a review that
  does not already carry a response.
\<close>

theorem webhook_status_tells_outcome:
  "(client_status (serve_admission enc admit d) =
     (case d of
        Inl e \<Rightarrow> Some 400
      | Inr rv \<Rightarrow>
          (case map_option admit (av_request rv) of
             None \<Rightarrow> None
           | Some (Inl e) \<Rightarrow> if av_response rv = None then None else Some 500
           | Some (Inr resp) \<Rightarrow> if resp = None then None else Some 200))) \<and>
   (client_status (serve_audit enc audit evs) =
     (case evs of Inl e \<Rightarrow> Some 400
      | Inr l \<Rightarrow> if list_all (\<lambda>ev. audit ev = None) l then Some 200 else Some 400)) \<and>
   (client_status (serve_authentication enc authn t) =
     (case t of Inl e \<Rightarrow> Some 400
      | Inr sp \<Rightarrow> (case authn sp of Inl e \<Rightarrow> Some 400 | Inr st \<Rightarrow> if st = None then None else Some 200))) \<and>
   (client_status (serve_authorization enc authz z) =
     (case z of Inl e \<Rightarrow> Some 400
      | Inr sp \<Rightarrow> (case authz sp of Inl e \<Rightarrow> Some 500 | Inr st \<Rightarrow> if st = None then None else Some 200)))"
proof (intro conjI)
  have items: "audit_items audit l = None \<longleftrightarrow> (list_all (\<lambda>ev. audit ev = None) l)" for l
    by (induction l) (auto split: option.split)
  show "client_status (serve_admission enc admit d) =
     (case d of
        Inl e \<Rightarrow> Some 400
      | Inr rv \<Rightarrow>
          (case map_option admit (av_request rv) of
             None \<Rightarrow> None
           | Some (Inl e) \<Rightarrow> if av_response rv = None then None else Some 500
           | Some (Inr resp) \<Rightarrow> if resp = None then None else Some 200))"
    by (auto simp: serve_admission_def adm_response_log_value_def final_status_def
        split: sum.splits option.splits)
  show "client_status (serve_audit enc audit evs) =
     (case evs of Inl e \<Rightarrow> Some 400
      | Inr l \<Rightarrow> if list_all (\<lambda>ev. audit ev = None) l then Some 200 else Some 400)"
    by (auto simp: serve_audit_def final_status_def items[symmetric] split: sum.splits option.splits)
  show "client_status (serve_authentication enc authn t) =
     (case t of Inl e \<Rightarrow> Some 400
      | Inr sp \<Rightarrow> (case authn sp of Inl e \<Rightarrow> Some 400 | Inr st \<Rightarrow> if st = None then None else Some 200))"
    by (auto simp: serve_authentication_def final_status_def split: sum.splits option.splits)
  show "client_status (serve_authorization enc authz z) =
     (case z of Inl e \<Rightarrow> Some 400
      | Inr sp \<Rightarrow> (case authz sp of Inl e \<Rightarrow> Some 500 | Inr st \<Rightarrow> if st = None then None else Some 200))"
    by (auto simp: serve_authorization_def final_status_def split: sum.splits option.splits)
qed

text \<open>
  The builtin admission webhooks admit everything: a review with a request is answered with
  status 200, the UID of the request, \<open>allowed\<close> and no patch, by the validating and the mutating
  webhook alike.
\<close>

lemma builtin_admission_admits:
  "serve_admission enc (builtin_admitter mutating) (Inr \<lparr>av_type_meta = tm, av_request = Some req, av_response = resp\<rparr>) =
     Responds [WriteHeader 200, WriteBody (enc (AdmissionReviewObject tm
       \<lparr>ap_uid = ar_uid req, ap_allowed = True, ap_patch = []\<rparr>))]"
  by (simp add: serve_admission_def builtin_admitter_def adm_response_log_value_def encode_def)

text \<open>
  The URL in the admission log is the path of the API object: for names without slashes
  that are not \<open>.\<close> or \<open>..\<close>, it consists of the group's prefix, the version, the namespace if
  there is one, the resource and whichever of name and subresource are present, separated by
  single slashes.
\<close>

lemma url_for_is_api_path:
  assumes "list_all (\<lambda>e. e = [] \<or> plain_elem e)
    [gvr_group g, gvr_version g, gvr_resource g, ns, name, sub]"
  shows "url_for g ns name sub =
    abs_path (filter (\<lambda>e. e \<noteq> [])
      ((if gvr_group g = [] then [''api''] else [''apis'', gvr_group g]) @ [gvr_version g] @
       (if ns = [] then [] else [''namespaces'', ns]) @ [gvr_resource g, name, sub]))"
proof -
  let ?es = "(if gvr_group g = [] then [''api''] else [''apis'', gvr_group g]) @ [gvr_version g] @
    (if ns = [] then [] else [''namespaces'', ns]) @ [gvr_resource g, name, sub]"
  have "plain_elem ''api''" "plain_elem ''apis''" "plain_elem ''namespaces''"
    by (simp_all add: plain_elem_def slash_def)
  then have "list_all (\<lambda>e. e = [] \<or> plain_elem e) ?es"
    using assms by auto
  moreover have "url_for g ns name sub = path_join (''/'' # ?es)"
    by (simp add: url_for_def)
  ultimately show ?thesis
    unfolding abs_path_def by (simp only: path_join_root)
qed


lemma cut_prefix_if:
  "(case cut_prefix p q of (n, ok) \<Rightarrow> if ok \<and> n \<noteq> [] \<and> g then x else y) =
     (if (\<exists>n. n \<noteq> [] \<and> p = q @ n) \<and> g then x else y)"
proof (cases "has_prefix p q")
  case True
  then obtain r where "p = q @ r"
    using has_prefixE by blast
  then show ?thesis by simp
next
  case False
  then have "\<not> (\<exists>n. p = q @ n)"
    by (metis has_prefix_append)
  with False show ?thesis by (auto simp: cut_prefix_def)
qed

lemma if_chain: "(if c then u else if d then u else f) = (if c \<or> d then u else f)"
  by simp

text \<open>
  The log shows a bare \<open>system:\<close> user name only for an identity the groups confirm: nothing
  but \<open>system:kube-scheduler\<close> and \<open>system:kube-controller-manager\<close> is shown bare without the
  group that goes with it; every other identity is logged in full.
\<close>

lemma log_shows_bare_user_only_with_group:
  "user_info_log_value full a =
     (if ui_username a \<in> {''system:kube-scheduler'', ''system:kube-controller-manager''} \<or>
         (ui_username a = ''system:apiserver'' \<and> ''system:masters'' \<in> set (ui_groups a)) \<or>
         (\<exists>n. n \<noteq> [] \<and> ui_username a = ''system:node:'' @ n \<and> ''system:nodes'' \<in> set (ui_groups a)) \<or>
         (\<exists>n. n \<noteq> [] \<and> ui_username a = ''system:serviceaccount:'' @ n \<and>
            ''system:serviceaccounts'' \<in> set (ui_groups a))
      then ui_username a else full a)"
proof (cases "has_prefix (ui_username a) ''system:''")
  case False
  then have "\<not> (\<exists>r. ui_username a = ''system:'' @ r)"
    by (metis has_prefix_append)
  then show ?thesis
    using False by (auto simp: user_info_log_value_def cut_prefix_def)
next
  case True
  then obtain p where p: "ui_username a = ''system:'' @ p"
    using has_prefixE by blast
  have e: "ui_username a = ''system:kube-scheduler'' \<longleftrightarrow> p = ''kube-scheduler''"
    "ui_username a = ''system:kube-controller-manager'' \<longleftrightarrow> p = ''kube-controller-manager''"
    "ui_username a = ''system:apiserver'' \<longleftrightarrow> p = ''apiserver''"
    "(\<exists>n. n \<noteq> [] \<and> ui_username a = ''system:node:'' @ n \<and> g) \<longleftrightarrow>
       (\<exists>n. n \<noteq> [] \<and> p = ''node:'' @ n) \<and> g"
    "(\<exists>n. n \<noteq> [] \<and> ui_username a = ''system:serviceaccount:'' @ n \<and> g) \<longleftrightarrow>
       (\<exists>n. n \<noteq> [] \<and> p = ''serviceaccount:'' @ n) \<and> g" for g
    unfolding p by (simp_all, blast+)
  have "user_info_log_value full a =
     (if p \<in> {''kube-scheduler'', ''kube-controller-manager''} \<or>
         (p = ''apiserver'' \<and> ''system:masters'' \<in> set (ui_groups a)) \<or>
         ((\<exists>n. n \<noteq> [] \<and> p = ''node:'' @ n) \<and> ''system:nodes'' \<in> set (ui_groups a)) \<or>
         ((\<exists>n. n \<noteq> [] \<and> p = ''serviceaccount:'' @ n) \<and> ''system:serviceaccounts'' \<in> set (ui_groups a))
      then ui_username a else full a)"
  proof (cases "p = []")
    case False
    show ?thesis
      unfolding user_info_log_value_def p cut_prefix_append prod.case cut_prefix_if
      unfolding if_chain using False
      by (simp only: simp_thms if_True not_False_eq_True insert_iff empty_iff disj_ac)
  qed (simp add: user_info_log_value_def p cut_prefix_def has_prefix_def)
  also have "\<dots> = (if ui_username a \<in> {''system:kube-scheduler'', ''system:kube-controller-manager''} \<or>
         (ui_username a = ''system:apiserver'' \<and> ''system:masters'' \<in> set (ui_groups a)) \<or>
         (\<exists>n. n \<noteq> [] \<and> ui_username a = ''system:node:'' @ n \<and> ''system:nodes'' \<in> set (ui_groups a)) \<or>
         (\<exists>n. n \<noteq> [] \<and> ui_username a = ''system:serviceaccount:'' @ n \<and>
            ''system:serviceaccounts'' \<in> set (ui_groups a))
      then ui_username a else full a)"
    by (simp only: e insert_iff empty_iff simp_thms disj_assoc)
  finally show ?thesis .
qed

end
