(* ===== verification/Json.thy ===== *)
theory Json
  imports Go_Text
begin

section \<open>JSON as encoding/json writes and reads it\<close>

text \<open>
  The encoder's text of a value and the decoder's grammar. A number is its literal. Bytes above 127 pass unchanged, as
  they do in valid UTF-8 (the encoder escapes two rare code points, and both replace invalid bytes).
\<close>

datatype json =
    JNull
  | JBool bool
  | JNum string
  | JStr string
  | JArr "json list"
  | JObj "(string \<times> json) list"

definition byte :: "char \<Rightarrow> nat" where
  "byte c = of_char c"

definition dquote :: char where "dquote = CHR 0x22"
definition backslash :: char where "backslash = CHR 0x5C"

lemma special_chars [simp]: "dquote \<noteq> backslash" "backslash \<noteq> dquote"
  by (simp_all add: dquote_def backslash_def)

subsection \<open>The encoder\<close>

definition escaped_char :: "char \<Rightarrow> string" where
  "escaped_char c =
     (if c = dquote \<or> c = backslash then [backslash, c]
      else if byte c = 8 then [backslash, CHR ''b'']
      else if byte c = 12 then [backslash, CHR ''f'']
      else if byte c = 10 then [backslash, CHR ''n'']
      else if byte c = 13 then [backslash, CHR ''r'']
      else if byte c = 9 then [backslash, CHR ''t'']
      else if byte c < 32 \<or> c \<in> {CHR ''<'', CHR ''>'', CHR ''&''}
        then [backslash, CHR ''u'', CHR ''0'', CHR ''0'', hex_digit (byte c div 16), hex_digit (byte c mod 16)]
      else [c])"

definition quoted_text :: "string \<Rightarrow> string" where
  "quoted_text s = dquote # concat (map escaped_char s) @ [dquote]"

primrec json_text :: "json \<Rightarrow> string" where
  "json_text JNull = ''null''"
| "json_text (JBool b) = (if b then ''true'' else ''false'')"
| "json_text (JNum l) = l"
| "json_text (JStr s) = quoted_text s"
| "json_text (JArr xs) = ''['' @ join_with '','' (map json_text xs) @ '']''"
| "json_text (JObj kvs) =
     ''{'' @ join_with '','' (map (\<lambda>(k, t). quoted_text k @ '':'' @ t) (map (map_prod id json_text) kvs)) @ ''}''"

subsection \<open>The decoder\<close>

definition hex_value :: "char \<Rightarrow> nat option" where
  "hex_value c =
     (let n = byte c in
      if 48 \<le> n \<and> n \<le> 57 then Some (n - 48) else if 97 \<le> n \<and> n \<le> 102 then Some (n - 87)
      else if 65 \<le> n \<and> n \<le> 70 then Some (n - 55) else None)"

definition hex4 :: "char \<Rightarrow> char \<Rightarrow> char \<Rightarrow> char \<Rightarrow> nat option" where
  "hex4 a b c d =
     (case (hex_value a, hex_value b, hex_value c, hex_value d) of
        (Some w, Some x, Some y, Some z) \<Rightarrow> Some (((w * 16 + x) * 16 + y) * 16 + z)
      | _ \<Rightarrow> None)"

definition utf8 :: "nat \<Rightarrow> string" where
  "utf8 u =
     map char_of
       (if u < 128 then [u]
        else if u < 2048 then [192 + u div 64, 128 + u mod 64]
        else if u < 65536 then [224 + u div 4096, 128 + u div 64 mod 64, 128 + u mod 64]
        else [240 + u div 262144, 128 + u div 4096 mod 64, 128 + u div 64 mod 64, 128 + u mod 64])"

definition surrogate :: "nat \<Rightarrow> bool" where
  "surrogate u \<longleftrightarrow> 55296 \<le> u \<and> u < 57344"

text \<open>A pair of surrogates is one code point; a lone one becomes the replacement character.\<close>

definition surrogate_pair :: "nat \<Rightarrow> string \<Rightarrow> nat option" where
  "surrogate_pair u r =
     (case r of
        x # y # a # b # c # d # _ \<Rightarrow>
          (if x = backslash \<and> y = CHR ''u'' then
             (case hex4 a b c d of
                Some v \<Rightarrow>
                  (if 55296 \<le> u \<and> u < 56320 \<and> 56320 \<le> v \<and> v < 57344
                   then Some (65536 + (u - 55296) * 1024 + (v - 56320)) else None)
              | None \<Rightarrow> None)
           else None)
      | _ \<Rightarrow> None)"

definition simple_escape :: "char \<Rightarrow> char option" where
  "simple_escape c =
     (if c = dquote \<or> c = backslash \<or> c = CHR ''/'' then Some c
      else if c = CHR ''b'' then Some (char_of (8 :: nat)) else if c = CHR ''f'' then Some (char_of (12 :: nat))
      else if c = CHR ''n'' then Some (char_of (10 :: nat)) else if c = CHR ''r'' then Some (char_of (13 :: nat))
      else if c = CHR ''t'' then Some (char_of (9 :: nat)) else None)"

text \<open>Behind the opening quote: the text and what follows the closing one.\<close>

definition before :: "string \<Rightarrow> (string \<times> string) option \<Rightarrow> (string \<times> string) option" where
  "before p x = map_option (\<lambda>(t, r). (p @ t, r)) x"

function scan_string :: "string \<Rightarrow> (string \<times> string) option" where
  "scan_string s =
     (case s of
        [] \<Rightarrow> None
      | c # r \<Rightarrow>
          if c = dquote then Some ([], r)
          else if c = backslash then
            (case r of
               [] \<Rightarrow> None
             | e # r1 \<Rightarrow>
                 if e = CHR ''u'' then
                   (case r1 of
                      h1 # h2 # h3 # h4 # r2 \<Rightarrow>
                        (case hex4 h1 h2 h3 h4 of
                           None \<Rightarrow> None
                         | Some u \<Rightarrow>
                             if \<not> surrogate u then before (utf8 u) (scan_string r2)
                             else (case surrogate_pair u r2 of
                                     Some v \<Rightarrow> before (utf8 v) (scan_string (drop 6 r2))
                                   | None \<Rightarrow> before (utf8 65533) (scan_string r2)))
                    | _ \<Rightarrow> None)
                 else (case simple_escape e of None \<Rightarrow> None | Some x \<Rightarrow> before [x] (scan_string r1)))
          else if byte c < 32 then None
          else before [c] (scan_string r))"
  by pat_completeness auto
termination
  by (relation "measure length") auto

declare scan_string.simps [simp del]

definition json_space :: "char \<Rightarrow> bool" where
  "json_space c \<longleftrightarrow> byte c \<in> {32, 9, 10, 13}"

definition skip_space :: "string \<Rightarrow> string" where
  "skip_space = dropWhile json_space"

text \<open>A number: the longest run of characters that occur in numbers, which must be one.\<close>

definition number_char :: "char \<Rightarrow> bool" where
  "number_char c \<longleftrightarrow> is_digit c \<or> c \<in> set ''+-.eE''"

definition whole_part :: "string \<Rightarrow> string option" where
  "whole_part s =
     (case s of
        [] \<Rightarrow> None
      | c # r \<Rightarrow> if c = CHR ''0'' then Some r else if is_digit c then Some (dropWhile is_digit r) else None)"

definition some_digits :: "string \<Rightarrow> string option" where
  "some_digits s = (case s of [] \<Rightarrow> None | c # r \<Rightarrow> if is_digit c then Some (dropWhile is_digit r) else None)"

definition fraction_part :: "string \<Rightarrow> string option" where
  "fraction_part s = (case s of c # r \<Rightarrow> if c = CHR ''.'' then some_digits r else Some s | [] \<Rightarrow> Some s)"

definition exponent_part :: "string \<Rightarrow> string option" where
  "exponent_part s =
     (case s of
        c # r \<Rightarrow>
          if c = CHR ''e'' \<or> c = CHR ''E'' then
            some_digits (case r of d # r' \<Rightarrow> if d = CHR ''+'' \<or> d = CHR ''-'' then r' else r | [] \<Rightarrow> r)
          else Some s
      | [] \<Rightarrow> Some s)"

definition number_literal :: "string \<Rightarrow> bool" where
  "number_literal s \<longleftrightarrow>
     Option.bind (whole_part (case s of c # r \<Rightarrow> if c = CHR ''-'' then r else s | [] \<Rightarrow> s))
       (\<lambda>r. Option.bind (fraction_part r) exponent_part) = Some []"

definition scan_literal :: "string \<Rightarrow> (json \<times> string) option" where
  "scan_literal s =
     (if has_prefix s ''null'' then Some (JNull, drop 4 s)
      else if has_prefix s ''true'' then Some (JBool True, drop 4 s)
      else if has_prefix s ''false'' then Some (JBool False, drop 5 s)
      else if number_literal (takeWhile number_char s)
        then Some (JNum (takeWhile number_char s), dropWhile number_char s)
      else None)"

text \<open>The values, with fuel; \<open>json_parse\<close> gives enough.\<close>

fun parse_value :: "nat \<Rightarrow> string \<Rightarrow> (json \<times> string) option"
  and parse_items :: "nat \<Rightarrow> string \<Rightarrow> (json list \<times> string) option"
  and parse_members :: "nat \<Rightarrow> string \<Rightarrow> ((string \<times> json) list \<times> string) option" where
  "parse_value 0 s = None"
| "parse_value (Suc n) s =
     (case skip_space s of
        [] \<Rightarrow> None
      | c # r \<Rightarrow>
          if c = dquote then map_option (\<lambda>(t, r'). (JStr t, r')) (scan_string r)
          else if c = CHR ''['' then
            (if has_prefix (skip_space r) '']'' then Some (JArr [], tl (skip_space r))
             else map_option (\<lambda>(xs, r'). (JArr xs, r')) (parse_items n r))
          else if c = CHR ''{'' then
            (if has_prefix (skip_space r) ''}'' then Some (JObj [], tl (skip_space r))
             else map_option (\<lambda>(kvs, r'). (JObj kvs, r')) (parse_members n r))
          else scan_literal (c # r))"
| "parse_items 0 s = None"
| "parse_items (Suc n) s =
     (case parse_value n s of
        None \<Rightarrow> None
      | Some (v, r) \<Rightarrow>
          (case skip_space r of
             [] \<Rightarrow> None
           | d # r' \<Rightarrow>
               if d = CHR '','' then map_option (\<lambda>(vs, r2). (v # vs, r2)) (parse_items n r')
               else if d = CHR '']'' then Some ([v], r')
               else None))"
| "parse_members 0 s = None"
| "parse_members (Suc n) s =
     (case skip_space s of
        [] \<Rightarrow> None
      | q # r \<Rightarrow>
          if q \<noteq> dquote then None
          else case scan_string r of
            None \<Rightarrow> None
          | Some (k, r1) \<Rightarrow>
              (case skip_space r1 of
                 [] \<Rightarrow> None
               | d # r2 \<Rightarrow>
                   if d \<noteq> CHR '':'' then None
                   else case parse_value n r2 of
                     None \<Rightarrow> None
                   | Some (v, r3) \<Rightarrow>
                       (case skip_space r3 of
                          [] \<Rightarrow> None
                        | f # r4 \<Rightarrow>
                            if f = CHR '','' then map_option (\<lambda>(kvs, r5). ((k, v) # kvs, r5)) (parse_members n r4)
                            else if f = CHR ''}'' then Some ([(k, v)], r4)
                            else None)))"

text \<open>What \<open>Decoder.Decode\<close> reads: the first value, and the rest.\<close>

definition json_parse :: "string \<Rightarrow> (json \<times> string) option" where
  "json_parse s = parse_value (2 * length s + 1) s"

subsection \<open>What is written is read\<close>

lemma byte_char_of: "n < 256 \<Longrightarrow> byte (char_of n) = n"
  by (simp add: byte_def)

lemma byte_eq_char: "byte c = n \<Longrightarrow> c = char_of n"
  by (auto simp: byte_def)

lemma char_of_byte: "char_of (byte c) = c"
  by (simp add: byte_def)

lemma byte_less [simp]: "byte c < 256"
  by (simp add: byte_def)

lemma hex_value_digit: "d < 16 \<Longrightarrow> hex_value (hex_digit d) = Some d"
  by (simp add: hex_value_def hex_digit_def digit_def byte_char_of Let_def)

lemma hex4_byte: "hex4 CHR ''0'' CHR ''0'' (hex_digit (byte c div 16)) (hex_digit (byte c mod 16)) = Some (byte c)"
proof -
  have "byte c div 16 < 16"
    using byte_less[of c] by (simp add: less_mult_imp_div_less)
  moreover have "hex_value CHR ''0'' = Some 0"
    by (simp add: hex_value_def byte_def Let_def)
  ultimately show ?thesis
    by (simp add: hex4_def hex_value_digit)
qed

lemma escape_scanned: "scan_string (escaped_char c @ x) = before [c] (scan_string x)"
proof -
  have simple: "scan_string (backslash # e # x) = before [d] (scan_string x)"
    if "simple_escape e = Some d" "e \<noteq> CHR ''u''" for e d
    using that by (subst scan_string.simps) simp
  have code: "scan_string (backslash # CHR ''u'' # CHR ''0'' # CHR ''0'' # hex_digit (byte c div 16) # hex_digit (byte c mod 16) # x) =
      before [c] (scan_string x)" if "byte c < 128"
    using that by (subst scan_string.simps) (simp add: hex4_byte surrogate_def utf8_def char_of_byte)
  have small: "byte d < 128" if "d \<in> {CHR ''<'', CHR ''>'', CHR ''&''}" for d
    using that by (auto simp: byte_def)
  consider "c = dquote \<or> c = backslash" | "byte c \<in> {8, 12, 10, 13, 9}" "c \<noteq> dquote" "c \<noteq> backslash"
    | "byte c \<notin> {8, 12, 10, 13, 9}" "byte c < 32 \<or> c \<in> {CHR ''<'', CHR ''>'', CHR ''&''}" "c \<noteq> dquote" "c \<noteq> backslash"
    | "byte c \<notin> {8, 12, 10, 13, 9}" "\<not> byte c < 32" "c \<notin> {CHR ''<'', CHR ''>'', CHR ''&''}" "c \<noteq> dquote" "c \<noteq> backslash"
    by blast
  then show ?thesis
  proof cases
    case 1
    then have "simple_escape c = Some c" "c \<noteq> CHR ''u''" "escaped_char c = [backslash, c]"
      by (auto simp: simple_escape_def escaped_char_def dquote_def backslash_def)
    then show ?thesis
      by (simp add: simple)
  next
    case 2
    then have "\<exists>e. simple_escape e = Some c \<and> e \<noteq> CHR ''u'' \<and> escaped_char c = [backslash, e]"
      by (auto simp: simple_escape_def escaped_char_def dquote_def backslash_def dest: byte_eq_char)
    then show ?thesis
      by (auto simp: simple)
  next
    case 3
    then have "escaped_char c = [backslash, CHR ''u'', CHR ''0'', CHR ''0'', hex_digit (byte c div 16), hex_digit (byte c mod 16)]"
      by (simp add: escaped_char_def)
    moreover have "byte c < 128"
      using 3(2) small[of c] by linarith
    ultimately show ?thesis
      by (simp only: append.simps code)
  next
    case 4
    then show ?thesis
      by (subst scan_string.simps) (simp add: escaped_char_def)
  qed
qed

lemma quoted_scanned: "scan_string (concat (map escaped_char s) @ dquote # r) = Some (s, r)"
proof (induction s)
  case Nil
  show ?case
    by (subst concat.simps list.map)+ (simp add: scan_string.simps)
next
  case (Cons c s)
  then show ?case
    by (simp add: escape_scanned before_def)
qed

text \<open>A value whose numbers are numbers; what follows it must not prolong a number.\<close>

primrec json_ok :: "json \<Rightarrow> bool" where
  "json_ok JNull \<longleftrightarrow> True"
| "json_ok (JBool b) \<longleftrightarrow> True"
| "json_ok (JNum l) \<longleftrightarrow> number_literal l \<and> list_all number_char l"
| "json_ok (JStr s) \<longleftrightarrow> True"
| "json_ok (JArr xs) \<longleftrightarrow> list_all id (map json_ok xs)"
| "json_ok (JObj kvs) \<longleftrightarrow> list_all snd (map (map_prod id json_ok) kvs)"

definition stops :: "string \<Rightarrow> bool" where
  "stops r \<longleftrightarrow> (case r of [] \<Rightarrow> True | c # _ \<Rightarrow> \<not> number_char c)"

lemma stops_Cons [simp]: "stops (c # r) \<longleftrightarrow> \<not> number_char c"
  by (simp add: stops_def)

lemma delimiters [simp]:
  "\<not> number_char CHR '',''" "\<not> number_char CHR '']''" "\<not> number_char CHR ''}''" "\<not> json_space CHR '',''" "\<not> json_space CHR '']''"
  "\<not> json_space CHR ''}''" "\<not> json_space CHR '':''" "\<not> json_space CHR ''[''" "\<not> json_space CHR ''{''" "\<not> json_space dquote"
  "CHR ''['' \<noteq> dquote" "CHR ''{'' \<noteq> dquote"
  "dquote \<noteq> CHR ''[''" "dquote \<noteq> CHR '']''" "dquote \<noteq> CHR ''{''" "dquote \<noteq> CHR ''}''"
  by (simp_all add: number_char_def is_digit_def json_space_def byte_def dquote_def)

lemma skip_space_Cons [simp]: "\<not> json_space c \<Longrightarrow> skip_space (c # r) = c # r"
  by (simp add: skip_space_def)

lemma number_starts:
  assumes "number_literal l"
  obtains c r where "l = c # r" "c = CHR ''-'' \<or> is_digit c"
  using assms by (cases l) (auto simp: number_literal_def whole_part_def is_digit_def byte_def split: if_splits)

lemma digit_chars:
  assumes "c = CHR ''-'' \<or> is_digit c"
  shows "\<not> json_space c" "c \<noteq> dquote" "c \<noteq> CHR ''[''" "c \<noteq> CHR ''{''" "c \<noteq> CHR '']''" "c \<noteq> CHR ''}''"
    "c \<noteq> CHR ''n''" "c \<noteq> CHR ''t''" "c \<noteq> CHR ''f''"
  using assms by (auto simp: json_space_def is_digit_def byte_def dquote_def)

lemma has_prefix_Cons: "has_prefix s (c # p) \<longleftrightarrow> (case s of [] \<Rightarrow> False | d # r \<Rightarrow> d = c \<and> has_prefix r p)"
  by (cases s) (auto simp: has_prefix_def)

lemma has_prefix_Nil [simp]: "has_prefix s []"
  by (simp add: has_prefix_def)

lemma scan_number:
  assumes "number_literal l" "list_all number_char l" "stops r"
  shows "scan_literal (l @ r) = Some (JNum l, r)"
proof -
  obtain c l' where l: "l = c # l'" "c = CHR ''-'' \<or> is_digit c"
    using assms(1) by (rule number_starts)
  have "takeWhile number_char (l @ r) = l \<and> dropWhile number_char (l @ r) = r"
    using assms(2,3) by (cases r) (auto simp: list_all_iff takeWhile_append2 dropWhile_append2)
  moreover have "\<not> has_prefix (l @ r) ''null''" "\<not> has_prefix (l @ r) ''true''" "\<not> has_prefix (l @ r) ''false''"
    using digit_chars(7-9)[OF l(2)] by (simp_all add: l(1) has_prefix_Cons)
  ultimately show ?thesis
    using assms(1) by (simp add: scan_literal_def)
qed

lemma text_starts:
  assumes "json_ok j"
  obtains c r where "json_text j = c # r" "\<not> json_space c" "c \<noteq> CHR '']''"
proof (cases j)
  case (JNum l)
  then obtain c r where "l = c # r" "c = CHR ''-'' \<or> is_digit c"
    using assms number_starts by auto
  then show ?thesis
    using that JNum digit_chars by simp
next
  case (JBool b)
  then show ?thesis
    using that by (cases b) (simp_all add: json_space_def byte_def)
qed (use that in \<open>simp_all add: quoted_text_def json_space_def[of "CHR ''n''"] byte_def\<close>)

definition reads_back :: "json \<Rightarrow> bool" where
  "reads_back j \<longleftrightarrow>
     (\<forall>n rest. 2 * length (json_text j) \<le> n \<longrightarrow> stops rest \<longrightarrow> parse_value n (json_text j @ rest) = Some (j, rest))"

lemma reads_backD:
  "reads_back j \<Longrightarrow> 2 * length (json_text j) \<le> n \<Longrightarrow> stops rest \<Longrightarrow> parse_value n (json_text j @ rest) = Some (j, rest)"
  by (simp add: reads_back_def)

lemma items_read_back:
  assumes "xs \<noteq> []" "\<forall>x \<in> set xs. reads_back x" "2 * length (join_with '','' (map json_text xs)) + 1 \<le> n"
  shows "parse_items n (join_with '','' (map json_text xs) @ CHR '']'' # rest) = Some (xs, rest)"
  using assms
proof (induction xs arbitrary: n)
  case (Cons x xs)
  obtain m where n: "n = Suc m"
    using Cons.prems(3) by (cases n) auto
  show ?case
  proof (cases xs)
    case Nil
    then show ?thesis
      using Cons.prems n by (simp add: reads_backD)
  next
    case (Cons y ys)
    let ?rest = "join_with '','' (map json_text xs) @ CHR '']'' # rest"
    have "parse_value m (json_text x @ CHR '','' # ?rest) = Some (x, CHR '','' # ?rest)"
      using Cons.prems n by (intro reads_backD) (simp_all add: \<open>xs = y # ys\<close>)
    moreover have "parse_items m ?rest = Some (xs, rest)"
      using Cons.prems n by (intro Cons.IH) (simp_all add: \<open>xs = y # ys\<close>)
    ultimately show ?thesis
      by (simp add: n \<open>xs = y # ys\<close>)
  qed
qed simp

definition member_text :: "string \<times> json \<Rightarrow> string" where
  "member_text kv = quoted_text (fst kv) @ '':'' @ json_text (snd kv)"

lemma object_text: "json_text (JObj kvs) = ''{'' @ join_with '','' (map member_text kvs) @ ''}''"
  by (simp add: member_text_def[abs_def] case_prod_beta comp_def)

lemma member_text_pair:
  "member_text (k, v) = dquote # concat (map escaped_char k) @ dquote # CHR '':'' # json_text v"
  by (simp add: member_text_def quoted_text_def)

lemma members_read_back:
  assumes "kvs \<noteq> []" "\<forall>kv \<in> set kvs. reads_back (snd kv)" "2 * length (join_with '','' (map member_text kvs)) + 1 \<le> n"
  shows "parse_members n (join_with '','' (map member_text kvs) @ CHR ''}'' # rest) = Some (kvs, rest)"
  using assms
proof (induction kvs arbitrary: n)
  case (Cons kv kvs)
  obtain k v where kv: "kv = (k, v)" by (cases kv)
  obtain m where n: "n = Suc m"
    using Cons.prems(3) by (cases n) auto
  have key: "scan_string (concat (map escaped_char k) @ dquote # r) = Some (k, r)" for r
    by (rule quoted_scanned)
  show ?case
  proof (cases kvs)
    case Nil
    have "parse_value m (json_text v @ CHR ''}'' # rest) = Some (v, CHR ''}'' # rest)"
      using Cons.prems n Nil by (intro reads_backD) (simp_all add: kv member_text_pair)
    then show ?thesis
      using Nil by (simp add: n kv member_text_pair key)
  next
    case (Cons y ys)
    let ?rest = "join_with '','' (map member_text kvs) @ CHR ''}'' # rest"
    have "parse_value m (json_text v @ CHR '','' # ?rest) = Some (v, CHR '','' # ?rest)"
      using Cons.prems n by (intro reads_backD) (simp_all add: \<open>kvs = y # ys\<close> kv member_text_pair)
    moreover have "parse_members m ?rest = Some (kvs, rest)"
      using Cons.prems n by (intro Cons.IH) (simp_all add: \<open>kvs = y # ys\<close>)
    ultimately show ?thesis
      by (simp add: n kv member_text_pair key \<open>kvs = y # ys\<close>)
  qed
qed simp

lemma words_read:
  assumes "0 < n"
  shows "parse_value n (CHR ''n'' # CHR ''u'' # CHR ''l'' # CHR ''l'' # rest) = Some (JNull, rest)"
    "parse_value n (CHR ''t'' # CHR ''r'' # CHR ''u'' # CHR ''e'' # rest) = Some (JBool True, rest)"
    "parse_value n (CHR ''f'' # CHR ''a'' # CHR ''l'' # CHR ''s'' # CHR ''e'' # rest) = Some (JBool False, rest)"
  using assms by (cases n; simp add: scan_literal_def has_prefix_Cons skip_space_def json_space_def byte_def dquote_def)+

lemma json_reads_back: "json_ok j \<Longrightarrow> reads_back j"
proof (induction j)
  case (JNum l)
  then show ?case
    unfolding reads_back_def
  proof (intro allI impI)
    fix n rest
    assume n: "2 * length (json_text (JNum l)) \<le> n" and rest: "stops rest"
    obtain c l' where l: "l = c # l'" "c = CHR ''-'' \<or> is_digit c"
      using JNum number_starts by auto
    then obtain m where "n = Suc m"
      using n by (cases n) auto
    then show "parse_value n (json_text (JNum l) @ rest) = Some (JNum l, rest)"
      using scan_number[of l rest] JNum rest digit_chars[OF l(2)] by (simp add: l(1))
  qed
next
  case (JStr s)
  have "parse_value n (json_text (JStr s) @ rest) = Some (JStr s, rest)" if "2 * length (json_text (JStr s)) \<le> n" for n rest
    using that by (cases n) (simp_all add: quoted_text_def quoted_scanned)
  then show ?case
    by (simp add: reads_back_def)
next
  case (JArr xs)
  have items: "\<forall>x \<in> set xs. reads_back x"
    using JArr by (auto simp: list_all_iff)
  have "parse_value n (json_text (JArr xs) @ rest) = Some (JArr xs, rest)" if n: "2 * length (json_text (JArr xs)) \<le> n" for n rest
  proof (cases xs)
    case Nil
    then show ?thesis
      using n by (cases n) (simp_all add: has_prefix_Cons)
  next
    case (Cons y ys)
    obtain m where m: "n = Suc m"
      using n by (cases n) auto
    obtain c r where "json_text y = c # r" "\<not> json_space c" "c \<noteq> CHR '']''"
      using JArr.prems Cons text_starts[of y] by auto
    then have "\<not> has_prefix (skip_space (join_with '','' (map json_text xs) @ CHR '']'' # rest)) '']''"
      using Cons by (cases ys) (simp_all add: has_prefix_Cons)
    then show ?thesis
      using items_read_back[of xs m rest] items n by (simp add: m Cons)
  qed
  then show ?case
    by (simp add: reads_back_def)
next
  case (JObj kvs)
  have members: "\<forall>kv \<in> set kvs. reads_back (snd kv)"
    using JObj by (force simp: list_all_iff)
  have "parse_value n (json_text (JObj kvs) @ rest) = Some (JObj kvs, rest)" if n: "2 * length (json_text (JObj kvs)) \<le> n" for n rest
  proof (cases kvs)
    case Nil
    then show ?thesis
      using n by (cases n) (simp_all add: object_text has_prefix_Cons del: json_text.simps)
  next
    case (Cons y ys)
    obtain m where m: "n = Suc m"
      using n by (cases n) (auto simp: object_text simp del: json_text.simps)
    have "\<not> has_prefix (skip_space (join_with '','' (map member_text kvs) @ CHR ''}'' # rest)) ''}''"
      using Cons by (cases y; cases ys) (simp_all add: has_prefix_Cons member_text_pair)
    then show ?thesis
      using members_read_back[of kvs m rest] members n by (simp add: m Cons object_text del: json_text.simps)
  qed
  then show ?case
    by (simp add: reads_back_def del: json_text.simps)
qed (auto simp: reads_back_def words_read)

subsection \<open>The fuel is enough\<close>

lemma skip_space_length: "length (skip_space s) \<le> length s"
  by (simp add: skip_space_def length_dropWhile_le)

lemma skip_space_tl: "length r < m \<Longrightarrow> length (skip_space r) - Suc 0 < m"
  using skip_space_length[of r] by simp

lemma skip_space_shorter: "skip_space s = c # r \<Longrightarrow> length r < length s"
  using skip_space_length[of s] by simp

lemma before_eq_Some: "before p x = Some (t, r) \<longleftrightarrow> (\<exists>t'. x = Some (t', r) \<and> t = p @ t')"
  by (auto simp: before_def)

lemma scan_string_shorter: "scan_string s = Some (t, r) \<Longrightarrow> length r < length s"
proof (induction s arbitrary: t rule: length_induct)
  case (1 s)
  have shorter: "length r < length x" if "scan_string x = Some (t', r)" "length x < length s" for x t'
    using 1 that by blast
  have drop: "length r < length x" if "scan_string (drop 6 x) = Some (t', r)" "length x < length s" for x t'
    using shorter[OF that(1)] that(2) by (simp add: less_imp_diff_less)
  show ?case
    using 1(2) unfolding scan_string.simps[of s]
    by (cases s) (auto simp: before_eq_Some split: list.splits if_splits option.splits dest!: shorter drop)
qed

lemma scan_literal_shorter: "scan_literal s = Some (v, r) \<Longrightarrow> length r < length s"
proof -
  assume lit: "scan_literal s = Some (v, r)"
  have run: "length (dropWhile number_char s) < length s" if num: "number_literal (takeWhile number_char s)"
  proof -
    obtain c l where "takeWhile number_char s = c # l"
      using number_starts[OF num] by metis
    then show ?thesis
      by (metis length_append length_greater_0_conv less_add_same_cancel2 list.distinct(1) takeWhile_dropWhile_id)
  qed
  have "length (drop k s) < length s" if "has_prefix s p" "p \<noteq> []" "0 < k" for k p
    using that by (cases s) (auto simp: has_prefix_def)
  then show ?thesis
    using lit run by (auto simp: scan_literal_def split: if_splits)
qed

lemma parse_shorter:
  "parse_value n s = Some (v, r) \<Longrightarrow> length r < length s"
  "parse_items n s = Some (vs, r) \<Longrightarrow> length r < length s"
  "parse_members n s = Some (kvs, r) \<Longrightarrow> length r < length s"
proof (induction n s and n s and n s arbitrary: v r and vs r and kvs r rule: parse_value_parse_items_parse_members.induct)
  case (2 n s)
  then show ?case
    by (fastforce split: list.splits if_splits option.splits
        dest!: skip_space_shorter scan_string_shorter scan_literal_shorter intro: skip_space_tl)
next
  case (4 n s)
  then show ?case
    by (fastforce split: list.splits if_splits option.splits dest!: skip_space_shorter)
next
  case (6 n s)
  then show ?case
    by (fastforce split: list.splits if_splits option.splits prod.splits dest!: skip_space_shorter scan_string_shorter)
qed simp_all

text \<open>More fuel than twice the length and one changes nothing.\<close>

lemma parse_enough:
  "(\<forall>s. 2 * length s + 1 \<le> n \<longrightarrow> parse_value (Suc n) s = parse_value n s) \<and>
   (\<forall>s. 2 * length s + 2 \<le> n \<longrightarrow> parse_items (Suc n) s = parse_items n s) \<and>
   (\<forall>s. 2 * length s + 2 \<le> n \<longrightarrow> parse_members (Suc n) s = parse_members n s)"
proof (induction n)
  case (Suc n)
  then have v: "2 * length s + 1 \<le> n \<Longrightarrow> parse_value (Suc n) s = parse_value n s"
    and i: "2 * length s + 2 \<le> n \<Longrightarrow> parse_items (Suc n) s = parse_items n s"
    and m: "2 * length s + 2 \<le> n \<Longrightarrow> parse_members (Suc n) s = parse_members n s" for s
    by blast+
  note unfolds = parse_value.simps(2)[of n] parse_value.simps(2)[of "Suc n"] parse_items.simps(2)[of n]
    parse_items.simps(2)[of "Suc n"] parse_members.simps(2)[of n] parse_members.simps(2)[of "Suc n"]
  note folds = parse_value.simps(2) parse_items.simps(2) parse_members.simps(2)
  have "parse_value (Suc (Suc n)) s = parse_value (Suc n) s" if len: "2 * length s + 1 \<le> Suc n" for s
  proof (cases "skip_space s")
    case (Cons c r)
    then show ?thesis
      using i[of r] m[of r] len skip_space_shorter[OF Cons] by (simp add: unfolds del: folds)
  qed (simp add: parse_value.simps)
  moreover have "parse_items (Suc (Suc n)) s = parse_items (Suc n) s" if len: "2 * length s + 2 \<le> Suc n" for s
  proof -
    have "parse_items (Suc n) r' = parse_items n r'"
      if "parse_value n s = Some (v, r)" "skip_space r = c # r'" for v r c r'
      using i[of r'] len parse_shorter(1)[OF that(1)] skip_space_shorter[OF that(2)] by simp
    then show ?thesis
      using v[of s] len by (auto simp: unfolds simp del: folds split: option.splits list.splits)
  qed
  moreover have "parse_members (Suc (Suc n)) s = parse_members (Suc n) s" if len: "2 * length s + 2 \<le> Suc n" for s
  proof -
    have "parse_value (Suc n) r2 = parse_value n r2"
      if "skip_space s = q # r" "scan_string r = Some (k, r1)" "skip_space r1 = d # r2" for q r k r1 d r2
      using v[of r2] len skip_space_shorter[OF that(1)] scan_string_shorter[OF that(2)] skip_space_shorter[OF that(3)]
      by simp
    moreover have "parse_members (Suc n) r4 = parse_members n r4"
      if "skip_space s = q # r" "scan_string r = Some (k, r1)" "skip_space r1 = d # r2" "parse_value n r2 = Some (v, r3)"
        "skip_space r3 = f # r4" for q r k r1 d r2 v r3 f r4
      using m[of r4] len skip_space_shorter[OF that(1)] scan_string_shorter[OF that(2)] skip_space_shorter[OF that(3)]
        parse_shorter(1)[OF that(4)] skip_space_shorter[OF that(5)]
      by simp
    ultimately show ?thesis
      by (auto simp: unfolds simp del: folds split: option.splits list.splits)
  qed
  ultimately show ?case
    by blast
qed simp

lemma fuel_is_enough:
  assumes "2 * length s + 1 \<le> n"
  shows "parse_value n s = json_parse s"
  using assms
proof (induction n rule: dec_induct)
  case (step n)
  then show ?case
    using parse_enough[of n] by simp
qed (simp add: json_parse_def)

text \<open>The text of a value, and anything behind it that is not part of a number, is read as that value.\<close>

lemma json_round_trip: "json_ok j \<Longrightarrow> stops rest \<Longrightarrow> json_parse (json_text j @ rest) = Some (j, rest)"
  unfolding json_parse_def by (rule reads_backD[OF json_reads_back]) simp_all


subsection \<open>NUL is not JSON\<close>

definition nul :: char where "nul = CHR 0x00"

text \<open>What is read has no NUL before its end.\<close>

lemma nul_stays_space: "nul \<in> set s \<Longrightarrow> nul \<in> set (skip_space s)"
proof (induction s)
  case (Cons c s)
  have "\<not> json_space nul"
    by (simp add: json_space_def nul_def byte_def)
  then show ?case
    using Cons by (auto simp: skip_space_def)
qed simp

lemma nul_stays_Cons: "skip_space s = c # r \<Longrightarrow> nul \<in> set s \<Longrightarrow> c \<noteq> nul \<Longrightarrow> nul \<in> set r"
  using nul_stays_space by force

lemma special_no_nul [simp]:
  "hex_value nul = None" "dquote \<noteq> nul" "nul \<noteq> dquote" "backslash \<noteq> nul" "nul \<noteq> backslash"
  "simple_escape nul = None" "byte nul < 32" "nul \<noteq> CHR ''u''" "\<not> number_char nul"
  by (code_simp; fail)+

lemma hex4_no_nul: "hex4 a b c d = Some n \<Longrightarrow> a \<noteq> nul \<and> b \<noteq> nul \<and> c \<noteq> nul \<and> d \<noteq> nul"
  by (auto simp: hex4_def split: option.splits)

lemma surrogate_pair_no_nul: "surrogate_pair u s = Some v \<Longrightarrow> nul \<in> set s \<Longrightarrow> nul \<in> set (drop 6 s)"
  by (auto simp: surrogate_pair_def split: list.splits if_splits option.splits dest!: hex4_no_nul)

lemma scan_string_nul: "scan_string s = Some (t, r) \<Longrightarrow> nul \<in> set s \<Longrightarrow> nul \<in> set r"
proof (induction s arbitrary: t rule: length_induct)
  case (1 s)
  have later: "nul \<in> set r" if "scan_string x = Some (t', r)" "length x < length s" "nul \<in> set x" for x t'
    using 1 that by blast
  have two: "nul \<in> set r"
    if "scan_string (drop 6 x) = Some (t', r)" "length x < length s" "nul \<in> set x" "surrogate_pair u x = Some v" for x t' u v
    using later[OF that(1)] surrogate_pair_no_nul[OF that(4,3)] that(2) by (simp add: less_imp_diff_less)
  have escape: "e \<noteq> nul" if "simple_escape e = Some x" for e x
    using that by auto
  show ?case
    using 1(2,3) unfolding scan_string.simps[of s]
    by (cases s) (auto simp: before_eq_Some split: list.splits if_splits option.splits
        dest: hex4_no_nul escape intro: later two)
qed

lemma scan_literal_nul: "scan_literal s = Some (v, r) \<Longrightarrow> nul \<in> set s \<Longrightarrow> nul \<in> set r"
proof -
  assume lit: "scan_literal s = Some (v, r)" and nul: "nul \<in> set s"
  have "nul \<in> set (drop (length p) s)" if "has_prefix s p" "nul \<notin> set p" for p
    using has_prefixE[OF that(1)] that(2) nul by auto
  from this[of "''null''"] this[of "''true''"] this[of "''false''"]
  have words: "has_prefix s ''null'' \<or> has_prefix s ''true'' \<Longrightarrow> nul \<in> set (drop 4 s)"
    "has_prefix s ''false'' \<Longrightarrow> nul \<in> set (drop 5 s)"
    by (auto simp: nul_def eval_nat_numeral)
  have "nul \<in> set (dropWhile number_char s)"
    using nul by (metis Un_iff set_append set_takeWhileD special_no_nul(9) takeWhile_dropWhile_id)
  then show ?thesis
    using lit words by (auto simp: scan_literal_def split: if_splits)
qed

lemma nul_behind: "has_prefix (skip_space s) [c] \<Longrightarrow> nul \<in> set s \<Longrightarrow> c \<noteq> nul \<Longrightarrow> nul \<in> set (tl (skip_space s))"
  using nul_stays_space[of s] by (cases "skip_space s") (auto simp: has_prefix_Cons)

lemma parse_nul:
  "parse_value n s = Some (v, r) \<Longrightarrow> nul \<in> set s \<Longrightarrow> nul \<in> set r"
  "parse_items n s = Some (vs, r) \<Longrightarrow> nul \<in> set s \<Longrightarrow> nul \<in> set r"
  "parse_members n s = Some (kvs, r) \<Longrightarrow> nul \<in> set s \<Longrightarrow> nul \<in> set r"
proof (induction n s and n s and n s arbitrary: v r and vs r and kvs r rule: parse_value_parse_items_parse_members.induct)
  case (2 n s)
  obtain c r' where s: "skip_space s = c # r'"
    using 2(3) by (auto split: list.splits)
  have nul: "nul \<in> set (c # r')" "nul \<noteq> CHR ''[''" "nul \<noteq> CHR ''{''" "nul \<noteq> CHR '']''" "nul \<noteq> CHR ''}''"
    using nul_stays_space[OF 2(4)] s by (simp_all add: nul_def)
  show ?case
    using 2(1)[OF s] 2(2)[OF s] 2(3) s nul nul_behind[of r' "CHR '']''"] nul_behind[of r' "CHR ''}''"]
    by (auto split: if_splits dest: scan_string_nul scan_literal_nul)
next
  case (4 n s)
  have nul: "nul \<noteq> CHR '',''" "nul \<noteq> CHR '']''"
    by (simp_all add: nul_def)
  show ?case
    using 4 nul by (fastforce split: list.splits if_splits option.splits prod.splits dest: nul_stays_Cons)
next
  case (6 n s)
  have nul: "nul \<noteq> CHR '',''" "nul \<noteq> CHR '':''" "nul \<noteq> CHR ''}''"
    by (simp_all add: nul_def)
  show ?case
    using 6 nul by (fastforce split: list.splits if_splits option.splits prod.splits dest: nul_stays_Cons scan_string_nul)
qed simp_all

end
