(* ===== verification/Base64.thy ===== *)
theory Base64
  imports Main
begin

section \<open>Base64 (encoding/base64)\<close>

text \<open>
  The three encodings the program uses: RawURLEncoding without padding, URLEncoding read strictly, and the
  StdEncoding of JSON byte strings. Bytes are numbers below 256.
\<close>

subsection \<open>RawURLEncoding\<close>

definition b64_char :: "nat \<Rightarrow> char" where
  "b64_char d =
     (if d < 26 then char_of (65 + d) else if d < 52 then char_of (71 + d)
      else if d < 62 then char_of (d - 4) else if d = 62 then CHR ''-'' else CHR ''_'')"

fun b64_encode :: "nat list \<Rightarrow> string" where
  "b64_encode [] = []"
| "b64_encode [a] = [b64_char (a div 4), b64_char (a mod 4 * 16)]"
| "b64_encode [a, b] = [b64_char (a div 4), b64_char (a mod 4 * 16 + b div 16), b64_char (b mod 16 * 4)]"
| "b64_encode (a # b # c # r) =
     b64_char (a div 4) # b64_char (a mod 4 * 16 + b div 16) # b64_char (b mod 16 * 4 + c div 64) #
     b64_char (c mod 64) # b64_encode r"

definition b64_value :: "char \<Rightarrow> nat option" where
  "b64_value ch =
     (let n = of_char ch :: nat in
      if 65 \<le> n \<and> n \<le> 90 then Some (n - 65) else if 97 \<le> n \<and> n \<le> 122 then Some (n - 71)
      else if 48 \<le> n \<and> n \<le> 57 then Some (n + 4) else if n = 45 then Some 62 else if n = 95 then Some 63 else None)"

fun b64_decode_values :: "nat list \<Rightarrow> nat list option" where
  "b64_decode_values [] = Some []"
| "b64_decode_values [x] = None"
| "b64_decode_values [x, y] = Some [x * 4 + y div 16]"
| "b64_decode_values [x, y, z] = Some [x * 4 + y div 16, y mod 16 * 16 + z div 4]"
| "b64_decode_values (x # y # z # u # r) =
     map_option (\<lambda>bs. (x * 4 + y div 16) # (y mod 16 * 16 + z div 4) # (z mod 4 * 64 + u) # bs) (b64_decode_values r)"

fun all_values :: "string \<Rightarrow> nat list option" where
  "all_values [] = Some []"
| "all_values (c # cs) =
     (case b64_value c of None \<Rightarrow> None | Some v \<Rightarrow> map_option ((#) v) (all_values cs))"

definition b64_decode :: "string \<Rightarrow> nat list option" where
  "b64_decode s = (case all_values s of None \<Rightarrow> None | Some vs \<Rightarrow> b64_decode_values vs)"

lemma b64_value_char: "d < 64 \<Longrightarrow> b64_value (b64_char d) = Some d"
  by (auto simp: b64_value_def b64_char_def Let_def)

fun sextets :: "nat list \<Rightarrow> nat list" where
  "sextets [] = []"
| "sextets [a] = [a div 4, a mod 4 * 16]"
| "sextets [a, b] = [a div 4, a mod 4 * 16 + b div 16, b mod 16 * 4]"
| "sextets (a # b # c # r) =
     a div 4 # (a mod 4 * 16 + b div 16) # (b mod 16 * 4 + c div 64) # (c mod 64) # sextets r"

lemma encode_sextets: "b64_encode bs = map b64_char (sextets bs)"
  by (induction bs rule: sextets.induct) simp_all

lemma digits_bound:
  fixes a x k m :: nat
  assumes "x < k" "0 < m"
  shows "a mod m * k + x < m * k"
proof -
  have "a mod m \<le> m - 1"
    using mod_less_divisor[OF assms(2), of a] by simp
  then have "a mod m * k \<le> (m - 1) * k"
    by (rule mult_le_mono1)
  moreover have "(m - 1) * k + k = m * k"
    using assms(2) by (simp add: mult_eq_if)
  ultimately show ?thesis
    using assms(1) by linarith
qed

lemma sextets_small: "list_all (\<lambda>b. b < 256) bs \<Longrightarrow> list_all (\<lambda>d. d < 64) (sextets bs)"
proof (induction bs rule: sextets.induct)
  case (2 a)
  then show ?case by simp
next
  case (3 a b)
  then have "b div 16 < 16" "a div 4 < 64" by auto
  then show ?case
    using 3 digits_bound[of "b div 16" 16 4 a] digits_bound[of 0 4 16 b] by simp
next
  case (4 a b c r)
  then have "b div 16 < 16" "c div 64 < 4" "a div 4 < 64" by auto
  then show ?case
    using 4 digits_bound[of "b div 16" 16 4 a] digits_bound[of "c div 64" 4 16 b] by simp
qed simp

lemma all_values_map: "list_all (\<lambda>d. d < 64) ds \<Longrightarrow> all_values (map b64_char ds) = Some ds"
  by (induction ds) (simp_all add: b64_value_char)

lemma decode_sextets: "list_all (\<lambda>b. b < 256) bs \<Longrightarrow> b64_decode_values (sextets bs) = Some bs"
proof (induction bs rule: sextets.induct)
  case (2 a)
  then show ?case by simp
next
  case (3 a b)
  then have "b div 16 < 16" by auto
  then show ?case by simp
next
  case (4 a b c r)
  then have "b div 16 < 16" "c div 64 < 4" by auto
  then show ?case using 4 by simp
qed simp

lemma b64_round_trip: "list_all (\<lambda>b. b < 256) bs \<Longrightarrow> b64_decode (b64_encode bs) = Some bs"
  by (simp add: b64_decode_def encode_sextets all_values_map sextets_small decode_sextets)

lemma length_sextets: "length (sextets bs) = (4 * length bs + 2) div 3"
  by (induction bs rule: sextets.induct) simp_all

lemma length_b64: "length (b64_encode bs) = (4 * length bs + 2) div 3"
  by (simp add: encode_sextets length_sextets)

subsection \<open>Padded encodings\<close>

text \<open>The characters of six bits each, for an alphabet, and the padding.\<close>

definition b64_padding :: "nat \<Rightarrow> string" where
  "b64_padding k = (if k mod 4 = 2 then ''=='' else if k mod 4 = 3 then ''='' else [])"

definition b64_padded :: "(nat \<Rightarrow> char) \<Rightarrow> nat list \<Rightarrow> string" where
  "b64_padded char_at bs = map char_at (sextets bs) @ b64_padding (length (sextets bs))"

text \<open>The bits of the last character that no byte takes are zero.\<close>

fun clean_tail :: "nat list \<Rightarrow> bool" where
  "clean_tail [x, y] \<longleftrightarrow> y mod 16 = 0"
| "clean_tail [x, y, z] \<longleftrightarrow> z mod 4 = 0"
| "clean_tail (x # y # z # u # r) \<longleftrightarrow> clean_tail r"
| "clean_tail _ \<longleftrightarrow> True"

fun values_of :: "(char \<Rightarrow> nat option) \<Rightarrow> string \<Rightarrow> nat list option" where
  "values_of value_at [] = Some []"
| "values_of value_at (c # cs) =
     (case value_at c of None \<Rightarrow> None | Some v \<Rightarrow> map_option ((#) v) (values_of value_at cs))"

text \<open>Line ends are skipped wherever they are; a strict decoder wants a clean tail.\<close>

definition line_char :: "char \<Rightarrow> bool" where
  "line_char c \<longleftrightarrow> (of_char c :: nat) = 10 \<or> (of_char c :: nat) = 13"

definition b64_unpadded :: "(char \<Rightarrow> nat option) \<Rightarrow> bool \<Rightarrow> string \<Rightarrow> nat list option" where
  "b64_unpadded value_at strict s =
     (let t = filter (\<lambda>c. \<not> line_char c) s;
          body = takeWhile (\<lambda>c. c \<noteq> CHR ''='') t
      in case values_of value_at body of
           None \<Rightarrow> None
         | Some vs \<Rightarrow>
             if dropWhile (\<lambda>c. c \<noteq> CHR ''='') t = b64_padding (length body) \<and> (strict \<longrightarrow> clean_tail vs)
             then b64_decode_values vs else None)"

definition b64_std_char :: "nat \<Rightarrow> char" where
  "b64_std_char d = (if d = 62 then CHR ''+'' else if d = 63 then CHR ''/'' else b64_char d)"

definition b64_std_value :: "char \<Rightarrow> nat option" where
  "b64_std_value c =
     (if c = CHR ''+'' then Some 62 else if c = CHR ''/'' then Some 63
      else if c = CHR ''-'' \<or> c = CHR ''_'' then None else b64_value c)"

lemma clean_sextets: "clean_tail (sextets bs)"
  by (induction bs rule: sextets.induct) simp_all

lemma split_at_padding:
  assumes "\<forall>c \<in> set e. c \<noteq> x" "p = [] \<or> hd p = x"
  shows "takeWhile (\<lambda>c. c \<noteq> x) (e @ p) = e" "dropWhile (\<lambda>c. c \<noteq> x) (e @ p) = p"
  using assms(1) by (induction e) (use assms(2) in \<open>cases p; auto\<close>)+

text \<open>What an alphabet promises, and that any such alphabet can be read back.\<close>

locale b64_alphabet =
  fixes char_at :: "nat \<Rightarrow> char" and value_at :: "char \<Rightarrow> nat option"
  assumes value_char: "d < 64 \<Longrightarrow> value_at (char_at d) = Some d"
    and no_value: "line_char c \<Longrightarrow> value_at c = None" "value_at CHR ''='' = None"
begin

lemma char_plain: "d < 64 \<Longrightarrow> \<not> line_char (char_at d) \<and> char_at d \<noteq> CHR ''=''"
  using value_char[of d] no_value by fastforce

lemma values_char: "list_all (\<lambda>d. d < 64) ds \<Longrightarrow> values_of value_at (map char_at ds) = Some ds"
  by (induction ds) (simp_all add: value_char)

lemma round_trip:
  assumes "list_all (\<lambda>b. b < 256) bs"
  shows "b64_unpadded value_at strict (b64_padded char_at bs) = Some bs"
proof -
  let ?e = "map char_at (sextets bs)" and ?p = "b64_padding (length (sextets bs))"
  have chars: "\<forall>c \<in> set ?e. \<not> line_char c \<and> c \<noteq> CHR ''=''"
    using sextets_small[OF assms] by (auto simp: list_all_iff char_plain)
  have pad: "?p = [] \<or> hd ?p = CHR ''=''" "\<forall>c \<in> set ?p. \<not> line_char c"
    by (auto simp: b64_padding_def line_char_def)
  have kept: "filter (\<lambda>c. \<not> line_char c) (?e @ ?p) = ?e @ ?p"
    using chars pad(2) by (intro filter_True) auto
  have "\<forall>c \<in> set ?e. c \<noteq> CHR ''=''"
    using chars by blast
  note split = split_at_padding[OF this pad(1)]
  show ?thesis
    using decode_sextets[OF assms] clean_sextets values_char[OF sextets_small[OF assms]]
    unfolding b64_unpadded_def b64_padded_def Let_def kept split by simp
qed

end

lemma special_values:
  "b64_value CHR ''-'' = Some 62" "b64_value CHR ''_'' = Some 63" "b64_value CHR ''+'' = None" "b64_value CHR ''/'' = None"
  "b64_value CHR ''='' = None"
  by code_simp+

lemma line_value: "line_char c \<Longrightarrow> b64_value c = None"
  by (auto simp: b64_value_def line_char_def Let_def)

interpretation url: b64_alphabet b64_char b64_value
  by unfold_locales (simp_all add: b64_value_char line_value special_values)

interpretation std: b64_alphabet b64_std_char b64_std_value
proof
  show "b64_std_value (b64_std_char d) = Some d" if "d < 64" for d
  proof (cases "d < 62")
    case True
    then have "b64_char d \<notin> {CHR ''+'', CHR ''/'', CHR ''-'', CHR ''_''}"
      using b64_value_char[of d] special_values by auto
    then show ?thesis
      using True by (simp add: b64_std_value_def b64_std_char_def b64_value_char)
  next
    case False
    then show ?thesis
      using that by (auto simp: b64_std_value_def b64_std_char_def)
  qed
  show "line_char c \<Longrightarrow> b64_std_value c = None" for c
    by (auto simp: b64_std_value_def line_value) (auto simp: line_char_def)
  show "b64_std_value CHR ''='' = None"
    by (simp add: b64_std_value_def special_values)
qed

end
