(* ===== verification/Json_Decode.thy ===== *)
theory Json_Decode
  imports Json Base64
begin

section \<open>Decoding JSON into Go values\<close>

text \<open>
  What \<open>encoding/json\<close> does with a parsed value and the variable it is decoded into, whose old value a null
  leaves as it is. A field of a struct is found by its name or, failing that, without regard to (ASCII) case. An error of any
  field is an error of the whole. A list that occurs twice in an object is replaced.
\<close>

definition names_field :: "string \<Rightarrow> string \<Rightarrow> bool" where
  "names_field k f \<longleftrightarrow> k = f \<or> to_lower k = to_lower f"

fun decode_string :: "json \<Rightarrow> string \<Rightarrow> string option" where
  "decode_string (JStr s) old = Some s"
| "decode_string JNull old = Some old"
| "decode_string _ old = None"

fun decode_bool :: "json \<Rightarrow> bool \<Rightarrow> bool option" where
  "decode_bool (JBool b) old = Some b"
| "decode_bool JNull old = Some old"
| "decode_bool _ old = None"

text \<open>An unsigned number of so many bits.\<close>

fun decode_uint :: "nat \<Rightarrow> json \<Rightarrow> nat \<Rightarrow> nat option" where
  "decode_uint bits (JNum l) old = (if list_all is_digit l \<and> dec_value l < 2 ^ bits then Some (dec_value l) else None)"
| "decode_uint bits JNull old = Some old"
| "decode_uint bits _ old = None"

fun decode_each :: "(json \<Rightarrow> 'a option) \<Rightarrow> json list \<Rightarrow> 'a list option" where
  "decode_each f [] = Some []"
| "decode_each f (x # xs) =
     (case f x of None \<Rightarrow> None | Some y \<Rightarrow> map_option (\<lambda>ys. y # ys) (decode_each f xs))"

fun decode_list :: "(json \<Rightarrow> 'a option) \<Rightarrow> json \<Rightarrow> 'a list option" where
  "decode_list f (JArr xs) = decode_each f xs"
| "decode_list f JNull = Some []"
| "decode_list f _ = None"

text \<open>A byte string is base64, or a list of numbers.\<close>

fun decode_bytes :: "json \<Rightarrow> string option" where
  "decode_bytes (JStr s) = map_option (map char_of) (b64_unpadded b64_std_value False s)"
| "decode_bytes j = map_option (map char_of) (decode_list (\<lambda>x. decode_uint 8 x 0) j)"

fun decode_members :: "(string \<Rightarrow> json \<Rightarrow> 'a \<Rightarrow> 'a option) \<Rightarrow> (string \<times> json) list \<Rightarrow> 'a \<Rightarrow> 'a option" where
  "decode_members f [] x = Some x"
| "decode_members f ((k, v) # kvs) x = (case f k v x of None \<Rightarrow> None | Some y \<Rightarrow> decode_members f kvs y)"

fun decode_object :: "(string \<Rightarrow> json \<Rightarrow> 'a \<Rightarrow> 'a option) \<Rightarrow> json \<Rightarrow> 'a \<Rightarrow> 'a option" where
  "decode_object f (JObj kvs) x = decode_members f kvs x"
| "decode_object f JNull x = Some x"
| "decode_object f _ x = None"

text \<open>What \<open>Unmarshal\<close> reads: one value and white space.\<close>

definition json_whole :: "string \<Rightarrow> json option" where
  "json_whole s =
     (case json_parse s of
        None \<Rightarrow> None
      | Some (j, r) \<Rightarrow> if skip_space r = [] then Some j else None)"

subsection \<open>Encoding\<close>

definition number_json :: "nat \<Rightarrow> json" where
  "number_json n = JNum (dec_nat n)"

definition bytes_json :: "string \<Rightarrow> json" where
  "bytes_json s = JStr (b64_padded b64_std_char (map byte s))"

lemma digits_are_number:
  assumes "list_all is_digit l" "l \<noteq> []" "hd l = CHR ''0'' \<Longrightarrow> l = ''0''"
  shows "number_literal l \<and> list_all number_char l"
proof -
  obtain c r where l: "l = c # r"
    using assms(2) by (cases l) auto
  have [simp]: "dropWhile is_digit r = []"
    using assms(1) by (simp add: l list_all_iff)
  have "c \<noteq> CHR ''-''" "list_all number_char l"
    using assms(1) by (auto simp: l list_all_iff is_digit_def number_char_def)
  then show ?thesis
    using assms(1,3)
    by (auto simp: number_literal_def l whole_part_def fraction_part_def exponent_part_def simp del: dropWhile_eq_Nil_conv)
qed

lemma dec_nat_is_number: "number_literal (dec_nat n) \<and> list_all number_char (dec_nat n)"
  by (rule digits_are_number)
    (auto simp: dec_nat_digits dec_nat_first dec_nat.simps[of 0] zero_digit[symmetric])

lemma number_json_ok: "json_ok (number_json n)"
  by (simp add: number_json_def dec_nat_is_number)

lemma number_reads_back: "n < 2 ^ bits \<Longrightarrow> decode_uint bits (number_json n) old = Some n"
  by (simp add: number_json_def dec_nat_digits)

lemma bytes_read_back: "decode_bytes (bytes_json s) = Some s"
proof -
  have "b64_unpadded b64_std_value False (b64_padded b64_std_char (map byte s)) = Some (map byte s)"
    by (rule std.round_trip) (simp add: list_all_iff)
  then show ?thesis
    by (simp add: bytes_json_def comp_def char_of_byte)
qed

lemma json_whole_text: "json_ok j \<Longrightarrow> json_whole (json_text j) = Some j"
  using json_round_trip[of j "[]"] by (simp add: json_whole_def stops_def skip_space_def)

lemma json_whole_no_nul:
  assumes "nul \<in> set s"
  shows "json_whole s = None"
proof -
  have "skip_space r \<noteq> []" if "json_parse s = Some (j, r)" for j r
  proof -
    have "nul \<in> set r"
      using that assms unfolding json_parse_def by (rule parse_nul(1))
    then show ?thesis
      using nul_stays_space[of r] by auto
  qed
  then show ?thesis
    by (auto simp: json_whole_def split: option.splits)
qed

lemma decode_each_map: "(\<And>x. x \<in> set xs \<Longrightarrow> f (g x) = Some x) \<Longrightarrow> decode_each f (map g xs) = Some xs"
  by (induction xs) auto

text \<open>ASCII text.\<close>

definition ascii :: "string \<Rightarrow> bool" where
  "ascii s \<longleftrightarrow> list_all (\<lambda>c. byte c < 128) s"

end
