(* ===== verification/Fd_Wire.thy ===== *)
theory Fd_Wire
  imports Json_Decode
begin

section \<open>Messages and frames of the descriptor channel (pkg/sandbox/fdchan/fdchan.go)\<close>

text \<open>
  Messages with named file descriptors and their frames on a UNIX stream socket, down to the bytes of their JSON
  text. Open files are numbers that stay the same when a descriptor is passed; bytes are characters. The names and
  purposes of descriptors are ASCII text, which the encoder leaves as it is.
\<close>

type_synonym fd = nat

record annotation =
  an_id :: string
  an_purpose :: string

record payload =
  pl_sequence :: "64 word"
  pl_is_response :: bool
  pl_annotations :: "annotation list"
  pl_data :: string

record message =
  ms_data :: string
  ms_files :: "fd list"
  ms_annotations :: "annotation list"
  ms_seq :: "64 word"

subsection \<open>AddDescriptor and GetDescriptor\<close>

datatype add_error = NilDescriptor | EmptyId | DuplicateId

definition add_descriptor :: "fd option \<Rightarrow> string \<Rightarrow> string \<Rightarrow> message \<Rightarrow> add_error + message" where
  "add_descriptor fo i purpose m =
     (case fo of
        None \<Rightarrow> Inl NilDescriptor
      | Some f \<Rightarrow>
          if i = [] then Inl EmptyId
          else if \<exists>a \<in> set (ms_annotations m). an_id a = i then Inl DuplicateId
          else Inr (m\<lparr>ms_files := ms_files m @ [f],
                     ms_annotations := ms_annotations m @ [\<lparr>an_id = i, an_purpose = purpose\<rparr>]\<rparr>))"

datatype get_error = IntegrityViolation | DescriptorNotFound

text \<open>The scan, with the index it has reached.\<close>

fun scan_descriptors ::
  "string \<Rightarrow> nat \<Rightarrow> annotation list \<Rightarrow> fd list \<Rightarrow> get_error + fd \<times> string" where
  "scan_descriptors i n [] files = Inl DescriptorNotFound"
| "scan_descriptors i n (a # as) files =
     (if an_id a = i then
        (if length files \<le> n then Inl IntegrityViolation else Inr (files ! n, an_purpose a))
      else scan_descriptors i (n + 1) as files)"

definition get_descriptor :: "string \<Rightarrow> message \<Rightarrow> get_error + fd \<times> string" where
  "get_descriptor i m = scan_descriptors i 0 (ms_annotations m) (ms_files m)"

definition message_ok :: "message \<Rightarrow> bool" where
  "message_ok m \<longleftrightarrow> length (ms_files m) = length (ms_annotations m) \<and>
     distinct (map an_id (ms_annotations m)) \<and> [] \<notin> an_id ` set (ms_annotations m)"

lemma scan_descriptors_nth:
  "distinct (map an_id as) \<Longrightarrow> j < length as \<Longrightarrow>
     scan_descriptors (an_id (as ! j)) n as files =
       (if n + j < length files then Inr (files ! (n + j), an_purpose (as ! j)) else Inl IntegrityViolation)"
proof (induction as arbitrary: j n)
  case (Cons a as)
  show ?case
  proof (cases j)
    case (Suc i)
    then have "an_id (as ! i) \<in> set (map an_id as)"
      using Cons.prems(2) by simp
    then have "an_id a \<noteq> an_id (as ! i)"
      using Cons.prems(1) by auto
    then show ?thesis
      using Suc Cons by simp
  qed simp
qed simp

lemma scan_descriptors_none:
  "i \<notin> set (map an_id as) \<Longrightarrow> scan_descriptors i n as files = Inl DescriptorNotFound"
  by (induction as arbitrary: n) auto

lemma scan_descriptors_append:
  "i \<in> set (map an_id as) \<Longrightarrow> length as + n \<le> length files \<Longrightarrow>
     scan_descriptors i n (as @ bs) (files @ gs) = scan_descriptors i n as files"
  by (induction as arbitrary: n) (auto simp: nth_append)

lemma scan_descriptors_last:
  "i \<notin> set (map an_id as) \<Longrightarrow> n + length as = length files \<Longrightarrow>
     scan_descriptors i n (as @ [a]) (files @ [f]) =
       (if an_id a = i then Inr (f, an_purpose a) else Inl DescriptorNotFound)"
  by (induction as arbitrary: n) (auto simp: nth_append)

text \<open>
  Adding a descriptor under a fresh name to a well-formed message succeeds, keeps the message
  well formed (as many files as annotations, distinct non-empty names), makes the descriptor
  available under its name and leaves the others where they were; under a name that is taken it
  is refused.
\<close>

lemma add_then_get_descriptor:
  assumes "message_ok m" "i \<noteq> []"
  shows "case add_descriptor (Some f) i p m of
      Inl e \<Rightarrow> e = DuplicateId \<and> get_descriptor i m \<noteq> Inl DescriptorNotFound
    | Inr m' \<Rightarrow> get_descriptor i m = Inl DescriptorNotFound \<and> message_ok m' \<and>
        ms_data m' = ms_data m \<and> get_descriptor i m' = Inr (f, p) \<and>
        (\<forall>j. j \<noteq> i \<longrightarrow> get_descriptor j m' = get_descriptor j m)"
proof (cases "i \<in> set (map an_id (ms_annotations m))")
  case True
  then obtain k where "k < length (ms_annotations m)" "an_id (ms_annotations m ! k) = i"
    by (auto simp: in_set_conv_nth)
  then have "get_descriptor i m \<noteq> Inl DescriptorNotFound"
    using scan_descriptors_nth[of "ms_annotations m" k 0 "ms_files m"] assms(1)
    by (auto simp: get_descriptor_def message_ok_def)
  then show ?thesis
    using True assms(2) by (auto simp: add_descriptor_def)
next
  case False
  let ?m = "m\<lparr>ms_files := ms_files m @ [f], ms_annotations := ms_annotations m @ [\<lparr>an_id = i, an_purpose = p\<rparr>]\<rparr>"
  have add: "add_descriptor (Some f) i p m = Inr ?m"
    using False assms(2) by (auto simp: add_descriptor_def)
  have len: "length (ms_annotations m) = length (ms_files m)"
    using assms(1) by (simp add: message_ok_def)
  have "get_descriptor j ?m = get_descriptor j m" if "j \<noteq> i" for j
  proof (cases "j \<in> set (map an_id (ms_annotations m))")
    case True
    then show ?thesis
      using len scan_descriptors_append[of j "ms_annotations m" 0 "ms_files m"]
      by (simp add: get_descriptor_def)
  next
    case False
    then show ?thesis
      using that len scan_descriptors_last[of j "ms_annotations m" 0 "ms_files m"]
      by (simp add: get_descriptor_def scan_descriptors_none)
  qed
  moreover have "get_descriptor i ?m = Inr (f, p)" "get_descriptor i m = Inl DescriptorNotFound"
    using False len scan_descriptors_last[of i "ms_annotations m" 0 "ms_files m"]
    by (simp_all add: get_descriptor_def scan_descriptors_none)
  moreover have "message_ok ?m"
    using assms False by (auto simp: message_ok_def)
  ultimately show ?thesis
    by (simp add: add)
qed

definition sample_message :: message where
  "sample_message =
     \<lparr>ms_data = ''proxy-listener-fd'', ms_files = [7],
      ms_annotations = [\<lparr>an_id = ''proxy-listener'', an_purpose = ''tcp listener''\<rparr>], ms_seq = 0\<rparr>"

lemma sample_message_ok [simp]: "message_ok sample_message"
  by (simp add: message_ok_def sample_message_def)

subsection \<open>A payload as JSON\<close>

definition annotation_json :: "annotation \<Rightarrow> json" where
  "annotation_json a = JObj [(''id'', JStr (an_id a)), (''purpose'', JStr (an_purpose a))]"

text \<open>An empty list of annotations and empty data are left out.\<close>

definition frame_json :: "payload \<Rightarrow> json" where
  "frame_json p = JObj
     ([(''seq'', number_json (unat (pl_sequence p))), (''is_response'', JBool (pl_is_response p))] @
      (if pl_annotations p = [] then [] else [(''annotations'', JArr (map annotation_json (pl_annotations p)))]) @
      (if pl_data p = [] then [] else [(''data'', bytes_json (pl_data p))]))"

text \<open>Fields of other names are ignored.\<close>

definition annotation_field :: "string \<Rightarrow> json \<Rightarrow> annotation \<Rightarrow> annotation option" where
  "annotation_field k v a =
     (if names_field k ''id'' then map_option (\<lambda>t. a\<lparr>an_id := t\<rparr>) (decode_string v (an_id a))
      else if names_field k ''purpose'' then map_option (\<lambda>t. a\<lparr>an_purpose := t\<rparr>) (decode_string v (an_purpose a))
      else Some a)"

definition zero_annotation :: annotation where
  "zero_annotation = \<lparr>an_id = [], an_purpose = []\<rparr>"

definition frame_field :: "string \<Rightarrow> json \<Rightarrow> payload \<Rightarrow> payload option" where
  "frame_field k v p =
     (if names_field k ''seq'' then
        map_option (\<lambda>n. p\<lparr>pl_sequence := of_nat n\<rparr>) (decode_uint 64 v (unat (pl_sequence p)))
      else if names_field k ''is_response'' then
        map_option (\<lambda>b. p\<lparr>pl_is_response := b\<rparr>) (decode_bool v (pl_is_response p))
      else if names_field k ''annotations'' then
        map_option (\<lambda>as. p\<lparr>pl_annotations := as\<rparr>) (decode_list (\<lambda>x. decode_object annotation_field x zero_annotation) v)
      else if names_field k ''data'' then map_option (\<lambda>d. p\<lparr>pl_data := d\<rparr>) (decode_bytes v)
      else Some p)"

definition zero_frame :: payload where
  "zero_frame = \<lparr>pl_sequence = 0, pl_is_response = False, pl_annotations = [], pl_data = []\<rparr>"

definition decode_frame :: "string \<Rightarrow> payload option" where
  "decode_frame s = (case json_whole s of None \<Rightarrow> None | Some j \<Rightarrow> decode_object frame_field j zero_frame)"

definition frame_text :: "payload \<Rightarrow> string" where
  "frame_text p = json_text (frame_json p)"

lemma frame_json_ok: "json_ok (frame_json p)"
  by (simp add: frame_json_def annotation_json_def number_json_ok bytes_json_def list_all_iff)

lemma annotation_reads_back: "decode_object annotation_field (annotation_json a) zero_annotation = Some a"
  by (simp add: annotation_json_def annotation_field_def names_field_def to_lower_def is_upper_def zero_annotation_def)

lemma frame_reads_back: "decode_frame (frame_text p) = Some p"
proof -
  have "unat (pl_sequence p) < 2 ^ 64"
    using unsigned_less[of "pl_sequence p"] by simp
  then have "decode_object frame_field (frame_json p) zero_frame = Some p"
    by (auto simp: frame_json_def frame_field_def names_field_def to_lower_def is_upper_def zero_frame_def
        number_reads_back bytes_read_back decode_each_map annotation_reads_back simp del: decode_uint.simps)
  then show ?thesis
    by (simp add: decode_frame_def frame_text_def json_whole_text frame_json_ok)
qed

subsection \<open>Frames\<close>

text \<open>
  A frame is the length of the JSON text in four bytes, the most significant first, and the text;
  its descriptors travel beside its first byte, in a control message.
\<close>

definition byte_of :: "nat \<Rightarrow> char" where
  "byte_of n = char_of (n mod 256)"

definition put_uint32 :: "nat \<Rightarrow> string" where
  "put_uint32 n = [byte_of (n div 16777216), byte_of (n div 65536), byte_of (n div 256), byte_of n]"

definition get_uint32 :: "string \<Rightarrow> nat" where
  "get_uint32 bs = foldl (\<lambda>a b. 256 * a + of_char b) 0 bs"

datatype control_message = Rights "fd list" | OtherControl

definition unix_rights :: "fd list \<Rightarrow> control_message list" where
  "unix_rights fds = (if fds = [] then [] else [Rights fds])"

definition write_wire :: "payload \<Rightarrow> fd list \<Rightarrow> (string \<times> control_message list) option" where
  "write_wire p fds =
     (if length fds \<noteq> length (pl_annotations p) then None
      else let meta_bytes = frame_text p in Some (put_uint32 (length meta_bytes) @ meta_bytes, unix_rights fds))"

fun parse_fds :: "control_message list \<Rightarrow> fd list option" where
  "parse_fds [] = Some []"
| "parse_fds (Rights fds # ms) = map_option (\<lambda>gs. fds @ gs) (parse_fds ms)"
| "parse_fds (OtherControl # ms) = None"

text \<open>
  The receiving end of a stream socket, as its reader finds it: a segment is what has arrived by the time of a read, with the
  control messages sent beside its first byte, and what arrives later is in the next segments. A read takes bytes of one
  segment, as many as there are and fit;
  \<open>cap\<close> is the room for descriptors, the rest of them is dropped. \<open>None\<close> is an empty socket. A read
  into an empty buffer returns at once.
\<close>

type_synonym segments = "(string \<times> control_message list) list"

fun fit_control :: "nat \<Rightarrow> control_message list \<Rightarrow> control_message list" where
  "fit_control cap [] = []"
| "fit_control cap (Rights fds # ms) = (if cap = 0 then [] else Rights (take cap fds) # fit_control (cap - length fds) ms)"
| "fit_control cap (OtherControl # ms) = (if cap = 0 then [] else OtherControl # fit_control cap ms)"

fun sock_read :: "nat \<Rightarrow> nat \<Rightarrow> segments \<Rightarrow> (string \<times> control_message list \<times> segments) option" where
  "sock_read n cap segs =
     (if n = 0 then Some ([], [], segs)
      else case segs of
        [] \<Rightarrow> None
      | (b, oob) # rest \<Rightarrow>
          Some (take n b, fit_control cap oob, if length b \<le> n then rest else (drop n b, []) # rest))"

datatype wire_result =
    Frame payload "fd list"
  | ShortHeader
  | BadControl
  | BadBody "fd list"
  | NoData

text \<open>
  \<open>readWire\<close>: the header with room for ten descriptors, then one read for the body, into a
  buffer of zeros. \<open>BadBody\<close> carries the files that \<open>closeAll\<close> closes.
\<close>

definition read_wire :: "segments \<Rightarrow> wire_result \<times> segments" where
  "read_wire segs =
     (case sock_read 4 10 segs of
        None \<Rightarrow> (NoData, segs)
      | Some (h, oob, segs1) \<Rightarrow>
          if length h < 4 then (ShortHeader, segs1)
          else case parse_fds oob of
            None \<Rightarrow> (BadControl, segs1)
          | Some fds \<Rightarrow>
              (let meta_len = get_uint32 h in
               case sock_read meta_len 0 segs1 of
                 None \<Rightarrow> (NoData, segs1)
               | Some (b, _, segs2) \<Rightarrow>
                   (case decode_frame (b @ replicate (meta_len - length b) (char_of (0 :: nat))) of
                      None \<Rightarrow> (BadBody fds, segs2)
                    | Some p \<Rightarrow> (Frame p fds, segs2))))"

lemma first_ten_arrive [simp]: "parse_fds (fit_control 10 (unix_rights fds)) = Some (take 10 fds)"
  by (simp add: unix_rights_def)

lemma length_put_uint32 [simp]: "length (put_uint32 n) = 4"
  by (simp add: put_uint32_def)

lemma of_char_byte [simp]: "of_char (byte_of n) = (n mod 256 :: nat)"
  by (simp add: byte_of_def)

lemma get_put_uint32: "n < 2 ^ 32 \<Longrightarrow> get_uint32 (put_uint32 n) = n"
proof -
  assume "n < 2 ^ 32"
  have step: "256 * (n div k div 256) + n div k mod 256 = n div k" for k :: nat
    by simp
  have parts: "n div 16777216 = n div 65536 div 256" "n div 65536 = n div 256 div 256"
    by (simp_all add: div_mult2_eq [symmetric])
  have "n div 16777216 < 256"
    using \<open>n < 2 ^ 32\<close> by (simp add: less_mult_imp_div_less)
  then show ?thesis
    using step[of 65536] step[of 256] step[of 1] parts
    by (simp add: get_uint32_def put_uint32_def)
qed

lemma frame_text_not_empty [simp]: "frame_text p \<noteq> []"
  by (simp add: frame_text_def frame_json_def)

lemma frame_round_trip:
  assumes "length (frame_text p) < 2 ^ 32" "write_wire p fds = Some (b, oob)"
  shows "read_wire ((b, oob) # rest) = (Frame p (take 10 fds), rest)"
proof -
  have b: "b = put_uint32 (length (frame_text p)) @ frame_text p" and oob: "oob = unix_rights fds"
    using assms(2) by (auto simp: write_wire_def Let_def split: if_splits)
  have "get_uint32 (put_uint32 (length (frame_text p))) = length (frame_text p)"
    using assms(1) by (rule get_put_uint32)
  then show ?thesis
    unfolding b oob by (simp add: read_wire_def Let_def frame_reads_back)
qed

text \<open>How a request and a response are turned into payloads and back.\<close>

definition request_payload :: "64 word \<Rightarrow> message \<Rightarrow> payload" where
  "request_payload s m =
     \<lparr>pl_sequence = s, pl_is_response = False, pl_annotations = ms_annotations m, pl_data = ms_data m\<rparr>"

definition response_payload :: "64 word \<Rightarrow> message \<Rightarrow> payload" where
  "response_payload s m =
     \<lparr>pl_sequence = s, pl_is_response = True, pl_annotations = ms_annotations m, pl_data = ms_data m\<rparr>"

definition message_of :: "payload \<Rightarrow> fd list \<Rightarrow> message" where
  "message_of p fds =
     \<lparr>ms_data = pl_data p, ms_files = fds, ms_annotations = pl_annotations p, ms_seq = pl_sequence p\<rparr>"

subsection \<open>A frame on the socket\<close>

lemma padded_text_is_refused: "0 < k \<Longrightarrow> decode_frame (t @ replicate k (char_of (0 :: nat))) = None"
proof -
  assume "0 < k"
  moreover have "char_of (0 :: nat) = nul"
    by code_simp
  ultimately show ?thesis
    by (simp add: decode_frame_def json_whole_no_nul)
qed

text \<open>The socket delivers the first \<open>k\<close> bytes and then the rest.\<close>

lemma split_frame:
  assumes "length (frame_text p) < 2 ^ 32" "write_wire p fds = Some (b, oob)" "k < length b"
  shows "fst (read_wire [(take k b, oob), (drop k b, [])]) =
    (if k < 4 then ShortHeader else if k = 4 then Frame p (take 10 fds) else BadBody (take 10 fds))"
proof -
  let ?h = "put_uint32 (length (frame_text p))"
  have b: "b = ?h @ frame_text p" and [simp]: "oob = unix_rights fds"
    using assms(2) by (auto simp: write_wire_def Let_def split: if_splits)
  have len: "get_uint32 ?h = length (frame_text p)"
    using assms(1) by (rule get_put_uint32)
  consider "k < 4" | "k = 4" | "4 < k"
    by linarith
  then show ?thesis
  proof cases
    case 1
    then show ?thesis
      using assms(3) by (simp add: read_wire_def)
  next
    case 2
    then show ?thesis
      by (simp add: read_wire_def b len Let_def frame_reads_back)
  next
    case 3
    have "k - 4 < length (frame_text p)"
      using 3 assms(3) by (simp add: b)
    then show ?thesis
      using 3 padded_text_is_refused[of "length (frame_text p) - (k - 4)" "take (k - 4) (frame_text p)"]
      by (simp add: read_wire_def b len Let_def)
  qed
qed

text \<open>ASCII names and purposes.\<close>

definition ascii_message :: "message \<Rightarrow> bool" where
  "ascii_message m \<longleftrightarrow> list_all (\<lambda>a. ascii (an_id a) \<and> ascii (an_purpose a)) (ms_annotations m)"

text \<open>
  C32. Descriptors arrive under their names: the receiver of a well-formed message whose JSON text is shorter than 4 GiB
  gets its data, finds each of its first ten descriptors under its name and with its purpose, and gets the integrity error
  for every further one. If the reader finds the frame in two pieces, because it comes when only a part has arrived, it never
  takes a part for the whole: it gets the same message if the pieces are the length and the text, and an error otherwise.
\<close>

theorem descriptors_arrive_under_their_names:
  assumes "message_ok m" "ascii_message m" "length (frame_text (response_payload s m)) < 2 ^ 32"
  shows "\<exists>b oob p gs. write_wire (response_payload s m) (ms_files m) = Some (b, oob) \<and>
    read_wire [(b, oob)] = (Frame p gs, []) \<and> ms_data (message_of p gs) = ms_data m \<and>
    (\<forall>j < length (ms_annotations m). get_descriptor (an_id (ms_annotations m ! j)) (message_of p gs) =
       (if j < 10 then Inr (ms_files m ! j, an_purpose (ms_annotations m ! j)) else Inl IntegrityViolation)) \<and>
    (\<forall>k < length b. fst (read_wire [(take k b, oob), (drop k b, [])]) =
       (if k < 4 then ShortHeader else if k = 4 then Frame p gs else BadBody gs))"
proof -
  let ?p = "response_payload s m"
  obtain b where w: "write_wire ?p (ms_files m) = Some (b, unix_rights (ms_files m))"
    using assms(1) by (auto simp: write_wire_def Let_def message_ok_def response_payload_def)
  have r: "read_wire [(b, unix_rights (ms_files m))] = (Frame ?p (take 10 (ms_files m)), [])"
    using frame_round_trip[OF assms(3) w] .
  have "get_descriptor (an_id (ms_annotations m ! j)) (message_of ?p (take 10 (ms_files m))) =
      (if j < 10 then Inr (ms_files m ! j, an_purpose (ms_annotations m ! j)) else Inl IntegrityViolation)"
    if "j < length (ms_annotations m)" for j
    using scan_descriptors_nth[of "ms_annotations m" j 0 "take 10 (ms_files m)"] assms(1) that
    by (auto simp: get_descriptor_def message_of_def response_payload_def message_ok_def)
  with w r show ?thesis
    using split_frame[OF assms(3) w]
    by (intro exI[of _ b] exI[of _ "unix_rights (ms_files m)"] exI[of _ ?p] exI[of _ "take 10 (ms_files m)"])
      (simp add: message_of_def response_payload_def)
qed

lemma sample_frame_text:
  "frame_text (response_payload 1 sample_message) =
     ''{\"seq\":1,\"is_response\":true,\"annotations\":[{\"id\":\"proxy-listener\",\"purpose\":\"tcp listener\"}],'' @
     ''\"data\":\"cHJveHktbGlzdGVuZXItZmQ=\"}''"
  by code_simp

lemma descriptors_arrive_under_their_names_witness:
  "\<exists>b oob p gs. write_wire (response_payload 1 sample_message) [7] = Some (b, oob) \<and>
     read_wire [(b, oob)] = (Frame p gs, []) \<and>
     get_descriptor ''proxy-listener'' (message_of p gs) = Inr (7, ''tcp listener'')"
proof -
  have "ascii_message sample_message" "length (ms_annotations sample_message) = 1"
    by (code_simp; fail)+
  then show ?thesis
    using descriptors_arrive_under_their_names[OF sample_message_ok, of 1]
    by (auto simp: sample_frame_text) (auto simp: sample_message_def)
qed

end
