(* ===== verification/Fdchan.thy ===== *)
theory Fdchan
  imports Fd_Wire
begin

section \<open>The descriptor channel (pkg/sandbox/fdchan/fdchan.go)\<close>

text \<open>
  The multiplexer that pairs the responses of the child with the requests of the parent, and every interleaving of the
  two. The frames in flight are the payloads of theory Fd_Wire; theory Fd_Stream has them as bytes.
\<close>

subsection \<open>The multiplexer\<close>

text \<open>
  \<open>mux\<close>: sessions map the sequence numbers of pending requests to their channels, which are
  numbered. \<open>mx_results\<close> records what has been put into which channel, \<open>None\<close> that it has been
  closed. \<open>mx_closed_files\<close> are the files of responses nobody waited for.
\<close>

record mux =
  mx_next_seq :: "64 word"
  mx_sessions :: "(64 word, nat) gomap"
  mx_inbound :: "message list"
  mx_done :: bool
  mx_results :: "(nat \<times> (payload \<times> fd list) option) list"
  mx_closed_files :: "fd list"

definition new_mux :: mux where
  "new_mux = \<lparr>mx_next_seq = 0, mx_sessions = [], mx_inbound = [], mx_done = False,
     mx_results = [], mx_closed_files = []\<rparr>"

text \<open>\<open>Request\<close> up to the write: the sequence number it uses for the channel \<open>t\<close>.\<close>

definition open_session :: "nat \<Rightarrow> mux \<Rightarrow> mux \<times> 64 word" where
  "open_session t m =
     (let seq = mx_next_seq m + 1
      in (m\<lparr>mx_next_seq := seq, mx_sessions := gm_store seq t (mx_sessions m)\<rparr>, seq))"

text \<open>The write has failed.\<close>

definition drop_session :: "64 word \<Rightarrow> mux \<Rightarrow> mux" where
  "drop_session seq m = m\<lparr>mx_sessions := gm_remove seq (mx_sessions m)\<rparr>"

text \<open>
  One iteration of \<open>readLoop\<close> for a frame; \<open>None\<close> while the inbound channel, which has 128
  places, is full.
\<close>

definition dispatch :: "payload \<Rightarrow> fd list \<Rightarrow> mux \<Rightarrow> mux option" where
  "dispatch p fds m =
     (if pl_is_response p then
        (case map_of (mx_sessions m) (pl_sequence p) of
           Some t \<Rightarrow> Some (m\<lparr>mx_sessions := gm_remove (pl_sequence p) (mx_sessions m),
                            mx_results := mx_results m @ [(t, Some (p, fds))]\<rparr>)
         | None \<Rightarrow> Some (m\<lparr>mx_closed_files := mx_closed_files m @ fds\<rparr>))
      else if length (mx_inbound m) < 128
      then Some (m\<lparr>mx_inbound := mx_inbound m @ [message_of p fds]\<rparr>)
      else None)"

text \<open>\<open>readWire\<close> has failed: all sessions are closed and the loop ends.\<close>

definition read_failed :: "64 word ranking \<Rightarrow> mux \<Rightarrow> mux" where
  "read_failed rk m =
     m\<lparr>mx_results := mx_results m @ map (\<lambda>(s, t). (t, None)) (gm_range rk (mx_sessions m)),
       mx_sessions := [], mx_done := True\<rparr>"

text \<open>The end of \<open>Request\<close> and \<open>receiveRequest\<close>; \<open>None\<close> is an error, \<open>Inl ()\<close> still waiting.\<close>

definition await_result :: "nat \<Rightarrow> mux \<Rightarrow> unit + message option" where
  "await_result t m =
     (case map_of (mx_results m) t of
        None \<Rightarrow> Inl ()
      | Some r \<Rightarrow> Inr (map_option (\<lambda>(p, fds). message_of p fds) r))"

definition receive_request :: "mux \<Rightarrow> (message \<times> mux) option" where
  "receive_request m =
     (case mx_inbound m of [] \<Rightarrow> None | x # xs \<Rightarrow> Some (x, m\<lparr>mx_inbound := xs\<rparr>))"

subsection \<open>Parent and child\<close>

text \<open>
  A parent with any number of concurrent requests and a child that answers them in any order,
  and any number of times. Channels are numbered in the order of the sequence numbers, and \<open>pc_sent\<close> has the messages in
  that order; \<open>pc_writing\<close> has the requests between the registration of their session and the end of their write, which
  another lock guards, so the frames may be in another order. \<open>pc_replies\<close> records what the child has answered to which request.
\<close>

record pair =
  pc_parent :: mux
  pc_child :: mux
  pc_to_child :: "(payload \<times> fd list) list"
  pc_to_parent :: "(payload \<times> fd list) list"
  pc_handling :: "message list"
  pc_sent :: "message list"
  pc_writing :: "(64 word \<times> message) list"
  pc_replies :: "(message \<times> message) list"

definition init_pair :: pair where
  "init_pair = \<lparr>pc_parent = new_mux, pc_child = new_mux, pc_to_child = [], pc_to_parent = [],
     pc_handling = [], pc_sent = [], pc_writing = [], pc_replies = []\<rparr>"

inductive pair_step :: "pair \<Rightarrow> pair \<Rightarrow> bool" where
  opens: "open_session (length (pc_sent s)) (pc_parent s) = (m, seq) \<Longrightarrow>
    pair_step s (s\<lparr>pc_parent := m, pc_sent := pc_sent s @ [msg], pc_writing := (seq, msg) # pc_writing s\<rparr>)"
| writes: "(seq, msg) \<in> set (pc_writing s) \<Longrightarrow>
    pair_step s (s\<lparr>pc_writing := remove1 (seq, msg) (pc_writing s),
      pc_to_child := pc_to_child s @ [(request_payload seq msg, ms_files msg)]\<rparr>)"
| write_fails: "(seq, msg) \<in> set (pc_writing s) \<Longrightarrow>
    pair_step s (s\<lparr>pc_writing := remove1 (seq, msg) (pc_writing s), pc_parent := drop_session seq (pc_parent s)\<rparr>)"
| child_reads: "pc_to_child s = (p, fds) # rest \<Longrightarrow> \<not> mx_done (pc_child s) \<Longrightarrow>
    dispatch p fds (pc_child s) = Some m \<Longrightarrow>
    pair_step s (s\<lparr>pc_child := m, pc_to_child := rest\<rparr>)"
| child_takes: "receive_request (pc_child s) = Some (msg, m) \<Longrightarrow>
    pair_step s (s\<lparr>pc_child := m, pc_handling := pc_handling s @ [msg]\<rparr>)"
| child_responds: "msg \<in> set (pc_handling s) \<Longrightarrow>
    pair_step s (s\<lparr>pc_replies := pc_replies s @ [(msg, reply)],
      pc_to_parent := pc_to_parent s @ [(response_payload (ms_seq msg) reply, ms_files reply)]\<rparr>)"
| parent_reads: "pc_to_parent s = (p, fds) # rest \<Longrightarrow> \<not> mx_done (pc_parent s) \<Longrightarrow>
    dispatch p fds (pc_parent s) = Some m \<Longrightarrow>
    pair_step s (s\<lparr>pc_parent := m, pc_to_parent := rest\<rparr>)"
| parent_fails: "\<not> mx_done (pc_parent s) \<Longrightarrow>
    pair_step s (s\<lparr>pc_parent := read_failed rk (pc_parent s)\<rparr>)"
| child_fails: "\<not> mx_done (pc_child s) \<Longrightarrow>
    pair_step s (s\<lparr>pc_child := read_failed rk (pc_child s)\<rparr>)"

inductive pair_reach :: "pair \<Rightarrow> bool" where
  start: "pair_reach init_pair"
| step: "pair_reach s \<Longrightarrow> pair_step s s' \<Longrightarrow> pair_reach s'"

text \<open>The sequence number of the \<open>t\<close>-th request.\<close>

definition seq_of :: "nat \<Rightarrow> 64 word" where
  "seq_of t = of_nat (t + 1)"

lemma unat_seq_of: "t < 2 ^ 64 - 1 \<Longrightarrow> unat (seq_of t) = t + 1"
  by (simp only: seq_of_def unat_of_nat) simp

lemma seq_of_inj: "a < 2 ^ 64 - 1 \<Longrightarrow> b < 2 ^ 64 - 1 \<Longrightarrow> seq_of a = seq_of b \<Longrightarrow> a = b"
  by (metis unat_seq_of add_right_cancel)

text \<open>A message in flight towards the child is the request with its number.\<close>

definition is_request :: "pair \<Rightarrow> message \<Rightarrow> bool" where
  "is_request s m \<longleftrightarrow> (\<exists>t < length (pc_sent s). m = (pc_sent s ! t)\<lparr>ms_seq := seq_of t\<rparr>)"

definition is_reply :: "pair \<Rightarrow> payload \<times> fd list \<Rightarrow> bool" where
  "is_reply s f \<longleftrightarrow> (\<exists>msg reply. (msg, reply) \<in> set (pc_replies s) \<and> is_request s msg \<and>
     f = (response_payload (ms_seq msg) reply, ms_files reply))"

definition pair_inv :: "pair \<Rightarrow> bool" where
  "pair_inv s \<longleftrightarrow>
     mx_next_seq (pc_parent s) = of_nat (length (pc_sent s)) \<and> gm_wf (mx_sessions (pc_parent s)) \<and>
     (\<forall>q t. map_of (mx_sessions (pc_parent s)) q = Some t \<longrightarrow> t < length (pc_sent s) \<and> q = seq_of t) \<and>
     mx_sessions (pc_child s) = [] \<and>
     (\<forall>(q, m) \<in> set (pc_writing s). is_request s (m\<lparr>ms_seq := q\<rparr>)) \<and>
     (\<forall>f \<in> set (pc_to_child s). \<not> pl_is_response (fst f) \<and> is_request s (message_of (fst f) (snd f))) \<and>
     (\<forall>m \<in> set (mx_inbound (pc_child s)) \<union> set (pc_handling s). is_request s m) \<and>
     (\<forall>f \<in> set (pc_to_parent s). is_reply s f) \<and>
     (\<forall>t f. (t, Some f) \<in> set (mx_results (pc_parent s)) \<longrightarrow>
        t < length (pc_sent s) \<and> is_reply s f \<and> pl_sequence (fst f) = seq_of t)"


lemma pair_inv_init: "pair_inv init_pair"
  by (simp add: pair_inv_def init_pair_def new_mux_def)

lemma is_request_mono:
  "is_request s m \<Longrightarrow> pc_sent s' = pc_sent s @ xs \<Longrightarrow> is_request s' m"
  by (auto simp: is_request_def nth_append intro: exI)

lemma is_reply_mono:
  "is_reply s f \<Longrightarrow> pc_sent s' = pc_sent s @ xs \<Longrightarrow> pc_replies s' = pc_replies s @ ys \<Longrightarrow> is_reply s' f"
  by (auto simp: is_reply_def intro: is_request_mono)

lemma is_request_seq: "is_request s m \<Longrightarrow> \<exists>t < length (pc_sent s). ms_seq m = seq_of t"
  by (auto simp: is_request_def)

lemma in_flight_cong:
  "pc_sent s' = pc_sent s \<Longrightarrow> is_request s' = is_request s"
  "pc_sent s' = pc_sent s \<Longrightarrow> pc_replies s' = pc_replies s \<Longrightarrow> is_reply s' = is_reply s"
  by (simp_all add: fun_eq_iff is_request_def is_reply_def)

lemma open_session_simps:
  "open_session t m = (m', q) \<Longrightarrow> q = mx_next_seq m + 1 \<and> mx_next_seq m' = q \<and>
     mx_sessions m' = gm_store q t (mx_sessions m) \<and> mx_results m' = mx_results m"
  by (auto simp: open_session_def Let_def)

text \<open>The sessions after a new one has been opened.\<close>

lemma pair_inv_open:
  assumes "pair_inv s" "open_session (length (pc_sent s)) (pc_parent s) = (m, q)"
  shows "q = seq_of (length (pc_sent s))" "mx_next_seq m = of_nat (length (pc_sent s @ [x]))"
    "gm_wf (mx_sessions m)"
    "map_of (mx_sessions m) r = Some t \<Longrightarrow> t < length (pc_sent s @ [x]) \<and> r = seq_of t"
proof -
  note o = open_session_simps[OF assms(2)]
  show q: "q = seq_of (length (pc_sent s))"
    using o assms(1) by (simp add: pair_inv_def seq_of_def)
  show "mx_next_seq m = of_nat (length (pc_sent s @ [x]))"
    using o q by (simp add: seq_of_def)
  show "gm_wf (mx_sessions m)"
    using o assms(1) by (simp add: pair_inv_def table_intros)
  show "map_of (mx_sessions m) r = Some t \<Longrightarrow> t < length (pc_sent s @ [x]) \<and> r = seq_of t"
    using o q assms(1) by (fastforce simp: pair_inv_def map_simps split: if_splits)
qed

lemma pair_inv_step:
  assumes "pair_step s s'" "pair_inv s"
  shows "pair_inv s'"
  using assms(1)
proof cases
  case (opens m seq msg)
  note o = pair_inv_open[OF assms(2) opens(2)]
  have new: "is_request s' (msg\<lparr>ms_seq := seq\<rparr>)"
    using opens(1) o(1) by (auto simp: is_request_def)
  have mono: "is_request s x \<Longrightarrow> is_request s' x" "is_reply s f \<Longrightarrow> is_reply s' f" for x f
    using is_request_mono[of s x s' "[msg]"] is_reply_mono[of s f s' "[msg]" "[]"] opens(1) by auto
  have "mx_results m = mx_results (pc_parent s)"
    using open_session_simps[OF opens(2)] by simp
  then show ?thesis
    using assms(2) o(2-4) new mono unfolding pair_inv_def opens(1)
    by auto (fastforce+)?
next
  case (writes seq msg)
  have "is_request s (msg\<lparr>ms_seq := seq\<rparr>)"
    using assms(2) writes(2) by (auto simp: pair_inv_def)
  then have "is_request s (message_of (request_payload seq msg) (ms_files msg))"
    by (cases msg) (simp add: message_of_def request_payload_def)
  then show ?thesis
    using assms(2) in_flight_cong[of s' s] unfolding pair_inv_def writes(1)
    by (auto simp: request_payload_def dest: set_remove1_subset[THEN subsetD])
next
  case (write_fails seq msg)
  then show ?thesis
    using assms(2) in_flight_cong[of s' s] unfolding pair_inv_def write_fails(1)
    by (auto simp: drop_session_def map_simps table_intros dest: set_remove1_subset[THEN subsetD] split: if_splits)
next
  case (child_reads p fds rest m)
  have "m = (pc_child s)\<lparr>mx_inbound := mx_inbound (pc_child s) @ [message_of p fds]\<rparr>"
    using child_reads assms(2) by (auto simp: dispatch_def pair_inv_def split: if_splits)
  then show ?thesis
    using assms(2) child_reads(2) in_flight_cong[of s' s] unfolding pair_inv_def child_reads(1) by auto
next
  case (child_takes msg m)
  then have "mx_inbound (pc_child s) = msg # mx_inbound m" "mx_sessions m = mx_sessions (pc_child s)"
    by (auto simp: receive_request_def split: list.splits)
  then show ?thesis
    using assms(2) in_flight_cong[of s' s] unfolding pair_inv_def child_takes(1) by auto
next
  case (child_responds msg reply)
  have req: "is_request s msg" and eq: "is_request s' = is_request s"
    using child_responds assms(2) in_flight_cong(1)[of s' s] by (auto simp: pair_inv_def)
  then have new: "is_reply s' (response_payload (ms_seq msg) reply, ms_files reply)"
    using child_responds(1) by (auto simp: is_reply_def)
  have mono: "is_reply s f \<Longrightarrow> is_reply s' f" for f
    using is_reply_mono[of s f s' "[]" "[(msg, reply)]"] child_responds(1) by simp
  show ?thesis
    using assms(2) new mono eq unfolding pair_inv_def child_responds(1) by auto
next
  case (parent_reads p fds rest m)
  have rep: "is_reply s (p, fds)"
    using assms(2) parent_reads(2) by (simp add: pair_inv_def)
  then have resp: "pl_is_response p"
    by (auto simp: is_reply_def response_payload_def)
  show ?thesis
  proof (cases "map_of (mx_sessions (pc_parent s)) (pl_sequence p)")
    case None
    then have "m = (pc_parent s)\<lparr>mx_closed_files := mx_closed_files (pc_parent s) @ fds\<rparr>"
      using parent_reads(4) resp by (simp add: dispatch_def)
    then show ?thesis
      using assms(2) parent_reads(2) in_flight_cong[of s' s] unfolding pair_inv_def parent_reads(1) by auto
  next
    case (Some t)
    then have m: "m = (pc_parent s)\<lparr>mx_sessions := gm_remove (pl_sequence p) (mx_sessions (pc_parent s)),
        mx_results := mx_results (pc_parent s) @ [(t, Some (p, fds))]\<rparr>"
      using parent_reads(4) resp by (simp add: dispatch_def)
    have "t < length (pc_sent s)" "pl_sequence p = seq_of t"
      using assms(2) Some by (auto simp: pair_inv_def)
    then show ?thesis
      using assms(2) m rep parent_reads(2) in_flight_cong[of s' s] unfolding pair_inv_def parent_reads(1)
      by (auto simp: map_simps table_intros split: if_splits)
  qed
next
  case (parent_fails rk)
  then show ?thesis
    using assms(2) in_flight_cong[of s' s] unfolding pair_inv_def parent_fails(1)
    by (auto simp: read_failed_def)
next
  case (child_fails rk)
  then show ?thesis
    using assms(2) in_flight_cong[of s' s] unfolding pair_inv_def child_fails(1)
    by (auto simp: read_failed_def)
qed

lemma reach_pair_inv: "pair_reach s \<Longrightarrow> pair_inv s"
  by (induction rule: pair_reach.induct) (auto intro: pair_inv_init pair_inv_step)

text \<open>
  In every run a response that a request receives is one the child gave to the message of that request, as long as the
  sequence numbers are not reused.
\<close>

lemma pair_request_gets_response:
  assumes "pair_reach s" "length (pc_sent s) < 2 ^ 64 - 1"
    and "await_result t (pc_parent s) = Inr (Some r)"
  shows "t < length (pc_sent s) \<and>
    (\<exists>reply. ((pc_sent s ! t)\<lparr>ms_seq := seq_of t\<rparr>, reply) \<in> set (pc_replies s) \<and>
       r = reply\<lparr>ms_seq := seq_of t\<rparr>)"
proof -
  obtain p fds where "map_of (mx_results (pc_parent s)) t = Some (Some (p, fds))" and r: "r = message_of p fds"
    using assms(3) by (auto simp: await_result_def split: option.splits)
  then have t: "t < length (pc_sent s)" "is_reply s (p, fds)" "pl_sequence p = seq_of t"
    using reach_pair_inv[OF assms(1)] by (auto simp: pair_inv_def dest!: map_of_SomeD)
  then obtain t' reply where t': "t' < length (pc_sent s)"
      "((pc_sent s ! t')\<lparr>ms_seq := seq_of t'\<rparr>, reply) \<in> set (pc_replies s)"
      "p = response_payload (seq_of t') reply" "fds = ms_files reply"
    by (auto simp: is_reply_def is_request_def)
  then have "t' = t"
    using t assms(2) seq_of_inj[of t' t] by (simp add: response_payload_def)
  then show ?thesis
    using t(1) t' r by (auto simp: message_of_def response_payload_def intro!: exI[of _ reply])
qed


definition ping :: message where
  "ping = \<lparr>ms_data = ''ping'', ms_files = [], ms_annotations = [], ms_seq = 0\<rparr>"

definition pong :: message where
  "pong = \<lparr>ms_data = ''pong'', ms_files = [], ms_annotations = [], ms_seq = 0\<rparr>"

subsection \<open>When the reader fails\<close>

definition results_inv :: "pair \<Rightarrow> bool" where
  "results_inv s \<longleftrightarrow>
     (\<forall>t \<in> fst ` set (mx_results (pc_parent s)). t < length (pc_sent s)) \<and>
     (\<forall>q t. map_of (mx_sessions (pc_parent s)) q = Some t \<longrightarrow> t \<notin> fst ` set (mx_results (pc_parent s)))"

lemma results_inv_frame:
  assumes "results_inv s" "mx_results (pc_parent s') = mx_results (pc_parent s)"
    and "length (pc_sent s) \<le> length (pc_sent s')"
    and "\<And>q t. map_of (mx_sessions (pc_parent s')) q = Some t \<Longrightarrow>
      t = length (pc_sent s) \<or> (\<exists>r. map_of (mx_sessions (pc_parent s)) r = Some t)"
  shows "results_inv s'"
  unfolding results_inv_def assms(2)
proof (intro conjI allI impI ballI)
  fix t assume "t \<in> fst ` set (mx_results (pc_parent s))"
  then have "t < length (pc_sent s)"
    using assms(1) unfolding results_inv_def by blast
  then show "t < length (pc_sent s')"
    using assms(3) by simp
next
  fix q t assume "map_of (mx_sessions (pc_parent s')) q = Some t"
  from assms(4)[OF this] show "t \<notin> fst ` set (mx_results (pc_parent s))"
  proof
    assume "t = length (pc_sent s)"
    then show ?thesis
      using assms(1) unfolding results_inv_def by auto
  next
    assume "\<exists>r. map_of (mx_sessions (pc_parent s)) r = Some t"
    then show ?thesis
      using assms(1) unfolding results_inv_def by blast
  qed
qed

lemma pair_inv_session:
  "pair_inv s \<Longrightarrow> map_of (mx_sessions (pc_parent s)) q = Some t \<Longrightarrow> t < length (pc_sent s) \<and> q = seq_of t"
  unfolding pair_inv_def by blast

lemma results_inv_step:
  assumes "pair_step s s'" "pair_inv s" "results_inv s"
  shows "results_inv s'"
  using assms(1)
proof cases
  case (opens m seq msg)
  show ?thesis
    by (rule results_inv_frame[OF assms(3)])
      (use opens open_session_simps[OF opens(2)] in \<open>auto simp: map_simps split: if_splits\<close>)
next
  case (write_fails seq msg)
  show ?thesis
    by (rule results_inv_frame[OF assms(3)])
      (use write_fails in \<open>auto simp: drop_session_def map_simps split: if_splits\<close>)
next
  case (parent_reads p fds rest m)
  show ?thesis
  proof (cases "pl_is_response p \<and> map_of (mx_sessions (pc_parent s)) (pl_sequence p) \<noteq> None")
    case True
    then obtain t where t: "map_of (mx_sessions (pc_parent s)) (pl_sequence p) = Some t" by blast
    then have m: "m = (pc_parent s)\<lparr>mx_sessions := gm_remove (pl_sequence p) (mx_sessions (pc_parent s)),
        mx_results := mx_results (pc_parent s) @ [(t, Some (p, fds))]\<rparr>"
      using parent_reads(4) True by (simp add: dispatch_def)
    have "t < length (pc_sent s)"
      "map_of (mx_sessions (pc_parent s)) r = Some t \<Longrightarrow> r = pl_sequence p" for r
      using pair_inv_session[OF assms(2)] t by metis+
    then show ?thesis
      using assms(3) m unfolding results_inv_def parent_reads(1) by (auto simp: map_simps)
  next
    case False
    then have "mx_sessions m = mx_sessions (pc_parent s) \<and> mx_results m = mx_results (pc_parent s)"
      using parent_reads(4) by (auto simp: dispatch_def split: if_splits option.splits)
    then show ?thesis
      using assms(3) unfolding results_inv_def parent_reads(1) by simp
  qed
next
  case (parent_fails rk)
  have "t < length (pc_sent s)" if "(q, t) \<in> set (mx_sessions (pc_parent s))" for q t
    using that assms(2) gm_wf_mem by (fastforce simp: pair_inv_def)
  then show ?thesis
    using assms(3) unfolding results_inv_def parent_fails(1) by (auto simp: read_failed_def)
qed (use assms(3) in \<open>auto simp: results_inv_def\<close>)

lemma reach_results_inv: "pair_reach s \<Longrightarrow> results_inv s"
proof (induction rule: pair_reach.induct)
  case start
  show ?case by (simp add: results_inv_def init_pair_def new_mux_def)
next
  case (step s s')
  then show ?case using results_inv_step reach_pair_inv by blast
qed

text \<open>A mux whose loop has ended delivers nothing any more.\<close>

lemma done_step:
  assumes "pair_step s s'" "mx_done (pc_parent s)"
  shows "mx_done (pc_parent s') \<and> mx_results (pc_parent s') = mx_results (pc_parent s)"
  using assms by cases (auto simp: open_session_def drop_session_def Let_def)

lemma done_steps:
  "pair_step\<^sup>*\<^sup>* s s' \<Longrightarrow> mx_done (pc_parent s) \<Longrightarrow>
     mx_results (pc_parent s') = mx_results (pc_parent s)"
proof (induction rule: converse_rtranclp_induct)
  case (step s s1)
  then show ?case using done_step by metis
qed simp

text \<open>
  When the parent's read loop fails every pending request returns with an error, and no run from there on ever
  delivers to a later one.
\<close>

lemma pair_failure_wakes_pending:
  assumes "pair_reach s" "pair_step\<^sup>*\<^sup>* (s\<lparr>pc_parent := read_failed rk (pc_parent s)\<rparr>) s'"
  shows "(map_of (mx_sessions (pc_parent s)) q = Some t \<longrightarrow> await_result t (pc_parent s') = Inr None) \<and>
    (length (pc_sent s) \<le> u \<longrightarrow> await_result u (pc_parent s') = Inl ())"
proof -
  let ?m = "read_failed rk (pc_parent s)"
  have inv: "pair_inv s" "results_inv s"
    using assms(1) by (simp_all add: reach_pair_inv reach_results_inv)
  have res: "mx_results (pc_parent s') = mx_results ?m"
    using done_steps[OF assms(2)] by (simp add: read_failed_def)
  let ?cl = "map (\<lambda>(s, t). (t, None)) (gm_range rk (mx_sessions (pc_parent s))) ::
     (nat \<times> (payload \<times> fd list) option) list"
  have cl: "map_of ?cl v = (if v \<in> snd ` set (mx_sessions (pc_parent s)) then Some None else None)" for v
  proof (cases "v \<in> snd ` set (mx_sessions (pc_parent s))")
    case True
    then have "v \<in> fst ` set ?cl" by force
    then obtain x where "map_of ?cl v = Some x"
      by (meson not_Some_eq map_of_eq_None_iff)
    then show ?thesis
      using True by (auto dest!: map_of_SomeD)
  next
    case False
    then have "v \<notin> fst ` set ?cl" by force
    then show ?thesis
      using False by (simp add: map_of_eq_None_iff del: map_map)
  qed
  have "await_result t (pc_parent s') = Inr None" if "map_of (mx_sessions (pc_parent s)) q = Some t"
  proof -
    have "map_of (mx_results (pc_parent s)) t = None" "t \<in> snd ` set (mx_sessions (pc_parent s))"
      using inv(2) that by (auto simp: results_inv_def map_of_eq_None_iff dest: map_of_SomeD intro: rev_image_eqI)
    then show ?thesis
      using cl[of t] by (simp add: await_result_def res read_failed_def map_add_def)
  qed
  moreover have "await_result u (pc_parent s') = Inl ()" if "length (pc_sent s) \<le> u"
  proof -
    have "v < length (pc_sent s)" if "v \<in> snd ` set (mx_sessions (pc_parent s))" for v
      using that inv(1) gm_wf_mem by (fastforce simp: pair_inv_def)
    then have "u \<notin> snd ` set (mx_sessions (pc_parent s))" using that by fastforce
    moreover have "map_of (mx_results (pc_parent s)) u = None"
      using inv(2) that by (fastforce simp: results_inv_def map_of_eq_None_iff)
    ultimately show ?thesis
      using cl[of u] by (simp add: await_result_def res read_failed_def map_add_def)
  qed
  ultimately show ?thesis by blast
qed

end
