(* ===== verification/Fd_Stream.thy ===== *)
theory Fd_Stream
  imports Fdchan
begin

section \<open>Parent and child over a socket (pkg/sandbox/fdchan/fdchan.go)\<close>

text \<open>
  Parent and child with the two directions of their stream socket as bytes: requests and responses are written as
  frames and read back from the segments. That this refines the exchange of payloads of theory Fdchan, and what it
  means for requests.
\<close>

record stream_pair =
  sp_parent :: mux
  sp_child :: mux
  sp_to_child :: segments
  sp_to_parent :: segments
  sp_handling :: "message list"
  sp_sent :: "message list"
  sp_writing :: "(64 word \<times> message) list"
  sp_replies :: "(message \<times> message) list"

definition init_stream :: stream_pair where
  "init_stream = \<lparr>sp_parent = new_mux, sp_child = new_mux, sp_to_child = [], sp_to_parent = [],
     sp_handling = [], sp_sent = [], sp_writing = [], sp_replies = []\<rparr>"

text \<open>
  A request registers its session and then writes its frame, or the write fails, as it does for a message whose files and annotations do not match. A
  reader dispatches a frame; it fails on anything else it reads, and when the socket does.
\<close>

inductive stream_step :: "stream_pair \<Rightarrow> stream_pair \<Rightarrow> bool" where
  opens: "open_session (length (sp_sent s)) (sp_parent s) = (m, seq) \<Longrightarrow>
    stream_step s (s\<lparr>sp_parent := m, sp_sent := sp_sent s @ [msg], sp_writing := (seq, msg) # sp_writing s\<rparr>)"
| writes: "(seq, msg) \<in> set (sp_writing s) \<Longrightarrow>
    write_wire (request_payload seq msg) (ms_files msg) = Some frame \<Longrightarrow>
    stream_step s (s\<lparr>sp_writing := remove1 (seq, msg) (sp_writing s), sp_to_child := sp_to_child s @ [frame]\<rparr>)"
| write_fails: "(seq, msg) \<in> set (sp_writing s) \<Longrightarrow>
    stream_step s (s\<lparr>sp_writing := remove1 (seq, msg) (sp_writing s), sp_parent := drop_session seq (sp_parent s)\<rparr>)"
| child_reads: "\<not> mx_done (sp_child s) \<Longrightarrow> read_wire (sp_to_child s) = (Frame p fds, rest) \<Longrightarrow>
    dispatch p fds (sp_child s) = Some m \<Longrightarrow>
    stream_step s (s\<lparr>sp_child := m, sp_to_child := rest\<rparr>)"
| child_takes: "receive_request (sp_child s) = Some (msg, m) \<Longrightarrow>
    stream_step s (s\<lparr>sp_child := m, sp_handling := sp_handling s @ [msg]\<rparr>)"
| child_responds: "msg \<in> set (sp_handling s) \<Longrightarrow>
    write_wire (response_payload (ms_seq msg) reply) (ms_files reply) = Some frame \<Longrightarrow>
    stream_step s (s\<lparr>sp_replies := sp_replies s @ [(msg, reply)], sp_to_parent := sp_to_parent s @ [frame]\<rparr>)"
| parent_reads: "\<not> mx_done (sp_parent s) \<Longrightarrow> read_wire (sp_to_parent s) = (Frame p fds, rest) \<Longrightarrow>
    dispatch p fds (sp_parent s) = Some m \<Longrightarrow>
    stream_step s (s\<lparr>sp_parent := m, sp_to_parent := rest\<rparr>)"
| parent_fails: "\<not> mx_done (sp_parent s) \<Longrightarrow> stream_step s (s\<lparr>sp_parent := read_failed rk (sp_parent s)\<rparr>)"
| child_fails: "\<not> mx_done (sp_child s) \<Longrightarrow> stream_step s (s\<lparr>sp_child := read_failed rk (sp_child s)\<rparr>)"

inductive stream_reach :: "stream_pair \<Rightarrow> bool" where
  start: "stream_reach init_stream"
| step: "stream_reach s \<Longrightarrow> stream_step s s' \<Longrightarrow> stream_reach s'"

subsection \<open>The refinement\<close>

text \<open>A message that fits: ten descriptors, and a text shorter than 4 GiB whatever the sequence number.\<close>

definition fits :: "message \<Rightarrow> bool" where
  "fits m \<longleftrightarrow> length (ms_files m) \<le> 10 \<and>
     (\<forall>q. length (frame_text (request_payload q m)) < 2 ^ 32 \<and> length (frame_text (response_payload q m)) < 2 ^ 32)"

definition all_fit :: "stream_pair \<Rightarrow> bool" where
  "all_fit s \<longleftrightarrow> (\<forall>m \<in> set (sp_sent s) \<union> snd ` set (sp_replies s). fits m)"

text \<open>The messages that are being written are among those that have been sent.\<close>

definition writing_sent :: "stream_pair \<Rightarrow> bool" where
  "writing_sent s \<longleftrightarrow> snd ` set (sp_writing s) \<subseteq> set (sp_sent s)"

lemma writing_sent_step: "stream_step s s' \<Longrightarrow> writing_sent s \<Longrightarrow> writing_sent s'"
  by (induction rule: stream_step.induct)
    (auto simp: writing_sent_def dest!: subsetD[OF set_remove1_subset] intro: rev_image_eqI)

text \<open>The segments that carry payloads.\<close>

definition carries :: "(string \<times> control_message list) \<Rightarrow> payload \<times> fd list \<Rightarrow> bool" where
  "carries seg f \<longleftrightarrow> write_wire (fst f) (snd f) = Some seg \<and> length (snd f) \<le> 10 \<and> length (frame_text (fst f)) < 2 ^ 32"

definition same_exchange :: "stream_pair \<Rightarrow> pair \<Rightarrow> bool" where
  "same_exchange s a \<longleftrightarrow>
     pc_parent a = sp_parent s \<and> pc_child a = sp_child s \<and> pc_handling a = sp_handling s \<and> pc_sent a = sp_sent s \<and>
     pc_writing a = sp_writing s \<and> pc_replies a = sp_replies s \<and> list_all2 carries (sp_to_child s) (pc_to_child a) \<and>
     list_all2 carries (sp_to_parent s) (pc_to_parent a)"

lemma carries_read:
  assumes "read_wire segs = (Frame p fds, rest)" "list_all2 carries segs fs"
  obtains fs' where "fs = (p, fds) # fs'" "list_all2 carries rest fs'"
proof (cases segs)
  case Nil
  then show ?thesis
    using assms(1) by (simp add: read_wire_def)
next
  case (Cons seg segs')
  then obtain f fs' where fs: "fs = f # fs'" "carries seg f" "list_all2 carries segs' fs'"
    using assms(2) by (auto simp: list_all2_Cons1)
  then have "read_wire (seg # segs') = (Frame (fst f) (take 10 (snd f)), segs')"
    using frame_round_trip[of "fst f" "snd f" "fst seg" "snd seg" segs'] by (simp add: carries_def)
  then show ?thesis
    using that fs assms(1) Cons by (auto simp: carries_def)
qed

lemma carries_write:
  "write_wire p fds = Some frame \<Longrightarrow> length fds \<le> 10 \<Longrightarrow> length (frame_text p) < 2 ^ 32 \<Longrightarrow> carries frame (p, fds)"
  by (simp add: carries_def)

text \<open>Each step on the socket is a step of the exchange of payloads.\<close>

lemma stream_step_refines:
  assumes "stream_step s s'" "same_exchange s a" "all_fit s'" "writing_sent s"
  shows "\<exists>a'. pair_step a a' \<and> same_exchange s' a'"
  using assms(1)
proof cases
  case (opens m seq msg)
  have "open_session (length (pc_sent a)) (pc_parent a) = (m, seq)"
    using opens(2) assms(2) by (simp add: same_exchange_def)
  then show ?thesis
    using pair_step.opens[of a m seq msg] opens(1) assms(2)
    by (intro exI conjI) (assumption, auto simp: same_exchange_def)
next
  case (writes seq msg frame)
  have "fits msg"
    using assms(3,4) writes(1,2) by (force simp: all_fit_def writing_sent_def)
  then have "carries frame (request_payload seq msg, ms_files msg)"
    using writes(3) by (intro carries_write) (simp_all add: fits_def)
  then show ?thesis
    using pair_step.writes[of seq msg a] writes(1,2) assms(2)
    by (intro exI conjI) (assumption?, auto simp: same_exchange_def list_all2_appendI)
next
  case (write_fails seq msg)
  then show ?thesis
    using pair_step.write_fails[of seq msg a] assms(2)
    by (intro exI conjI) (assumption?, auto simp: same_exchange_def)
next
  case (child_reads p fds rest m)
  obtain fs where "pc_to_child a = (p, fds) # fs" "list_all2 carries rest fs"
    using carries_read[OF child_reads(3)] assms(2) by (auto simp: same_exchange_def)
  then show ?thesis
    using pair_step.child_reads[of a p fds fs m] child_reads assms(2)
    by (intro exI conjI) (assumption?, auto simp: same_exchange_def)
next
  case (child_takes msg m)
  then show ?thesis
    using pair_step.child_takes[of a msg m] assms(2)
    by (intro exI conjI) (assumption?, auto simp: same_exchange_def)
next
  case (child_responds msg reply frame)
  have "fits reply"
    using assms(3) child_responds(1) by (simp add: all_fit_def)
  then have "carries frame (response_payload (ms_seq msg) reply, ms_files reply)"
    using child_responds(3) by (intro carries_write) (simp_all add: fits_def)
  then show ?thesis
    using pair_step.child_responds[of msg a reply] child_responds assms(2)
    by (intro exI conjI) (assumption?, auto simp: same_exchange_def list_all2_appendI)
next
  case (parent_reads p fds rest m)
  obtain fs where "pc_to_parent a = (p, fds) # fs" "list_all2 carries rest fs"
    using carries_read[OF parent_reads(3)] assms(2) by (auto simp: same_exchange_def)
  then show ?thesis
    using pair_step.parent_reads[of a p fds fs m] parent_reads assms(2)
    by (intro exI conjI) (assumption?, auto simp: same_exchange_def)
next
  case (parent_fails rk)
  then show ?thesis
    using pair_step.parent_fails[of a rk] assms(2)
    by (intro exI conjI) (assumption?, auto simp: same_exchange_def)
next
  case (child_fails rk)
  then show ?thesis
    using pair_step.child_fails[of a rk] assms(2)
    by (intro exI conjI) (assumption?, auto simp: same_exchange_def)
qed

lemma stream_step_fit: "stream_step s s' \<Longrightarrow> all_fit s' \<Longrightarrow> all_fit s"
  by (induction rule: stream_step.induct) (auto simp: all_fit_def)

lemma stream_steps_refine:
  "stream_step\<^sup>*\<^sup>* s s' \<Longrightarrow> same_exchange s a \<Longrightarrow> all_fit s' \<Longrightarrow> writing_sent s \<Longrightarrow>
     \<exists>a'. pair_step\<^sup>*\<^sup>* a a' \<and> same_exchange s' a' \<and> all_fit s"
proof (induction arbitrary: a rule: converse_rtranclp_induct)
  case (step s s1)
  have "all_fit s1"
    using step.hyps(2) step.prems(2) stream_step_fit by (induction rule: rtranclp_induct) auto
  then obtain a1 where a1: "pair_step a a1" "same_exchange s1 a1"
    using stream_step_refines[OF step.hyps(1) step.prems(1)] step.prems(3) by blast
  then show ?case
    using step.IH[OF a1(2) step.prems(2) writing_sent_step[OF step.hyps(1) step.prems(3)]] stream_step_fit[OF step.hyps(1) \<open>all_fit s1\<close>] a1(1)
    by (meson converse_rtranclp_into_rtranclp)
qed auto

lemma pair_steps_reach: "pair_step\<^sup>*\<^sup>* a a' \<Longrightarrow> pair_reach a \<Longrightarrow> pair_reach a'"
  by (induction rule: rtranclp_induct) (auto intro: pair_reach.step)

lemma stream_reach_steps: "stream_reach s \<Longrightarrow> stream_step\<^sup>*\<^sup>* init_stream s"
  by (induction rule: stream_reach.induct) (auto intro: rtranclp.rtrancl_into_rtrancl)

lemma stream_reach_writing: "stream_reach s \<Longrightarrow> writing_sent s"
proof (induction rule: stream_reach.induct)
  case start
  show ?case by (simp add: writing_sent_def init_stream_def)
qed (rule writing_sent_step)

lemma stream_reach_refines:
  assumes "stream_reach s" "all_fit s"
  shows "\<exists>a. pair_reach a \<and> same_exchange s a"
proof -
  have "same_exchange init_stream init_pair"
    by (simp add: same_exchange_def init_stream_def init_pair_def)
  then show ?thesis
    using stream_steps_refine[OF stream_reach_steps[OF assms(1)] _ assms(2) stream_reach_writing[OF stream_reach.start]]
      pair_steps_reach pair_reach.start by blast
qed

subsection \<open>Requests over the socket\<close>

text \<open>
  C33. A request returns the child's answer to that very request: in every run of parent and child over the bytes of
  their socket, however many requests are pending, in whatever order they are written and the child answers them, a
  response that a request receives is one the child gave to the message of that request, with
  its data, descriptors and annotations. The messages carry at most ten descriptors and a text shorter than 4 GiB,
  and there are fewer than \<open>2 ^ 64 - 1\<close> requests, so that the sequence numbers are not reused.
\<close>

theorem request_gets_its_own_response:
  assumes "stream_reach s" "all_fit s" "length (sp_sent s) < 2 ^ 64 - 1"
    and "await_result t (sp_parent s) = Inr (Some r)"
  shows "t < length (sp_sent s) \<and>
    (\<exists>reply. ((sp_sent s ! t)\<lparr>ms_seq := seq_of t\<rparr>, reply) \<in> set (sp_replies s) \<and>
       r = reply\<lparr>ms_seq := seq_of t\<rparr>)"
proof -
  obtain a where "pair_reach a" "same_exchange s a"
    using stream_reach_refines[OF assms(1,2)] by blast
  then show ?thesis
    using pair_request_gets_response[of a t r] assms(3,4) by (simp add: same_exchange_def)
qed

text \<open>
  C34. When the parent's read loop fails, every request that is pending at that moment returns
  with an error, and every request made after it, once it is written, waits for ever: no run from there on ever
  delivers to it. The messages are as before.
\<close>

theorem reader_failure_wakes_only_pending:
  assumes "stream_reach s" "stream_step\<^sup>*\<^sup>* (s\<lparr>sp_parent := read_failed rk (sp_parent s)\<rparr>) s'" "all_fit s'"
  shows "(map_of (mx_sessions (sp_parent s)) q = Some t \<longrightarrow> await_result t (sp_parent s') = Inr None) \<and>
    (length (sp_sent s) \<le> u \<longrightarrow> await_result u (sp_parent s') = Inl ())"
proof -
  let ?s = "s\<lparr>sp_parent := read_failed rk (sp_parent s)\<rparr>"
  have "all_fit ?s"
    using assms(2,3) stream_step_fit by (induction rule: rtranclp_induct) auto
  then have "all_fit s"
    by (simp add: all_fit_def)
  then obtain a where a: "pair_reach a" "same_exchange s a"
    using stream_reach_refines[OF assms(1)] by blast
  then have "same_exchange ?s (a\<lparr>pc_parent := read_failed rk (pc_parent a)\<rparr>)"
    by (simp add: same_exchange_def)
  moreover have "writing_sent ?s"
    using stream_reach_writing[OF assms(1)] by (simp add: writing_sent_def)
  ultimately obtain a' where
    "pair_step\<^sup>*\<^sup>* (a\<lparr>pc_parent := read_failed rk (pc_parent a)\<rparr>) a'" "same_exchange s' a'"
    using stream_steps_refine[OF assms(2) _ assms(3)] by blast
  then show ?thesis
    using pair_failure_wakes_pending[OF a(1), of rk a' q t u] a(2) by (simp add: same_exchange_def)
qed

subsection \<open>An exchange\<close>

lemma frame_text_short:
  assumes "pl_annotations p = []" "pl_data p = d" "length (json_text (bytes_json d)) \<le> 100"
  shows "length (frame_text p) < 2 ^ 32"
proof -
  have "unat (pl_sequence p) < 10 ^ 20"
    by (rule order.strict_trans[OF unsigned_less]) simp
  then have "length (dec_nat (unat (pl_sequence p))) \<le> 20"
    by (rule dec_nat_length) simp
  moreover have "length (quoted_text ''seq'') = 5" "length (quoted_text ''is_response'') = 13" "length (quoted_text ''data'') = 6"
    by code_simp+
  ultimately show ?thesis
    using assms by (simp add: frame_text_def frame_json_def number_json_def)
qed

lemma ping_fits: "fits ping"
proof -
  have "length (json_text (bytes_json ''ping'')) \<le> 100"
    by code_simp
  then have "length (frame_text (request_payload q ping)) < 2 ^ 32" "length (frame_text (response_payload q ping)) < 2 ^ 32" for q
    by (rule frame_text_short[of _ "''ping''", rotated 2];
        simp add: ping_def request_payload_def response_payload_def)+
  then show ?thesis
    unfolding fits_def by (simp add: ping_def)
qed

lemma pong_fits: "fits pong"
proof -
  have "length (json_text (bytes_json ''pong'')) \<le> 100"
    by code_simp
  then have "length (frame_text (request_payload q pong)) < 2 ^ 32" "length (frame_text (response_payload q pong)) < 2 ^ 32" for q
    by (rule frame_text_short[of _ "''pong''", rotated 2];
        simp add: pong_def request_payload_def response_payload_def)+
  then show ?thesis
    unfolding fits_def by (simp add: pong_def)
qed

text \<open>A frame without descriptors and the segment it is.\<close>

definition ping_frame :: "string \<times> control_message list" where
  "ping_frame = the (write_wire (request_payload 1 ping) [])"

definition pong_frame :: "string \<times> control_message list" where
  "pong_frame = the (write_wire (response_payload 1 pong) [])"

lemma frames_of_exchange:
  "write_wire (request_payload 1 ping) [] = Some ping_frame" "write_wire (response_payload 1 pong) [] = Some pong_frame"
  by (simp_all add: write_wire_def ping_frame_def pong_frame_def Let_def request_payload_def response_payload_def ping_def pong_def)

lemma frames_are_read:
  "read_wire [ping_frame] = (Frame (request_payload 1 ping) [], [])"
  "read_wire [pong_frame] = (Frame (response_payload 1 pong) [], [])"
proof -
  have short: "length (frame_text (request_payload 1 ping)) < 2 ^ 32" "length (frame_text (response_payload 1 pong)) < 2 ^ 32"
    using ping_fits pong_fits unfolding fits_def by blast+
  show "read_wire [ping_frame] = (Frame (request_payload 1 ping) [], [])"
    using frame_round_trip[OF short(1), of "[]" "fst ping_frame" "snd ping_frame" "[]"] frames_of_exchange(1) by simp
  show "read_wire [pong_frame] = (Frame (response_payload 1 pong) [], [])"
    using frame_round_trip[OF short(2), of "[]" "fst pong_frame" "snd pong_frame" "[]"] frames_of_exchange(2) by simp
qed

lemma sample_exchange:
  "\<exists>s. stream_reach s \<and> sp_sent s = [ping] \<and> sp_replies s = [(ping\<lparr>ms_seq := 1\<rparr>, pong)] \<and>
     await_result 0 (sp_parent s) = Inr (Some (pong\<lparr>ms_seq := 1\<rparr>))"
proof -
  let ?m1 = "new_mux\<lparr>mx_next_seq := 1, mx_sessions := [(1, 0)]\<rparr>"
  let ?s0 = "init_stream\<lparr>sp_parent := ?m1, sp_sent := [ping], sp_writing := [(1, ping)]\<rparr>"
  let ?s1 = "?s0\<lparr>sp_writing := [], sp_to_child := [ping_frame]\<rparr>"
  let ?s2 = "?s1\<lparr>sp_child := new_mux\<lparr>mx_inbound := [ping\<lparr>ms_seq := 1\<rparr>]\<rparr>, sp_to_child := []\<rparr>"
  let ?s3 = "?s2\<lparr>sp_child := new_mux\<lparr>mx_inbound := []\<rparr>, sp_handling := [ping\<lparr>ms_seq := 1\<rparr>]\<rparr>"
  let ?s4 = "?s3\<lparr>sp_replies := [(ping\<lparr>ms_seq := 1\<rparr>, pong)], sp_to_parent := [pong_frame]\<rparr>"
  let ?m5 = "?m1\<lparr>mx_sessions := [], mx_results := [(0, Some (response_payload 1 pong, []))]\<rparr>"
  let ?s5 = "?s4\<lparr>sp_parent := ?m5, sp_to_parent := []\<rparr>"
  have files: "ms_files ping = []" "ms_files pong = []"
    by (simp_all add: ping_def pong_def)
  have "stream_step init_stream ?s0"
    using stream_step.opens[of init_stream ?m1 1 ping]
    by (simp add: open_session_def init_stream_def new_mux_def gm_store_def)
  moreover have "stream_step ?s0 ?s1"
    using stream_step.writes[of 1 ping ?s0 ping_frame] frames_of_exchange(1)
    by (simp add: init_stream_def files)
  moreover have "stream_step ?s1 ?s2"
    using stream_step.child_reads[of ?s1 "request_payload 1 ping" "[]" "[]" "new_mux\<lparr>mx_inbound := [ping\<lparr>ms_seq := 1\<rparr>]\<rparr>"]
      frames_are_read(1)
    by (simp add: init_stream_def new_mux_def dispatch_def request_payload_def message_of_def ping_def)
  moreover have "stream_step ?s2 ?s3"
    using stream_step.child_takes[of ?s2 "ping\<lparr>ms_seq := 1\<rparr>" "new_mux\<lparr>mx_inbound := []\<rparr>"]
    by (simp add: init_stream_def new_mux_def receive_request_def)
  moreover have "stream_step ?s3 ?s4"
    using stream_step.child_responds[of "ping\<lparr>ms_seq := 1\<rparr>" ?s3 pong pong_frame] frames_of_exchange(2)
    by (simp add: init_stream_def files)
  moreover have "stream_step ?s4 ?s5"
    using stream_step.parent_reads[of ?s4 "response_payload 1 pong" "[]" "[]" ?m5] frames_are_read(2)
    by (simp add: init_stream_def new_mux_def dispatch_def response_payload_def gm_remove_def)
  ultimately have "stream_reach ?s5"
    using stream_reach.start stream_reach.step by metis
  then show ?thesis
    by (intro exI[of _ ?s5])
      (simp add: await_result_def message_of_def response_payload_def pong_def)
qed

theorem request_gets_its_own_response_witness:
  "\<exists>s reply. stream_reach s \<and> (ping\<lparr>ms_seq := seq_of 0\<rparr>, reply) \<in> set (sp_replies s) \<and>
     pong\<lparr>ms_seq := 1\<rparr> = reply\<lparr>ms_seq := seq_of 0\<rparr>"
proof -
  obtain s where s: "stream_reach s" "sp_sent s = [ping]" "sp_replies s = [(ping\<lparr>ms_seq := 1\<rparr>, pong)]"
      "await_result 0 (sp_parent s) = Inr (Some (pong\<lparr>ms_seq := 1\<rparr>))"
    using sample_exchange by blast
  have "all_fit s"
    using s(2,3) ping_fits pong_fits by (simp add: all_fit_def)
  then show ?thesis
    using request_gets_its_own_response[OF s(1) _ _ s(4)] s(1,2) by auto
qed

theorem reader_failure_wakes_only_pending_witness:
  "await_result 0 (read_failed (\<lambda>_. 0) (sp_parent init_stream)) = Inl ()"
proof -
  have "all_fit (init_stream\<lparr>sp_parent := read_failed (\<lambda>_. 0) (sp_parent init_stream)\<rparr>)"
    by (simp add: all_fit_def init_stream_def)
  then show ?thesis
    using reader_failure_wakes_only_pending[OF stream_reach.start rtranclp.rtrancl_refl, of "\<lambda>_. 0" 0 _ 0]
    by (simp add: init_stream_def)
qed

end
