(* ===== verification/Fd_Ends.thy ===== *)
theory Fd_Ends
  imports Fdchan
begin

section \<open>The ends of the descriptor channel (pkg/sandbox/fdchan/fdchan.go)\<close>

text \<open>
  How the two ends of a channel come about and go away: the descriptor tables of the two processes, what a started
  process inherits, the environment that tells it which descriptor is the channel, and the closing of an end. A table
  lists the descriptors from 0 on, each with the file it refers to and whether it is closed on exec.
\<close>

subsection \<open>Descriptor tables\<close>

datatype open_file = ParentSide | ChildSide | OtherFile nat

type_synonym fd_table = "(open_file \<times> bool) option list"

definition fd_entry :: "fd \<Rightarrow> fd_table \<Rightarrow> (open_file \<times> bool) option" where
  "fd_entry n tab = (if n < length tab then tab ! n else None)"

text \<open>A new descriptor is the lowest that is free.\<close>

fun install :: "open_file \<times> bool \<Rightarrow> fd_table \<Rightarrow> fd_table \<times> fd" where
  "install x [] = ([Some x], 0)"
| "install x (None # tab) = (Some x # tab, 0)"
| "install x (Some y # tab) = (let (tab', n) = install x tab in (Some y # tab', Suc n))"

definition close_fd :: "fd \<Rightarrow> fd_table \<Rightarrow> fd_table" where
  "close_fd n tab = tab[n := None]"

definition close_all :: "fd list \<Rightarrow> fd_table \<Rightarrow> fd_table" where
  "close_all fds tab = fold close_fd fds tab"

text \<open>The table behind exec, and that of a started process, whose first descriptors are the given ones.\<close>

definition exec_table :: "fd_table \<Rightarrow> fd_table" where
  "exec_table tab = map (\<lambda>d. case d of Some (f, False) \<Rightarrow> Some (f, False) | _ \<Rightarrow> None) tab"

definition started_table :: "fd list \<Rightarrow> fd_table \<Rightarrow> fd_table" where
  "started_table files tab =
     map (\<lambda>n. map_option (\<lambda>(f, _). (f, False)) (fd_entry n tab)) files @ drop (length files) (exec_table tab)"

lemma fd_entry_Cons [simp]: "fd_entry 0 (d # tab) = d" "fd_entry (Suc n) (d # tab) = fd_entry n tab"
  by (simp_all add: fd_entry_def)

lemma fd_entry_close: "fd_entry m (close_fd n tab) = (if m = n then None else fd_entry m tab)"
  by (auto simp: fd_entry_def close_fd_def)

lemma fd_entry_close_all: "fd_entry m (close_all fds tab) = (if m \<in> set fds then None else fd_entry m tab)"
  unfolding close_all_def by (induction fds arbitrary: tab) (auto simp: fd_entry_close)

lemma fd_entry_exec: "fd_entry m (exec_table tab) =
    (case fd_entry m tab of Some (f, False) \<Rightarrow> Some (f, False) | _ \<Rightarrow> None)"
  by (auto simp: fd_entry_def exec_table_def)

lemma fd_entry_started: "fd_entry m (started_table files tab) =
    (if m < length files then map_option (\<lambda>(f, _). (f, False)) (fd_entry (files ! m) tab)
     else fd_entry m (exec_table tab))"
  by (auto simp: fd_entry_def started_table_def nth_append exec_table_def)

lemma fd_entry_install: "fd_entry m (fst (install x tab)) = (if m = snd (install x tab) then Some x else fd_entry m tab)"
proof (induction x tab arbitrary: m rule: install.induct)
  case (1 x)
  then show ?case by (cases m) (simp_all add: fd_entry_def)
next
  case (2 x tab)
  then show ?case by (cases m) simp_all
next
  case (3 x y tab)
  then show ?case by (cases m; cases "install x tab") simp_all
qed

lemma install_free: "fd_entry (snd (install x tab)) tab = None"
  by (induction x tab rule: install.induct) (auto simp: fd_entry_def split: prod.splits)

lemma install_least: "m < snd (install x tab) \<Longrightarrow> fd_entry m tab \<noteq> None"
proof (induction x tab arbitrary: m rule: install.induct)
  case (3 x y tab)
  then show ?case by (cases m) (simp_all split: prod.splits)
qed simp_all

subsection \<open>The environment\<close>

definition env_var_key :: string where
  "env_var_key = ''FDCHAN_INHERITED_FD''"

definition getenv :: "string \<Rightarrow> string list \<Rightarrow> string" where
  "getenv k environ =
     (case filter (\<lambda>e. has_prefix e (k @ ''='')) environ of [] \<Rightarrow> [] | e # _ \<Rightarrow> fst (cut_prefix e (k @ ''='')))"

lemma getenv_set: "getenv k [k @ ''='' @ v] = v"
  using cut_prefix_append[of "k @ ''=''" v] has_prefix_append[of "k @ ''=''" v] by (simp add: getenv_def)

subsection \<open>NewParent and NewChild\<close>

text \<open>
  \<open>pa_child_file\<close>: \<open>None\<close> is the nil pointer, \<open>Some None\<close> a file that has been closed. The first argument holds what
  \<open>Socketpair\<close> and \<open>FileConn\<close> answer. A connection is a duplicate that is closed on exec; the descriptors of a socket
  pair are not.
\<close>

record parent_end =
  pa_conn :: fd
  pa_child_file :: "fd option option"

definition new_parent ::
  "string option \<times> string option \<Rightarrow> fd_table \<Rightarrow> (string + parent_end) \<times> fd_table" where
  "new_parent answers tab =
     (case answers of
        (Some e, _) \<Rightarrow> (Inl e, tab)
      | (None, conn_err) \<Rightarrow>
          (let (tab1, f0) = install (ParentSide, False) tab; (tab2, f1) = install (ChildSide, False) tab1
           in case conn_err of
                Some e \<Rightarrow> (Inl e, close_fd f1 (close_fd f0 tab2))
              | None \<Rightarrow>
                  (let (tab3, c) = install (ParentSide, True) tab2
                   in (Inr \<lparr>pa_conn = c, pa_child_file = Some (Some f1)\<rparr>, close_fd f0 tab3))))"

definition child_fd :: "parent_end \<Rightarrow> int" where
  "child_fd p = (case pa_child_file p of Some (Some f) \<Rightarrow> int f | _ \<Rightarrow> -1)"

definition env_pair :: "int \<Rightarrow> string" where
  "env_pair n = env_var_key @ ''='' @ dec_int n"

definition close_child_handle :: "parent_end \<Rightarrow> fd_table \<Rightarrow> parent_end \<times> fd_table" where
  "close_child_handle p tab =
     (case pa_child_file p of
        None \<Rightarrow> (p, tab)
      | Some f \<Rightarrow> (p\<lparr>pa_child_file := None\<rparr>, case f of Some n \<Rightarrow> close_fd n tab | None \<Rightarrow> tab))"

datatype child_error = NoContext | CorruptDescriptor | NoHandle | NotASocket

definition new_child :: "string list \<Rightarrow> fd_table \<Rightarrow> (child_error + fd) \<times> fd_table" where
  "new_child environ tab =
     (let s = getenv env_var_key environ in
      if s = [] then (Inl NoContext, tab)
      else case atoi s of
        None \<Rightarrow> (Inl CorruptDescriptor, tab)
      | Some n \<Rightarrow>
          if n < 0 then (Inl NoHandle, tab)
          else (case fd_entry (nat n) tab of
             Some (ParentSide, _) \<Rightarrow> (let (tab', c) = install (ParentSide, True) tab in (Inr c, close_fd (nat n) tab'))
           | Some (ChildSide, _) \<Rightarrow> (let (tab', c) = install (ChildSide, True) tab in (Inr c, close_fd (nat n) tab'))
           | _ \<Rightarrow> (Inl NotASocket, close_fd (nat n) tab)))"

text \<open>The standard descriptors are open.\<close>

definition std_open :: "fd_table \<Rightarrow> bool" where
  "std_open tab \<longleftrightarrow> list_all (\<lambda>n. fd_entry n tab \<noteq> None) [0, 1, 2]"

lemma std_openD: "std_open tab \<Longrightarrow> m < 3 \<Longrightarrow> fd_entry m tab \<noteq> None"
  by (auto simp: std_open_def numeral_3_eq_3 less_Suc_eq numeral_2_eq_2)

lemma std_open_install: "std_open tab \<Longrightarrow> 3 \<le> snd (install x tab) \<and> std_open (fst (install x tab))"
proof -
  assume std: "std_open tab"
  have "3 \<le> snd (install x tab)"
    using std_openD[OF std] install_free[of x tab] by (meson not_le)
  moreover have "std_open (fst (install x tab))"
    using std by (simp add: std_open_def fd_entry_install)
  ultimately show ?thesis ..
qed

text \<open>Behind \<open>NewParent\<close> there is one descriptor of each side, above the standard ones and below \<open>4\<close> at the lowest.\<close>

lemma new_parent_ends:
  assumes "std_open tab" "new_parent answers tab = (Inr p, tab')"
  obtains f where "pa_child_file p = Some (Some f)" "4 \<le> f" "pa_conn p \<noteq> f"
    "fd_entry f tab' = Some (ChildSide, False)" "fd_entry (pa_conn p) tab' = Some (ParentSide, True)"
    "\<forall>m. m \<noteq> f \<longrightarrow> m \<noteq> pa_conn p \<longrightarrow> fd_entry m tab' = fd_entry m tab"
proof -
  obtain tab1 f0 where i0: "install (ParentSide, False) tab = (tab1, f0)" by fastforce
  obtain tab2 f1 where i1: "install (ChildSide, False) tab1 = (tab2, f1)" by fastforce
  obtain tab3 c where i2: "install (ParentSide, True) tab2 = (tab3, c)" by fastforce
  have ans: "answers = (None, None)" and p: "p = \<lparr>pa_conn = c, pa_child_file = Some (Some f1)\<rparr>"
    and tab': "tab' = close_fd f0 tab3"
    using assms(2) i0 i1 i2 by (auto simp: new_parent_def Let_def split: option.splits prod.splits)
  have e1: "fd_entry m tab1 = (if m = f0 then Some (ParentSide, False) else fd_entry m tab)"
    and e2: "fd_entry m tab2 = (if m = f1 then Some (ChildSide, False) else fd_entry m tab1)"
    and e3: "fd_entry m tab3 = (if m = c then Some (ParentSide, True) else fd_entry m tab2)" for m
    using fd_entry_install[of m "(ParentSide, False)" tab] fd_entry_install[of m "(ChildSide, False)" tab1]
      fd_entry_install[of m "(ParentSide, True)" tab2] by (simp_all add: i0 i1 i2)
  have free: "fd_entry f0 tab = None" "fd_entry f1 tab1 = None" "fd_entry c tab2 = None"
    using install_free[of "(ParentSide, False)" tab] install_free[of "(ChildSide, False)" tab1]
      install_free[of "(ParentSide, True)" tab2] by (simp_all add: i0 i1 i2)
  then have ne: "f1 \<noteq> f0" "c \<noteq> f1" "c \<noteq> f0"
    using e1 e2 by (metis option.distinct(1))+
  have "fd_entry f1 tab = None"
    using free(2) e1[of f1] ne by simp
  then have "\<not> f1 < f0"
    using install_least[of f1 "(ParentSide, False)" tab] by (auto simp: i0)
  moreover have "3 \<le> f0"
    using std_open_install[OF assms(1), of "(ParentSide, False)"] by (simp add: i0)
  ultimately have "4 \<le> f1"
    using ne(1) by linarith
  then show ?thesis
    using that[of f1] ne e1 e2 e3 free by (simp add: p tab' fd_entry_close)
qed

lemma new_parent_conn_free: "new_parent answers tab = (Inr p, tab') \<Longrightarrow> fd_entry (pa_conn p) tab = None"
proof -
  assume np: "new_parent answers tab = (Inr p, tab')"
  obtain tab1 f0 where i0: "install (ParentSide, False) tab = (tab1, f0)" by fastforce
  obtain tab2 f1 where i1: "install (ChildSide, False) tab1 = (tab2, f1)" by fastforce
  obtain tab3 c where i2: "install (ParentSide, True) tab2 = (tab3, c)" by fastforce
  have "fd_entry c tab2 = None"
    using install_free[of "(ParentSide, True)" tab2] by (simp add: i2)
  then show ?thesis
    using np i0 i1 i2 fd_entry_install[of c "(ParentSide, False)" tab] fd_entry_install[of c "(ChildSide, False)" tab1]
    by (auto simp: new_parent_def Let_def split: option.splits prod.splits if_splits)
qed

subsection \<open>The process that Run starts\<close>

text \<open>
  \<open>Sandbox.Run\<close> passes the standard descriptors and the child's side as the fourth, and names it in the environment
  by the number it has in the parent.
\<close>

definition run_files :: "parent_end \<Rightarrow> fd list" where
  "run_files p = [0, 1, 2, nat (child_fd p)]"

definition run_environ :: "parent_end \<Rightarrow> string list" where
  "run_environ p = [env_pair (child_fd p)]"

text \<open>A table without ends of a channel.\<close>

definition no_channel :: "fd_table \<Rightarrow> bool" where
  "no_channel tab \<longleftrightarrow> list_all (\<lambda>d. case d of Some (OtherFile _, _) \<Rightarrow> True | None \<Rightarrow> True | _ \<Rightarrow> False) tab"

lemma no_channelD: "no_channel tab \<Longrightarrow> fd_entry n tab = Some (x, b) \<Longrightarrow> x \<noteq> ParentSide \<and> x \<noteq> ChildSide"
  by (fastforce simp: no_channel_def list_all_length fd_entry_def split: if_splits)

lemma child_opens_channel:
  assumes "std_open tab" "no_channel tab" "new_parent answers tab = (Inr p, tab')" "length tab' < 2 ^ 63"
  shows "\<exists>c tabc. new_child (run_environ p) (started_table (run_files p) tab') = (Inr c, tabc) \<and>
    (\<forall>n b. fd_entry n tabc = Some (ChildSide, b) \<longleftrightarrow> n = c \<and> b \<or> n = 3 \<and> \<not> b) \<and>
    (\<forall>n b. fd_entry n tabc \<noteq> Some (ParentSide, b))"
proof -
  obtain f where f: "pa_child_file p = Some (Some f)" "4 \<le> f" "fd_entry f tab' = Some (ChildSide, False)"
    and conn: "pa_conn p \<noteq> f" "fd_entry (pa_conn p) tab' = Some (ParentSide, True)"
    and others: "\<And>m. m \<noteq> f \<Longrightarrow> m \<noteq> pa_conn p \<Longrightarrow> fd_entry m tab' = fd_entry m tab"
    using new_parent_ends[OF assms(1,3)] by metis
  let ?t = "started_table (run_files p) tab'"
  have fd: "child_fd p = int f" "length (run_files p) = 4" "run_files p = [0, 1, 2, f]"
    using f(1) by (simp_all add: child_fd_def run_files_def)
  have "f < 2 ^ 63"
    using f(3) assms(4) by (auto simp: fd_entry_def split: if_splits)
  then have env: "atoi (getenv env_var_key (run_environ p)) = Some (int f)" "getenv env_var_key (run_environ p) \<noteq> []"
    by (simp_all add: run_environ_def env_pair_def getenv_set fd dec_int_def atoi_dec_nat del: append.simps)
  have conn3: "3 \<le> pa_conn p"
    using std_openD[OF assms(1)] new_parent_conn_free[OF assms(3)] by (meson not_le)
  have std: "fd_entry m tab' = fd_entry m tab" if "m < 3" for m
    using others[of m] f(2) conn3 that by simp
  have t: "fd_entry m ?t = (if m = 3 \<or> m = f then Some (ChildSide, False)
      else if m = pa_conn p then None
      else if m < 3 then map_option (\<lambda>(x, _). (x, False)) (fd_entry m tab) else fd_entry m (exec_table tab))" for m
  proof (cases "m < 3")
    case True
    then have "m = 0 \<or> m = 1 \<or> m = 2" by auto
    then show ?thesis
      using f(2) std[OF True] conn3
      by (auto simp: fd_entry_started fd)
  next
    case False
    then show ?thesis
      using f conn others[of m] by (auto simp: fd_entry_started fd fd_entry_exec)
  qed
  obtain t c where i: "install (ChildSide, True) ?t = (t, c)" by fastforce
  have e: "fd_entry m t = (if m = c then Some (ChildSide, True) else fd_entry m ?t)" for m
    using fd_entry_install[of m "(ChildSide, True)" ?t] by (simp add: i)
  have c: "c \<noteq> f" "c \<noteq> 3"
    using install_free[of "(ChildSide, True)" ?t] t[of f] t[of 3] by (auto simp: i)
  have old: "fd_entry m ?t = Some (ChildSide, b) \<longleftrightarrow> (m = 3 \<or> m = f) \<and> \<not> b" "fd_entry m ?t \<noteq> Some (ParentSide, b)" for m b
    using no_channelD[OF assms(2), of m] t[of m] by (auto simp: fd_entry_exec split: option.splits bool.splits)
  have "new_child (run_environ p) ?t = (Inr c, close_fd f t)"
    using env t[of f] i by (simp add: new_child_def)
  then show ?thesis
    using c f(2) by (intro exI[of _ c] exI[of _ "close_fd f t"]) (auto simp: fd_entry_close e old)
qed

subsection \<open>Closing\<close>

text \<open>
  A connection with its multiplexer: \<open>cn_frame\<close> is the frame \<open>readLoop\<close> has read and not yet delivered, \<open>cn_closed\<close>
  that \<open>closeOnce\<close> has run.
\<close>

record connection =
  cn_fd :: fd
  cn_mux :: mux
  cn_frame :: "(payload \<times> fd list) option"
  cn_closed :: bool

definition new_connection :: "fd \<Rightarrow> connection" where
  "new_connection n = \<lparr>cn_fd = n, cn_mux = new_mux, cn_frame = None, cn_closed = False\<rparr>"

text \<open>
  \<open>closeConn\<close> waits until \<open>readLoop\<close> has ended; it delivers the frame it holds first. \<open>None\<close>: it waits for ever, as long
  as nobody takes a request from the full channel.
\<close>

definition loop_ends :: "64 word ranking \<Rightarrow> connection \<Rightarrow> mux option" where
  "loop_ends rk c =
     (if mx_done (cn_mux c) then Some (cn_mux c)
      else case cn_frame c of
        None \<Rightarrow> Some (read_failed rk (cn_mux c))
      | Some (p, fds) \<Rightarrow> map_option (read_failed rk) (dispatch p fds (cn_mux c)))"

definition close_conn :: "64 word ranking \<Rightarrow> connection \<Rightarrow> fd_table \<Rightarrow> (connection \<times> fd_table) option" where
  "close_conn rk c tab =
     (if cn_closed c then Some (c, tab)
      else map_option (\<lambda>m. (c\<lparr>cn_closed := True, cn_frame := None, cn_mux := m\<rparr>, close_fd (cn_fd c) tab)) (loop_ends rk c))"

definition close_parent ::
  "64 word ranking \<Rightarrow> parent_end \<Rightarrow> connection \<Rightarrow> fd_table \<Rightarrow> parent_end \<times> (connection \<times> fd_table) option" where
  "close_parent rk p c tab =
     (case pa_child_file p of
        Some (Some n) \<Rightarrow> (p\<lparr>pa_child_file := Some None\<rparr>, close_conn rk c (close_fd n tab))
      | _ \<Rightarrow> (p, close_conn rk c tab))"

text \<open>It returns unless the loop holds a request and the channel is full.\<close>

lemma close_conn_returns:
  "close_conn rk c tab = None \<longleftrightarrow> \<not> cn_closed c \<and> \<not> mx_done (cn_mux c) \<and>
     (\<exists>p fds. cn_frame c = Some (p, fds) \<and> \<not> pl_is_response p \<and> 128 \<le> length (mx_inbound (cn_mux c)))"
  by (auto simp: close_conn_def loop_ends_def dispatch_def split: option.splits)

lemma close_conn_twice: "close_conn rk c tab = Some (c', tab') \<Longrightarrow> close_conn rk' c' tab'' = Some (c', tab'')"
  by (auto simp: close_conn_def split: if_splits)

lemma close_conn_ends_loop:
  "close_conn rk c tab = Some (c', tab') \<Longrightarrow> \<not> cn_closed c \<Longrightarrow>
     mx_done (cn_mux c') \<and> tab' = close_fd (cn_fd c) tab"
  by (auto simp: close_conn_def loop_ends_def read_failed_def split: if_splits option.splits)

subsection \<open>The life of a channel\<close>

text \<open>
  C35. The child opens its side of the channel: from a parent with its standard descriptors open, the process that Run
  starts finds the channel under the number its environment names, holds no descriptor of the parent's side, and, when its
  own connection is closed on exec, passes one more descriptor of the channel, number 3, on to the command of the sandbox. The
  parent keeps a descriptor of the child's side, so that its reader does not see the end of the child; only closing the parent's
  end drops it and its connection.
\<close>

theorem channel_reaches_the_child:
  assumes "std_open tab" "no_channel tab" "new_parent answers tab = (Inr p, tab')" "length tab' < 2 ^ 63"
  shows "\<exists>c tabc. new_child (run_environ p) (started_table (run_files p) tab') = (Inr c, tabc) \<and>
    (\<forall>n b. fd_entry n tabc = Some (ChildSide, b) \<longleftrightarrow> n = c \<and> b \<or> n = 3 \<and> \<not> b) \<and>
    (\<forall>n b. fd_entry n tabc \<noteq> Some (ParentSide, b)) \<and>
    (\<forall>n b. fd_entry n (exec_table tabc) = Some (ChildSide, b) \<longleftrightarrow> n = 3 \<and> \<not> b) \<and>
    (\<exists>n. fd_entry n tab' = Some (ChildSide, False)) \<and>
    (\<exists>p' c' tab''. close_parent rk p (new_connection (pa_conn p)) tab' = (p', Some (c', tab'')) \<and>
       mx_done (cn_mux c') \<and> (\<forall>n b. fd_entry n tab'' \<noteq> Some (ParentSide, b) \<and> fd_entry n tab'' \<noteq> Some (ChildSide, b)))"
proof -
  obtain f where f: "pa_child_file p = Some (Some f)" "fd_entry f tab' = Some (ChildSide, False)"
    and others: "\<And>m. m \<noteq> f \<Longrightarrow> m \<noteq> pa_conn p \<Longrightarrow> fd_entry m tab' = fd_entry m tab"
    using new_parent_ends[OF assms(1,3)] by metis
  obtain c tabc where child: "new_child (run_environ p) (started_table (run_files p) tab') = (Inr c, tabc)"
    "\<And>n b. fd_entry n tabc = Some (ChildSide, b) \<longleftrightarrow> n = c \<and> b \<or> n = 3 \<and> \<not> b"
    "\<And>n b. fd_entry n tabc \<noteq> Some (ParentSide, b)"
    using child_opens_channel[OF assms] by blast
  have exec: "fd_entry n (exec_table tabc) = Some (ChildSide, b) \<longleftrightarrow> n = 3 \<and> \<not> b" for n b
    unfolding fd_entry_exec
    using child(2)[of n True] child(2)[of n False] by (auto split: option.splits bool.splits)
  let ?t = "close_fd (pa_conn p) (close_fd f tab')"
  let ?c = "\<lparr>cn_fd = pa_conn p, cn_mux = read_failed rk new_mux, cn_frame = None, cn_closed = True\<rparr>"
  have gone: "fd_entry n ?t \<noteq> Some (ParentSide, b) \<and> fd_entry n ?t \<noteq> Some (ChildSide, b)" for n b
    using others[of n] no_channelD[OF assms(2), of n] by (auto simp: fd_entry_close)
  have "close_parent rk p (new_connection (pa_conn p)) tab' = (p\<lparr>pa_child_file := Some None\<rparr>, Some (?c, ?t))"
    "mx_done (cn_mux ?c)"
    by (simp_all add: close_parent_def f(1) close_conn_def loop_ends_def new_connection_def new_mux_def read_failed_def)
  with gone have "\<exists>p' c' tab''. close_parent rk p (new_connection (pa_conn p)) tab' = (p', Some (c', tab'')) \<and>
       mx_done (cn_mux c') \<and> (\<forall>n b. fd_entry n tab'' \<noteq> Some (ParentSide, b) \<and> fd_entry n tab'' \<noteq> Some (ChildSide, b))"
    by blast
  with child exec f(2) show ?thesis
    by blast
qed

definition sample_table :: fd_table where
  "sample_table = [Some (OtherFile 0, False), Some (OtherFile 1, False), Some (OtherFile 2, False)]"

definition sample_end :: parent_end where
  "sample_end = \<lparr>pa_conn = 5, pa_child_file = Some (Some 4)\<rparr>"

definition sample_ends :: fd_table where
  "sample_ends = sample_table @ [None, Some (ChildSide, False), Some (ParentSide, True)]"

lemma sample_ends_open:
  "std_open sample_table" "no_channel sample_table" "new_parent (None, None) sample_table = (Inr sample_end, sample_ends)"
  "length sample_ends = 6"
  by (code_simp; fail)+

lemma channel_reaches_the_child_witness:
  "\<exists>c tabc. new_child [''FDCHAN_INHERITED_FD=4'']
      [Some (OtherFile 0, False), Some (OtherFile 1, False), Some (OtherFile 2, False), Some (ChildSide, False),
       Some (ChildSide, False), None] = (Inr c, tabc) \<and>
     (\<forall>n b. fd_entry n (exec_table tabc) = Some (ChildSide, b) \<longleftrightarrow> n = 3 \<and> \<not> b)"
proof -
  have "run_environ sample_end = [''FDCHAN_INHERITED_FD=4'']"
    "started_table (run_files sample_end) sample_ends =
      [Some (OtherFile 0, False), Some (OtherFile 1, False), Some (OtherFile 2, False), Some (ChildSide, False),
       Some (ChildSide, False), None]"
    by (code_simp; fail)+
  then show ?thesis
    using channel_reaches_the_child[OF sample_ends_open(1-3), of "\<lambda>_. 0"] sample_ends_open(4) by auto
qed

end
