(* ===== verification/Procfs.thy ===== *)
theory Procfs
  imports Go_Text
begin

section \<open>The fake procfs (pkg/sandbox/procfs/procfs.go)\<close>

text \<open>
  A FUSE node wraps a node of the loopback file system of \<open>go-fuse\<close> and overrides some files.
  What the loopback node answers is a parameter. A handler of an override is called when it is
  needed; \<open>ov\<close> is what the handlers answer at the time of the call (\<open>Some None\<close> an error).
\<close>

datatype errno = EIO | EINVAL | Errno nat

type_synonym overrides = "string \<Rightarrow> string option option"

record attr_out =
  at_size :: nat
  at_rest :: string

datatype file_handle = StaticHandle string | LoopbackHandle nat

text \<open>A node: its path below the root and its options, either pointer of which may be nil.\<close>

record proc_node =
  pn_path :: string
  pn_opts :: "overrides option option"

datatype node = ProcNode proc_node | LoopbackNode string | OtherNode string

definition wrap_child :: "proc_node \<Rightarrow> node \<Rightarrow> node" where
  "wrap_child n ops =
     (case ops of
        LoopbackNode p \<Rightarrow> ProcNode \<lparr>pn_path = p, pn_opts = pn_opts n\<rparr>
      | _ \<Rightarrow> ops)"

definition handler_of :: "proc_node \<Rightarrow> string option option" where
  "handler_of n = (case pn_opts n of Some (Some ov) \<Rightarrow> ov (pn_path n) | _ \<Rightarrow> None)"

definition getattr :: "(string \<Rightarrow> errno + attr_out) \<Rightarrow> proc_node \<Rightarrow> errno + attr_out" where
  "getattr loopback n =
     (case loopback (pn_path n) of
        Inl e \<Rightarrow> Inl e
      | Inr out \<Rightarrow>
          (case handler_of n of
             None \<Rightarrow> Inr out
           | Some None \<Rightarrow> Inl EIO
           | Some (Some content) \<Rightarrow> Inr (out\<lparr>at_size := length content\<rparr>)))"

text \<open>The flag tells whether the page cache is bypassed.\<close>

definition open_node ::
  "(string \<Rightarrow> errno + file_handle \<times> bool) \<Rightarrow> proc_node \<Rightarrow> errno + file_handle \<times> bool" where
  "open_node loopback n =
     (case handler_of n of
        None \<Rightarrow> loopback (pn_path n)
      | Some None \<Rightarrow> Inl EIO
      | Some (Some content) \<Rightarrow> Inr (StaticHandle content, True))"

text \<open>\<open>caller\<close> is the process the request comes from, if the context has it.\<close>

definition readlink :: "(string \<Rightarrow> errno + string) \<Rightarrow> nat option \<Rightarrow> proc_node \<Rightarrow> errno + string" where
  "readlink loopback caller n =
     (if pn_path n = ''self'' then
        (case caller of None \<Rightarrow> Inl EINVAL | Some pid \<Rightarrow> Inr (dec_nat pid))
      else if pn_path n = ''thread-self'' then
        (case caller of None \<Rightarrow> Inl EINVAL | Some pid \<Rightarrow> Inr (''self/task/'' @ dec_nat pid))
      else loopback (pn_path n))"

text \<open>
  A read of \<open>dest_len\<close> bytes at offset \<open>off\<close>. Slicing at a negative offset panics: \<open>None\<close>. The
  sum of the offset and the length of the buffer is at most the largest 64-bit integer, since the
  offset lies inside the content where it is computed.
\<close>

definition read_static :: "string \<Rightarrow> nat \<Rightarrow> int \<Rightarrow> string option" where
  "read_static content dest_len off =
     (if int (length content) \<le> off then Some []
      else if off < 0 then None
      else let end_off = min (off + int dest_len) (int (length content))
           in Some (take (nat (end_off - off)) (drop (nat off) content)))"

subsection \<open>Mount\<close>

datatype mount_error = NoRealProc | StatFailed | NotDirectory | LoopbackFailed | FuseFailed

text \<open>\<open>stat\<close> answers whether the path is a directory; the results of \<open>go-fuse\<close> are arguments.\<close>

definition mount_procfs ::
  "(string \<Rightarrow> bool option) \<Rightarrow> bool \<Rightarrow> bool \<Rightarrow> (string \<times> overrides option) option \<Rightarrow> mount_error + proc_node" where
  "mount_procfs stat loopback_ok fuse_ok opts =
     (case opts of
        None \<Rightarrow> Inl NoRealProc
      | Some (real, ov) \<Rightarrow>
          if real = [] then Inl NoRealProc
          else (case stat real of
                  None \<Rightarrow> Inl StatFailed
                | Some False \<Rightarrow> Inl NotDirectory
                | Some True \<Rightarrow>
                    if \<not> loopback_ok then Inl LoopbackFailed
                    else if \<not> fuse_ok then Inl FuseFailed
                    else Inr \<lparr>pn_path = [], pn_opts = Some ov\<rparr>))"

subsection \<open>Properties\<close>

text \<open>Reading a file from an offset on, with buffers of the given sizes.\<close>

fun read_through :: "string \<Rightarrow> nat list \<Rightarrow> nat \<Rightarrow> string option" where
  "read_through content [] off = Some []"
| "read_through content (n # ns) off =
     (case read_static content n (int off) of
        None \<Rightarrow> None
      | Some part \<Rightarrow> map_option ((@) part) (read_through content ns (off + length part)))"

lemma read_static_nat: "read_static content n (int off) = Some (take n (drop off content))"
  by (auto simp: read_static_def min_def nat_add_distrib)

lemma read_through_drop:
  "read_through content ns off = Some (take (sum_list ns) (drop off content))"
proof (induction ns arbitrary: off)
  case (Cons n ns)
  let ?part = "take n (drop off content)"
  have "drop (off + length ?part) content = drop n (drop off content)"
    by (cases "off + n \<le> length content") (simp_all add: add.commute)
  moreover have "take (n + m) xs = take n xs @ take m (drop n xs)" for m and xs :: string
    by (simp add: take_add)
  ultimately show ?case
    using Cons by (simp add: read_static_nat)
qed simp

text \<open>
  Reading an overridden file piece by piece gives its content: whatever buffer sizes a
  reader uses, the pieces concatenate to the prefix of the content of that total length, so the
  whole content once the sizes sum up to it; a read at or behind the end is empty and not an
  error.
\<close>

theorem sequential_reads_give_content:
  "read_through content ns 0 = Some (take (sum_list ns) content) \<and>
   (int (length content) \<le> off \<longrightarrow> read_static content n off = Some [])"
  by (simp add: read_through_drop read_static_def)

lemma sequential_reads_give_content_witness:
  "read_static ''cpu'' 8 3 = Some [] \<and> read_through ''cpuinfo'' [3, 2, 9] 0 = Some ''cpuinfo''"
  using sequential_reads_give_content[of "''cpu''" "[]" 3 8]
    sequential_reads_give_content[of "''cpuinfo''" "[3, 2, 9]" 0 0] by simp

text \<open>
  Attributes, open and the children agree: when both calls see the same answer of the
  handler, the size in the attributes of an overridden file is the number of bytes that reading
  it to the end yields, the size of any other file is the loopback's, a failing handler makes
  both calls fail with EIO, and every wrapped child, at any depth, sees the overrides of the root.
\<close>

lemma getattr_agrees_with_open:
  assumes "lb_attr (pn_path n) = Inr out"
  shows "(case open_node lb_open n of
        Inr (StaticHandle c, cached) \<Rightarrow>
          handler_of n \<noteq> None \<longrightarrow> getattr lb_attr n = Inr (out\<lparr>at_size := length c\<rparr>) \<and>
            read_through c [at_size (out\<lparr>at_size := length c\<rparr>)] 0 = Some c
      | _ \<Rightarrow> handler_of n = None \<and> getattr lb_attr n = Inr out \<or>
          handler_of n = Some None \<and> getattr lb_attr n = Inl EIO \<and> open_node lb_open n = Inl EIO) \<and>
    (\<forall>ps. fold (\<lambda>p m. case m of ProcNode k \<Rightarrow> wrap_child k (LoopbackNode p) | x \<Rightarrow> x) ps (ProcNode n) =
       ProcNode (n\<lparr>pn_path := last (pn_path n # ps)\<rparr>))"
proof -
  have "fold (\<lambda>p m. case m of ProcNode k \<Rightarrow> wrap_child k (LoopbackNode p) | x \<Rightarrow> x) ps (ProcNode k) =
      ProcNode (k\<lparr>pn_path := last (pn_path k # ps)\<rparr>)" for ps k
    by (induction ps arbitrary: k) (simp_all add: wrap_child_def)
  then show ?thesis
    using assms by (auto simp: getattr_def open_node_def read_through_drop split: option.splits
        sum.splits file_handle.splits)
qed


end
