(* ===== verification/Sandbox.thy ===== *)
theory Sandbox
  imports Fd_Ends Go_Path "HOL-Library.Word"
begin

unbundle bit_operations_syntax

section \<open>The sandbox (pkg/sandbox/sandbox.go)\<close>

text \<open>
  The system calls the sandboxed process makes before it becomes the command. The operating
  system is a parameter: it answers every call from the calls made so far.
\<close>

subsection \<open>Configuration\<close>

record payload_source =
  ps_type :: string
  ps_value :: string

record sandbox_payload =
  pd_target :: string
  pd_file_mode :: "32 word"
  pd_source :: payload_source

record sandbox_config =
  sc_hostname :: string
  sc_machine_id :: string
  sc_ip_address :: string
  sc_command :: "string list"
  sc_env :: "string list"
  sc_payload :: "sandbox_payload list"

record fs_type =
  ft_fstype :: string
  ft_flags :: "64 word"
  ft_opts :: string

subsection \<open>System calls and their answers\<close>

text \<open>
  \<open>AddrAdd\<close> carries the link and the text of the address, which the call takes with the default
  mask of its class; \<open>OpenAt\<close> opens for writing and creates, without truncating; \<open>os_is_dir\<close> is read
  after \<open>StatPath\<close>, \<open>os_written\<close> after \<open>WriteTo\<close> only.
\<close>

datatype effect =
    Sethostname string
  | LinkByName string
  | LinkSetUp string
  | AddrAdd string string
  | Chdir string
  | PivotRoot string string
  | Detach string
  | MkdirAll string
  | OpenAt string "32 word"
  | WriteTo string string
  | MountAt string string string "64 word" string
  | StatPath string
  | Exec string "string list" "string list"

record os_answer =
  os_error :: "string option"
  os_is_dir :: bool
  os_written :: nat

type_synonym os = "effect list \<Rightarrow> effect \<Rightarrow> os_answer"

text \<open>Errors, one constructor for each text the code builds; \<open>Sys\<close> is an error passed on as it is.\<close>

datatype sb_error =
    Sys string
  | SethostnameFailed string
  | LinkUpFailed string string
  | ChdirFailed string string
  | PivotRootFailed string
  | UnmountFailed string
  | ShortWrite string nat nat
  | MountFailed string string string string
  | BindFailed string string string string
  | MountTmpfsFailed string string
  | NoCommand
  | ExecFailed string
  | UnknownCmd string
  | NoChannel child_error

type_synonym steps = "effect list \<Rightarrow> sb_error option \<times> effect list"

definition finish :: steps where
  "finish tr = (None, tr)"

text \<open>One call: on an error the function returns it (wrapped), otherwise it goes on.\<close>

definition attempt :: "os \<Rightarrow> effect \<Rightarrow> (string \<Rightarrow> sb_error) \<Rightarrow> (os_answer \<Rightarrow> steps) \<Rightarrow> steps" where
  "attempt os e wrap k tr =
     (case os_error (os tr e) of
        Some x \<Rightarrow> (Some (wrap x), tr @ [e])
      | None \<Rightarrow> k (os tr e) (tr @ [e]))"

subsection \<open>The sandbox and its operations\<close>

record sandbox_proc =
  sb_config :: sandbox_config
  sb_last_error :: "sb_error option"
  sb_trace :: "effect list"

definition new_sandbox_proc :: "sandbox_config \<Rightarrow> sandbox_proc" where
  "new_sandbox_proc c = \<lparr>sb_config = c, sb_last_error = None, sb_trace = []\<rparr>"

definition root_dir :: string where
  "root_dir = ''/tmp''"

text \<open>What every operation does around its body: nothing after an error, else it stores the result.\<close>

definition unless_failed :: "steps \<Rightarrow> sandbox_proc \<Rightarrow> sandbox_proc" where
  "unless_failed f s =
     (if sb_last_error s \<noteq> None then s
      else let (e, tr) = f (sb_trace s) in s\<lparr>sb_last_error := e, sb_trace := tr\<rparr>)"

definition set_hostname :: "os \<Rightarrow> sandbox_proc \<Rightarrow> sandbox_proc" where
  "set_hostname os s = unless_failed
     (attempt os (Sethostname (sc_hostname (sb_config s))) SethostnameFailed (\<lambda>_. finish)) s"

definition link_up :: "os \<Rightarrow> string \<Rightarrow> sandbox_proc \<Rightarrow> sandbox_proc" where
  "link_up os l s = unless_failed
     (attempt os (LinkByName l) (LinkUpFailed l) (\<lambda>_.
      attempt os (LinkSetUp l) (LinkUpFailed l) (\<lambda>_.
      attempt os (AddrAdd l (sc_ip_address (sb_config s))) (LinkUpFailed l) (\<lambda>_. finish)))) s"

definition pivot :: "os \<Rightarrow> sandbox_proc \<Rightarrow> sandbox_proc" where
  "pivot os s = unless_failed
     (attempt os (Chdir root_dir) (ChdirFailed root_dir) (\<lambda>_.
      attempt os (PivotRoot ''.'' ''.'') PivotRootFailed (\<lambda>_.
      attempt os (Detach ''.'') UnmountFailed (\<lambda>_.
      attempt os (Chdir ''/'') (ChdirFailed ''/'') (\<lambda>_. finish))))) s"

text \<open>The body of \<open>write\<close>. \<open>Perm\<close> is the nine low bits of the mode.\<close>

definition write_steps :: "os \<Rightarrow> string \<Rightarrow> string \<Rightarrow> 32 word \<Rightarrow> steps" where
  "write_steps os dest c mode =
     (let p = path_join [root_dir, dest];
          d = path_dir p;
          m = (if mode AND 511 = 0 then 493 else mode);
          c' = (if has_suffix c [newline] then c else c @ [newline])
      in attempt os (MkdirAll d) Sys (\<lambda>_.
         attempt os (OpenAt p m) Sys (\<lambda>_.
         attempt os (WriteTo p c') Sys (\<lambda>a tr.
           (if os_written a \<noteq> length c' then Some (ShortWrite dest (os_written a) (length c')) else None, tr)))))"

definition write_file :: "os \<Rightarrow> string \<Rightarrow> string \<Rightarrow> 32 word \<Rightarrow> sandbox_proc \<Rightarrow> sandbox_proc" where
  "write_file os dest c mode s = unless_failed (write_steps os dest c mode) s"

definition mount_fs :: "os \<Rightarrow> fs_type \<Rightarrow> string \<Rightarrow> string \<Rightarrow> sandbox_proc \<Rightarrow> sandbox_proc" where
  "mount_fs os f src dest s = unless_failed
     (let actual_dest = path_join [root_dir, dest]
      in attempt os (MkdirAll actual_dest) Sys (\<lambda>_.
         attempt os (MountAt src actual_dest (ft_fstype f) (ft_flags f) (ft_opts f))
           (MountFailed (ft_fstype f) src actual_dest) (\<lambda>_. finish))) s"

text \<open>\<open>bind\<close> calls \<open>write\<close> in its body, where no error is stored yet.\<close>

definition bind_mount :: "os \<Rightarrow> fs_type \<Rightarrow> string \<Rightarrow> string \<Rightarrow> sandbox_proc \<Rightarrow> sandbox_proc" where
  "bind_mount os f target source s = unless_failed
     (attempt os (StatPath source) Sys (\<lambda>sfi tr.
        let target_path = path_join [root_dir, target];
            (e, tr1) = (if os_is_dir sfi then attempt os (MkdirAll target_path) Sys (\<lambda>_. finish) tr
                        else write_steps os target [] 493 tr)
        in if e \<noteq> None then (e, tr1)
           else attempt os (MountAt source target_path '''' (ft_flags f) (ft_opts f))
             (BindFailed (ft_fstype f) target_path source) (\<lambda>_. finish) tr1)) s"

subsection \<open>The file systems\<close>

definition ms_nosuid :: "64 word" where "ms_nosuid = 2"
definition ms_nodev :: "64 word" where "ms_nodev = 4"
definition ms_noexec :: "64 word" where "ms_noexec = 8"
definition ms_rdonly :: "64 word" where "ms_rdonly = 1"
definition ms_bind :: "64 word" where "ms_bind = 4096"
definition ms_relatime :: "64 word" where "ms_relatime = 2097152"

definition fs_proc :: fs_type where
  "fs_proc = \<lparr>ft_fstype = ''proc'', ft_flags = ms_nodev OR ms_noexec OR ms_nosuid OR ms_relatime, ft_opts = []\<rparr>"

definition fs_cgroup2 :: fs_type where
  "fs_cgroup2 = \<lparr>ft_fstype = ''cgroup2'', ft_flags = ms_nodev OR ms_noexec OR ms_nosuid OR ms_relatime,
     ft_opts = ''memory_recursiveprot''\<rparr>"

definition fs_tmpfs :: fs_type where
  "fs_tmpfs = \<lparr>ft_fstype = ''tmpfs'', ft_flags = ms_nodev OR ms_noexec OR ms_nosuid OR ms_relatime, ft_opts = []\<rparr>"

definition fs_dev_pts :: fs_type where
  "fs_dev_pts = \<lparr>ft_fstype = ''devpts'', ft_flags = ms_noexec OR ms_nosuid OR ms_relatime, ft_opts = []\<rparr>"

definition fs_dev :: fs_type where
  "fs_dev = \<lparr>ft_fstype = ''tmpfs'', ft_flags = ms_noexec OR ms_nosuid OR ms_relatime, ft_opts = []\<rparr>"

definition fs_bind_ro :: fs_type where
  "fs_bind_ro = \<lparr>ft_fstype = [], ft_flags = ms_nosuid OR ms_bind OR ms_rdonly OR ms_relatime, ft_opts = []\<rparr>"

subsection \<open>run, behind the command loop\<close>

text \<open>The loop over the payload; a source of another type is skipped.\<close>

definition inject_one :: "os \<Rightarrow> sandbox_payload \<Rightarrow> sandbox_proc \<Rightarrow> sandbox_proc" where
  "inject_one os p s =
     (if ps_type (pd_source p) = ''bind'' then bind_mount os fs_bind_ro (pd_target p) (ps_value (pd_source p)) s
      else if ps_type (pd_source p) = ''write''
      then write_file os (pd_target p) (ps_value (pd_source p)) (pd_file_mode p) s
      else s)"

definition inject_payload :: "os \<Rightarrow> sandbox_proc \<Rightarrow> sandbox_proc" where
  "inject_payload os s = fold (inject_one os) (sc_payload (sb_config s)) s"

text \<open>The raw string of the code keeps its backslashes.\<close>

definition backslash_n :: string where
  "backslash_n = [char_of (92 :: nat), CHR ''n'']"

definition os_release :: string where
  "os_release = ''ID=sandbox'' @ backslash_n @ ''NAME=sandbox'' @ backslash_n @ ''VERSION=1''"

definition mount_all :: "os \<Rightarrow> sandbox_proc \<Rightarrow> sandbox_proc" where
  "mount_all os =
     mount_fs os fs_tmpfs ''tmpfs'' ''tmp'' \<circ>
     mount_fs os fs_dev_pts ''devpts'' ''dev/pts'' \<circ>
     mount_fs os fs_dev ''dev'' ''dev'' \<circ>
     mount_fs os fs_cgroup2 ''cgroup2'' ''sys/fs/cgroup'' \<circ>
     mount_fs os fs_proc ''proc'' ''proc''"

definition write_etc :: "os \<Rightarrow> sandbox_proc \<Rightarrow> sandbox_proc" where
  "write_etc os s =
     (write_file os ''/etc/os-release'' os_release 493 \<circ>
      write_file os ''/etc/resolv.conf'' ''nameserver 127.0.0.1'' 493 \<circ>
      write_file os ''/etc/machine-id'' (sc_machine_id (sb_config s)) 493 \<circ>
      write_file os ''/etc/hostname'' (sc_hostname (sb_config s)) 493 \<circ>
      write_file os ''/etc/group'' [] 493 \<circ>
      write_file os ''/etc/passwd'' [] 493) s"

definition set_up :: "os \<Rightarrow> sandbox_proc \<Rightarrow> sandbox_proc" where
  "set_up os = pivot os \<circ> link_up os ''lo'' \<circ> write_etc os \<circ> inject_payload os \<circ> mount_all os \<circ> set_hostname os"

text \<open>
  \<open>Replaced\<close>: \<open>Exec\<close> has succeeded, the process is the command now. \<open>Returned\<close>: the error with
  which \<open>run\<close> returns.
\<close>

datatype run_result = Replaced | Returned sb_error

definition start_command :: "os \<Rightarrow> sandbox_proc \<Rightarrow> run_result \<times> effect list" where
  "start_command os s =
     (case sb_last_error s of
        Some e \<Rightarrow> (Returned e, sb_trace s)
      | None \<Rightarrow>
          (case sc_command (sb_config s) of
             [] \<Rightarrow> (Returned NoCommand, sb_trace s)
           | c # cs \<Rightarrow>
               let e = Exec c (c # cs) (sc_env (sb_config s) @ [''HTTPS_PROXY='' @ ''127.0.0.1:8443''])
               in (case os_error (os (sb_trace s) e) of
                     Some x \<Rightarrow> (Returned (ExecFailed x), sb_trace s @ [e])
                   | None \<Rightarrow> (Replaced, sb_trace s @ [e]))))"

definition run_completed :: "os \<Rightarrow> sandbox_config \<Rightarrow> run_result \<times> effect list" where
  "run_completed os c =
     (let e = MountAt ''tmpfs'' root_dir ''tmpfs'' 0 []
      in (case os_error (os [] e) of
            Some x \<Rightarrow> (Returned (MountTmpfsFailed root_dir x), [e])
          | None \<Rightarrow> start_command os (set_up os ((new_sandbox_proc c)\<lparr>sb_trace := [e]\<rparr>))))"


subsection \<open>What a sequence of calls has achieved\<close>

text \<open>
  \<open>granted\<close>: the answer the code goes on with; a write must report all its bytes. \<open>stopped_at\<close>: all
  calls but the last one have been granted, and the last one has not.
\<close>

definition granted :: "os \<Rightarrow> effect list \<Rightarrow> effect \<Rightarrow> bool" where
  "granted os tr e \<longleftrightarrow> os_error (os tr e) = None \<and>
     (case e of WriteTo p c \<Rightarrow> os_written (os tr e) = length c | _ \<Rightarrow> True)"

fun all_granted :: "os \<Rightarrow> effect list \<Rightarrow> effect list \<Rightarrow> bool" where
  "all_granted os tr [] \<longleftrightarrow> True"
| "all_granted os tr (e # es) \<longleftrightarrow> granted os tr e \<and> all_granted os (tr @ [e]) es"

definition stopped_at :: "os \<Rightarrow> effect list \<Rightarrow> effect list \<Rightarrow> bool" where
  "stopped_at os tr es \<longleftrightarrow>
     (\<exists>fs f. es = fs @ [f] \<and> all_granted os tr fs \<and> \<not> granted os (tr @ fs) f)"

lemma all_granted_append:
  "all_granted os tr (es @ fs) \<longleftrightarrow> all_granted os tr es \<and> all_granted os (tr @ es) fs"
  by (induction es arbitrary: tr) auto

lemma stopped_at_append: "all_granted os tr es \<Longrightarrow> stopped_at os (tr @ es) fs \<Longrightarrow> stopped_at os tr (es @ fs)"
  unfolding stopped_at_def by (metis all_granted_append append.assoc)

lemma stopped_at_single: "stopped_at os tr [e] \<longleftrightarrow> \<not> granted os tr e"
  by (auto simp: stopped_at_def)

definition achieves :: "os \<Rightarrow> effect list \<Rightarrow> effect list \<Rightarrow> sb_error option \<Rightarrow> bool" where
  "achieves os tr es e \<longleftrightarrow> (if e = None then all_granted os tr es else stopped_at os tr es)"

lemma achieves_append:
  "all_granted os tr es \<Longrightarrow> achieves os (tr @ es) fs e \<Longrightarrow> achieves os tr (es @ fs) e"
  by (auto simp: achieves_def all_granted_append intro: stopped_at_append split: if_splits)

subsection \<open>The contract of a body\<close>

text \<open>
  A body makes calls that satisfy \<open>Q\<close>, stops at the first one that is not granted, and says so.
\<close>

definition steps_ok :: "os \<Rightarrow> (effect \<Rightarrow> bool) \<Rightarrow> steps \<Rightarrow> bool" where
  "steps_ok os Q f \<longleftrightarrow>
     (\<forall>tr. \<exists>es. snd (f tr) = tr @ es \<and> list_all Q es \<and> achieves os tr es (fst (f tr)))"

lemma steps_ok_finish [intro, simp]: "steps_ok os Q finish"
  by (simp add: steps_ok_def finish_def achieves_def)

definition is_write :: "effect \<Rightarrow> bool" where
  "is_write e \<longleftrightarrow> (case e of WriteTo p c \<Rightarrow> True | _ \<Rightarrow> False)"

lemma granted_call: "\<not> is_write e \<Longrightarrow> granted os tr e \<longleftrightarrow> os_error (os tr e) = None"
  by (cases e) (auto simp: granted_def is_write_def)

lemma steps_ok_attempt:
  assumes "Q e" "\<not> is_write e" "\<And>a. steps_ok os Q (k a)"
  shows "steps_ok os Q (attempt os e w k)"
  unfolding steps_ok_def
proof
  fix tr
  show "\<exists>es. snd (attempt os e w k tr) = tr @ es \<and> list_all Q es \<and> achieves os tr es (fst (attempt os e w k tr))"
  proof (cases "os_error (os tr e)")
    case None
    obtain es where es: "snd (k (os tr e) (tr @ [e])) = (tr @ [e]) @ es" "list_all Q es"
        "achieves os (tr @ [e]) es (fst (k (os tr e) (tr @ [e])))"
      using assms(3) unfolding steps_ok_def by blast
    have "achieves os tr ([e] @ es) (fst (k (os tr e) (tr @ [e])))"
      using es(3) None assms(2) by (intro achieves_append) (auto simp: granted_call)
    then show ?thesis
      using es None assms(1) by (intro exI[of _ "e # es"]) (simp add: attempt_def)
  next
    case (Some x)
    then show ?thesis
      using assms(1,2)
      by (intro exI[of _ "[e]"]) (simp add: attempt_def achieves_def stopped_at_single granted_call)
  qed
qed

lemma steps_ok_write_last:
  assumes "Q (WriteTo p c)"
  shows "steps_ok os Q (attempt os (WriteTo p c) w
    (\<lambda>a tr. (if os_written a \<noteq> length c then Some (ShortWrite d (os_written a) (length c)) else None, tr)))"
  unfolding steps_ok_def
proof
  fix tr
  show "\<exists>es. snd (attempt os (WriteTo p c) w
      (\<lambda>a tr. (if os_written a \<noteq> length c then Some (ShortWrite d (os_written a) (length c)) else None, tr)) tr) = tr @ es \<and>
      list_all Q es \<and> achieves os tr es (fst (attempt os (WriteTo p c) w
      (\<lambda>a tr. (if os_written a \<noteq> length c then Some (ShortWrite d (os_written a) (length c)) else None, tr)) tr))"
    using assms
    by (intro exI[of _ "[WriteTo p c]"])
      (auto simp: attempt_def achieves_def stopped_at_single granted_def split: option.splits)
qed

text \<open>One body behind another.\<close>

definition after :: "steps \<Rightarrow> steps \<Rightarrow> steps" where
  "after f g tr = (let (e, tr1) = f tr in if e \<noteq> None then (e, tr1) else g tr1)"

lemma steps_ok_after:
  assumes "steps_ok os Q f" "steps_ok os Q g"
  shows "steps_ok os Q (after f g)"
  unfolding steps_ok_def
proof
  fix tr
  obtain es where es: "snd (f tr) = tr @ es" "list_all Q es" "achieves os tr es (fst (f tr))"
    using assms(1) unfolding steps_ok_def by blast
  obtain fs where fs: "snd (g (tr @ es)) = (tr @ es) @ fs" "list_all Q fs"
      "achieves os (tr @ es) fs (fst (g (tr @ es)))"
    using assms(2) unfolding steps_ok_def by blast
  show "\<exists>gs. snd (after f g tr) = tr @ gs \<and> list_all Q gs \<and> achieves os tr gs (fst (after f g tr))"
  proof (cases "fst (f tr)")
    case None
    then have "achieves os tr (es @ fs) (fst (g (tr @ es)))"
      using es fs by (intro achieves_append) (simp_all add: achieves_def)
    then show ?thesis
      using None es fs by (intro exI[of _ "es @ fs"]) (simp add: after_def case_prod_beta)
  next
    case (Some e)
    then show ?thesis
      using es by (intro exI[of _ es]) (simp add: after_def case_prod_beta)
  qed
qed

subsection \<open>The contract of an operation\<close>

text \<open>After an error an operation does nothing; otherwise it behaves like its body.\<close>

definition op_ok :: "os \<Rightarrow> (effect \<Rightarrow> bool) \<Rightarrow> sandbox_config \<Rightarrow> (sandbox_proc \<Rightarrow> sandbox_proc) \<Rightarrow> bool" where
  "op_ok os Q c f \<longleftrightarrow>
     (\<forall>s. sb_config s = c \<longrightarrow> sb_config (f s) = c \<and>
       (if sb_last_error s \<noteq> None then f s = s
        else \<exists>es. sb_trace (f s) = sb_trace s @ es \<and> list_all Q es \<and>
               achieves os (sb_trace s) es (sb_last_error (f s))))"

lemma op_ok_unless_failed: "steps_ok os Q f \<Longrightarrow> op_ok os Q c (unless_failed f)"
  unfolding op_ok_def steps_ok_def unless_failed_def by (auto simp: case_prod_beta)

lemma op_ok_id: "op_ok os Q c (\<lambda>s. s)"
  by (simp add: op_ok_def achieves_def)

lemma op_ok_config: "op_ok os Q c f \<Longrightarrow> sb_config s = c \<Longrightarrow> sb_config (f s) = c"
  by (simp add: op_ok_def)

lemma op_ok_same: "op_ok os Q c f \<Longrightarrow> sb_config s = c \<Longrightarrow> sb_last_error s \<noteq> None \<Longrightarrow> f s = s"
  by (simp add: op_ok_def)

lemma op_ok_effects: "op_ok os Q c f \<Longrightarrow> sb_config s = c \<Longrightarrow> sb_last_error s = None \<Longrightarrow>
    \<exists>es. sb_trace (f s) = sb_trace s @ es \<and> list_all Q es \<and> achieves os (sb_trace s) es (sb_last_error (f s))"
  unfolding op_ok_def by presburger

lemma op_okI:
  assumes "\<And>s. sb_config s = c \<Longrightarrow> sb_config (f s) = c"
    and "\<And>s. sb_config s = c \<Longrightarrow> sb_last_error s \<noteq> None \<Longrightarrow> f s = s"
    and "\<And>s. sb_config s = c \<Longrightarrow> sb_last_error s = None \<Longrightarrow> \<exists>es. sb_trace (f s) = sb_trace s @ es \<and> list_all Q es \<and>
      achieves os (sb_trace s) es (sb_last_error (f s))"
  shows "op_ok os Q c f"
  using assms unfolding op_ok_def by presburger

lemma op_ok_comp:
  assumes g: "op_ok os Q c g" and f: "op_ok os Q c f"
  shows "op_ok os Q c (g \<circ> f)"
proof (rule op_okI)
  fix s :: sandbox_proc
  assume c: "sb_config s = c" and "sb_last_error s = None"
  then obtain es where es: "sb_trace (f s) = sb_trace s @ es" "list_all Q es"
      "achieves os (sb_trace s) es (sb_last_error (f s))"
    using op_ok_effects[OF f] by blast
  have cf: "sb_config (f s) = c"
    by (rule op_ok_config[OF f c])
  show "\<exists>es. sb_trace ((g \<circ> f) s) = sb_trace s @ es \<and> list_all Q es \<and>
      achieves os (sb_trace s) es (sb_last_error ((g \<circ> f) s))"
  proof (cases "sb_last_error (f s)")
    case (Some e)
    then show ?thesis using es op_ok_same[OF g cf] by auto
  next
    case None
    then obtain fs where fs: "sb_trace (g (f s)) = sb_trace (f s) @ fs" "list_all Q fs"
        "achieves os (sb_trace (f s)) fs (sb_last_error (g (f s)))"
      using op_ok_effects[OF g cf] by blast
    have "achieves os (sb_trace s) (es @ fs) (sb_last_error (g (f s)))"
      using es None fs by (intro achieves_append) (simp_all add: achieves_def)
    then show ?thesis
      using es fs by auto
  qed
qed (simp_all add: op_ok_config[OF f] op_ok_config[OF g] op_ok_same[OF f] op_ok_same[OF g])

lemma op_ok_cong:
  "op_ok os Q c f \<Longrightarrow> (\<And>s. sb_config s = c \<Longrightarrow> g s = f s) \<Longrightarrow> op_ok os Q c g"
  by (simp add: op_ok_def)

lemma op_ok_fold:
  "(\<And>x. x \<in> set xs \<Longrightarrow> op_ok os Q c (f x)) \<Longrightarrow> op_ok os Q c (fold f xs)"
proof (induction xs)
  case Nil
  then show ?case by (simp add: op_ok_def achieves_def)
next
  case (Cons x xs)
  have "op_ok os Q c (fold f xs \<circ> f x)"
    by (rule op_ok_comp[OF Cons.IH]) (simp_all add: Cons.prems)
  then show ?case by (simp add: comp_def)
qed

subsection \<open>The operations keep it\<close>

text \<open>A path strictly below the new root, and the calls that stay there.\<close>

definition below_root :: "string \<Rightarrow> bool" where
  "below_root p \<longleftrightarrow> (\<exists>es. es \<noteq> [] \<and> list_all plain_elem es \<and> p = abs_path (''tmp'' # es))"

definition confined :: "effect \<Rightarrow> bool" where
  "confined e \<longleftrightarrow>
     (case e of
        MkdirAll p \<Rightarrow> below_root p \<or> p = root_dir
      | OpenAt p _ \<Rightarrow> below_root p
      | WriteTo p _ \<Rightarrow> below_root p
      | MountAt _ p _ _ _ \<Rightarrow> below_root p
      | Exec _ _ _ \<Rightarrow> False
      | _ \<Rightarrow> True)"

definition not_exec :: "effect \<Rightarrow> bool" where
  "not_exec e \<longleftrightarrow> (case e of Exec _ _ _ \<Rightarrow> False | _ \<Rightarrow> True)"

text \<open>A target that names something below the directory it is joined to.\<close>

definition safe_target :: "string \<Rightarrow> bool" where
  "safe_target t \<longleftrightarrow> no_dotdot t \<and> kept_elems t \<noteq> []"

lemma root_dir_abs: "root_dir = abs_path [''tmp'']" and plain_tmp: "plain_elem ''tmp''"
  by (simp_all add: root_dir_def abs_path_def slash_def plain_elem_def)

lemma join_safe:
  "safe_target t \<Longrightarrow> path_join [root_dir, t] = abs_path (''tmp'' # kept_elems t) \<and> list_all plain_elem (kept_elems t)"
  using path_join_below[of "[''tmp'']" t] kept_elems_plain[of t]
  by (simp add: safe_target_def root_dir_abs plain_tmp)

lemma join_safe_below: "safe_target t \<Longrightarrow> below_root (path_join [root_dir, t])"
  using join_safe[of t] by (auto simp: below_root_def safe_target_def)

lemma dir_safe:
  assumes "safe_target t"
  shows "below_root (path_dir (path_join [root_dir, t])) \<or> path_dir (path_join [root_dir, t]) = root_dir"
proof -
  obtain es e where k: "kept_elems t = es @ [e]"
    using assms by (metis rev_exhaust safe_target_def)
  have plain: "list_all plain_elem (''tmp'' # es @ [e])"
    using join_safe[OF assms] k plain_tmp by simp
  then have "path_dir (abs_path ((''tmp'' # es) @ [e])) = abs_path (''tmp'' # es)"
    by (intro path_dir_abs) simp_all
  then show ?thesis
    using join_safe[OF assms] k plain
    by (cases "es = []") (auto simp: below_root_def root_dir_abs)
qed

text \<open>With or without a bound on the targets: \<open>T\<close> says which targets are covered.\<close>

lemma write_steps_ok:
  assumes "\<And>p. path_join [root_dir, t] = p \<Longrightarrow> Q (MkdirAll (path_dir p)) \<and> (\<forall>m. Q (OpenAt p m)) \<and> (\<forall>c. Q (WriteTo p c))"
  shows "steps_ok os Q (write_steps os t x m)"
  unfolding write_steps_def Let_def
  using assms[OF refl]
  by (intro steps_ok_attempt steps_ok_write_last) (simp_all add: is_write_def)

lemma write_file_ok:
  assumes "Q = not_exec \<or> Q = confined \<and> safe_target t"
  shows "op_ok os Q c (write_file os t x m)"
proof -
  have "steps_ok os Q (write_steps os t x m)"
    by (rule write_steps_ok) (use assms join_safe_below[of t] dir_safe[of t] in \<open>auto simp: confined_def not_exec_def\<close>)
  then show ?thesis
    using op_ok_unless_failed by (simp add: write_file_def[abs_def])
qed

lemma mount_fs_ok:
  assumes "Q = not_exec \<or> Q = confined \<and> safe_target t"
  shows "op_ok os Q c (mount_fs os f src t)"
proof -
  have q: "Q (MkdirAll (path_join [root_dir, t]))" "Q (MountAt s (path_join [root_dir, t]) x y z)" for s x y z
    using assms join_safe_below[of t] by (auto simp: confined_def not_exec_def)
  show ?thesis
    unfolding mount_fs_def[abs_def] Let_def
    by (intro op_ok_unless_failed steps_ok_attempt) (simp_all add: q is_write_def)
qed


lemma bind_mount_ok:
  assumes "Q = not_exec \<or> Q = confined \<and> safe_target t"
  shows "op_ok os Q c (bind_mount os f t src)"
proof -
  have q: "Q (StatPath p)" "Q (MkdirAll (path_join [root_dir, t]))"
    "Q (MountAt s (path_join [root_dir, t]) x y z)" for s x y z p
    using assms join_safe_below[of t] by (auto simp: confined_def not_exec_def)
  let ?k = "\<lambda>sfi tr. let target_path = path_join [root_dir, t];
            (e, tr1) = (if os_is_dir sfi then attempt os (MkdirAll target_path) Sys (\<lambda>_. finish) tr
                        else write_steps os t [] 493 tr)
        in if e \<noteq> None then (e, tr1)
           else attempt os (MountAt src target_path [] (ft_flags f) (ft_opts f))
             (BindFailed (ft_fstype f) target_path src) (\<lambda>_. finish) tr1"
  have w: "steps_ok os Q (write_steps os t [] 493)"
    by (rule write_steps_ok) (use assms join_safe_below[of t] dir_safe[of t] in \<open>auto simp: confined_def not_exec_def\<close>)
  have m: "steps_ok os Q (attempt os (MkdirAll (path_join [root_dir, t])) Sys (\<lambda>_. finish))"
    by (intro steps_ok_attempt) (simp_all add: q is_write_def)
  have body: "steps_ok os Q (?k sfi)" for sfi
  proof -
    have eq: "?k sfi = after (if os_is_dir sfi then attempt os (MkdirAll (path_join [root_dir, t])) Sys (\<lambda>_. finish)
        else write_steps os t [] 493)
      (attempt os (MountAt src (path_join [root_dir, t]) [] (ft_flags f) (ft_opts f))
             (BindFailed (ft_fstype f) (path_join [root_dir, t]) src) (\<lambda>_. finish))"
      by (auto simp: after_def fun_eq_iff Let_def)
    show ?thesis
      unfolding eq using w m
      by (intro steps_ok_after steps_ok_attempt) (simp_all add: q is_write_def)
  qed
  show ?thesis
    unfolding bind_mount_def[abs_def]
    by (intro op_ok_unless_failed steps_ok_attempt body) (simp_all add: q is_write_def)
qed

lemma set_hostname_ok:
  assumes "\<And>h. Q (Sethostname h)"
  shows "op_ok os Q c (set_hostname os)"
proof -
  have "op_ok os Q c (\<lambda>s. unless_failed (attempt os (Sethostname (sc_hostname c)) SethostnameFailed (\<lambda>_. finish)) s)"
    by (intro op_ok_unless_failed steps_ok_attempt) (simp_all add: assms is_write_def)
  then show ?thesis
    by (rule op_ok_cong) (simp add: set_hostname_def)
qed

lemma link_up_ok:
  assumes "\<And>l. Q (LinkByName l)" "\<And>l. Q (LinkSetUp l)" "\<And>l a. Q (AddrAdd l a)"
  shows "op_ok os Q c (link_up os l)"
proof -
  have "op_ok os Q c (\<lambda>s. unless_failed (attempt os (LinkByName l) (LinkUpFailed l) (\<lambda>_.
      attempt os (LinkSetUp l) (LinkUpFailed l) (\<lambda>_.
      attempt os (AddrAdd l (sc_ip_address c)) (LinkUpFailed l) (\<lambda>_. finish)))) s)"
    by (intro op_ok_unless_failed steps_ok_attempt) (simp_all add: assms is_write_def)
  then show ?thesis
    by (rule op_ok_cong) (simp add: link_up_def)
qed

lemma pivot_ok:
  assumes "\<And>d. Q (Chdir d)" "\<And>a b. Q (PivotRoot a b)" "\<And>d. Q (Detach d)"
  shows "op_ok os Q c (pivot os)"
  unfolding pivot_def[abs_def]
  by (intro op_ok_unless_failed steps_ok_attempt) (simp_all add: assms is_write_def)

subsection \<open>The set-up as a whole\<close>

lemma fixed_targets_safe:
  "safe_target ''proc''" "safe_target ''sys/fs/cgroup''" "safe_target ''dev''" "safe_target ''dev/pts''"
  "safe_target ''tmp''" "safe_target ''/etc/passwd''" "safe_target ''/etc/group''"
  "safe_target ''/etc/hostname''" "safe_target ''/etc/machine-id''" "safe_target ''/etc/resolv.conf''"
  "safe_target ''/etc/os-release''"
  by (simp_all add: safe_target_def no_dotdot_def kept_elems_def slash_def)

lemma inject_payload_ok:
  assumes "Q = not_exec \<or> Q = confined \<and> (\<forall>p \<in> set (sc_payload c). safe_target (pd_target p))"
  shows "op_ok os Q c (inject_payload os)"
proof -
  have "op_ok os Q c (inject_one os p)" if "p \<in> set (sc_payload c)" for p
    using that assms bind_mount_ok[of Q "pd_target p"] write_file_ok[of Q "pd_target p"] op_ok_id
    by (cases "ps_type (pd_source p) = ''bind''"; cases "ps_type (pd_source p) = ''write''")
      (auto simp: inject_one_def[abs_def])
  then have "op_ok os Q c (fold (inject_one os) (sc_payload c))"
    by (rule op_ok_fold)
  then show ?thesis
    by (rule op_ok_cong) (simp add: inject_payload_def)
qed

lemma write_etc_ok:
  assumes "Q = not_exec \<or> Q = confined"
  shows "op_ok os Q c (write_etc os)"
proof -
  have "op_ok os Q c (write_file os ''/etc/os-release'' os_release 493 \<circ>
      write_file os ''/etc/resolv.conf'' ''nameserver 127.0.0.1'' 493 \<circ>
      write_file os ''/etc/machine-id'' (sc_machine_id c) 493 \<circ>
      write_file os ''/etc/hostname'' (sc_hostname c) 493 \<circ>
      write_file os ''/etc/group'' [] 493 \<circ>
      write_file os ''/etc/passwd'' [] 493)"
    by (intro op_ok_comp write_file_ok) (use assms fixed_targets_safe in auto)
  then show ?thesis
    by (rule op_ok_cong) (simp add: write_etc_def)
qed

lemma set_up_ok:
  assumes "Q = not_exec \<or> Q = confined \<and> (\<forall>p \<in> set (sc_payload c). safe_target (pd_target p))"
  shows "op_ok os Q c (set_up os)"
proof -
  have q: "Q (Sethostname h)" "Q (LinkByName h)" "Q (LinkSetUp h)" "Q (AddrAdd h h')" "Q (Chdir h)"
    "Q (PivotRoot h h')" "Q (Detach h)" for h h'
    using assms by (auto simp: confined_def not_exec_def)
  have "op_ok os Q c (mount_all os)"
    unfolding mount_all_def by (intro op_ok_comp mount_fs_ok) (use assms fixed_targets_safe in auto)
  then show ?thesis
    unfolding set_up_def using assms
    by (intro op_ok_comp pivot_ok link_up_ok write_etc_ok inject_payload_ok set_hostname_ok) (auto simp: q)
qed

definition pivot_calls :: "effect list" where
  "pivot_calls = [Chdir root_dir, PivotRoot ''.'' ''.'', Detach ''.'', Chdir ''/'']"

lemma pivot_success:
  "sb_last_error (pivot os s) = None \<Longrightarrow> sb_trace (pivot os s) = sb_trace s @ pivot_calls"
  by (auto simp: pivot_def unless_failed_def attempt_def finish_def pivot_calls_def split: if_splits option.splits)

lemma set_up_run:
  assumes q: "Q = not_exec \<or> Q = confined \<and> (\<forall>p \<in> set (sc_payload c). safe_target (pd_target p))"
    and s: "sb_config s = c" "sb_last_error s = None"
  obtains es where "sb_trace (set_up os s) = sb_trace s @ es" "list_all Q es"
    "achieves os (sb_trace s) es (sb_last_error (set_up os s))" "sb_config (set_up os s) = c"
    "sb_last_error (set_up os s) = None \<Longrightarrow> \<exists>pre. es = pre @ pivot_calls"
proof -
  let ?s1 = "(link_up os ''lo'' \<circ> write_etc os \<circ> inject_payload os \<circ> mount_all os \<circ> set_hostname os) s"
  have top: "set_up os s = pivot os ?s1"
    by (simp add: set_up_def)
  have "op_ok os Q c (link_up os ''lo'' \<circ> write_etc os \<circ> inject_payload os \<circ> mount_all os \<circ> set_hostname os)"
    unfolding mount_all_def using q
    by (intro op_ok_comp link_up_ok write_etc_ok inject_payload_ok set_hostname_ok mount_fs_ok)
      (auto simp: confined_def not_exec_def fixed_targets_safe)
  then obtain pre where pre: "sb_trace ?s1 = sb_trace s @ pre"
    using op_ok_effects[OF _ s] by blast
  obtain es where es: "sb_trace (set_up os s) = sb_trace s @ es" "list_all Q es"
    "achieves os (sb_trace s) es (sb_last_error (set_up os s))"
    using op_ok_effects[OF set_up_ok[OF q] s] by blast
  have config: "sb_config (set_up os s) = c"
    by (rule op_ok_config[OF set_up_ok[OF q] s(1)])
  have last: "\<exists>pre. es = pre @ pivot_calls" if "sb_last_error (set_up os s) = None"
    using pivot_success[of os ?s1] that es(1) pre top by auto
  show ?thesis
    by (rule that[OF es config last])
qed

text \<open>
  C36. The command starts only in a finished sandbox: whatever the operating system answers, either
  every call has been granted (all bytes of every file written), the last ones before \<open>Exec\<close> are
  those that make /tmp the root and detach the old one, and the command runs with its own arguments and
  environment and the proxy; or \<open>run\<close> returns an error, and then it stopped at the first call that
  was refused, or everything was granted and there is no command. \<open>Exec\<close> is never followed by
  another call.
\<close>

theorem command_starts_only_in_finished_sandbox:
  "case run_completed os c of (r, tr) \<Rightarrow>
     list_all not_exec (butlast tr) \<and>
     (case r of
        Replaced \<Rightarrow> all_granted os [] tr \<and>
          (\<exists>cmd args pre. sc_command c = cmd # args \<and>
             tr = MountAt ''tmpfs'' root_dir ''tmpfs'' 0 [] # pre @ pivot_calls @
               [Exec cmd (cmd # args) (sc_env c @ [''HTTPS_PROXY=127.0.0.1:8443''])])
      | Returned e \<Rightarrow> stopped_at os [] tr \<or> e = NoCommand \<and> sc_command c = [] \<and> all_granted os [] tr)"
proof -
  let ?m = "MountAt ''tmpfs'' root_dir ''tmpfs'' 0 []"
  show ?thesis
  proof (cases "os_error (os [] ?m)")
    case (Some x)
    then show ?thesis
      by (simp add: run_completed_def stopped_at_single granted_def)
  next
    case None
    let ?s = "(new_sandbox_proc c)\<lparr>sb_trace := [?m]\<rparr>"
    obtain es where es: "sb_trace (set_up os ?s) = sb_trace ?s @ es" "list_all not_exec es"
      "achieves os (sb_trace ?s) es (sb_last_error (set_up os ?s))" "sb_config (set_up os ?s) = c"
      "sb_last_error (set_up os ?s) = None \<Longrightarrow> \<exists>pre. es = pre @ pivot_calls"
      by (rule set_up_run[of not_exec c ?s os]) (simp_all add: new_sandbox_proc_def)
    have tr: "sb_trace (set_up os ?s) = ?m # es"
      using es(1) by simp
    have ach: "achieves os [] (?m # es) (sb_last_error (set_up os ?s))"
      using achieves_append[of os "[]" "[?m]" es] es(3) None by (simp add: granted_call is_write_def)
    have ne: "list_all not_exec (?m # es)"
      using es(2) by (simp add: not_exec_def)
    then have bl: "list_all not_exec (butlast (?m # es))"
      by (auto simp: list_all_iff dest: in_set_butlastD)
    have run: "run_completed os c = start_command os (set_up os ?s)"
      using None by (simp add: run_completed_def)
    show ?thesis
      using es(4,5) tr ach ne bl None
      by (auto simp: run start_command_def Let_def achieves_def all_granted_append stopped_at_def granted_def
          pivot_calls_def split: option.splits list.splits)
  qed
qed

text \<open>
  C37. The set-up stays inside its root: when every target of the payload names something below the
  directory it is joined to (no dot-dot element, not the directory itself), every directory made,
  file written and file system mounted between the mount of the root and the start of the command
  is /tmp or lies below it.
\<close>

theorem set_up_stays_below_root:
  assumes "\<forall>p \<in> set (sc_payload c). safe_target (pd_target p)"
  shows "list_all (\<lambda>e. confined e \<or> \<not> not_exec e) (tl (snd (run_completed os c)))"
proof -
  let ?m = "MountAt ''tmpfs'' root_dir ''tmpfs'' 0 []"
  show ?thesis
  proof (cases "os_error (os [] ?m)")
    case None
    let ?s = "(new_sandbox_proc c)\<lparr>sb_trace := [?m]\<rparr>"
    obtain es where "sb_trace (set_up os ?s) = sb_trace ?s @ es" "list_all confined es"
      by (rule set_up_run[of confined c ?s os]) (simp_all add: new_sandbox_proc_def assms)
    then show ?thesis
      using None by (auto simp: run_completed_def start_command_def Let_def not_exec_def list_all_iff
        split: option.splits list.splits)
  qed (simp add: run_completed_def)
qed

definition sample_sandbox_config :: sandbox_config where
  "sample_sandbox_config =
     \<lparr>sc_hostname = ''node1'', sc_machine_id = ''0123'', sc_ip_address = ''127.0.0.1'',
      sc_command = [''/bin/init''], sc_env = [''A=b''],
      sc_payload = [\<lparr>pd_target = ''/etc//ssl/./ca.pem'', pd_file_mode = 420,
        pd_source = \<lparr>ps_type = ''write'', ps_value = ''x''\<rparr>\<rparr>]\<rparr>"

lemma set_up_stays_below_root_witness:
  "list_all (\<lambda>e. confined e \<or> \<not> not_exec e)
     (tl (snd (run_completed (\<lambda>_ _. \<lparr>os_error = None, os_is_dir = False, os_written = 2\<rparr>) sample_sandbox_config)))"
  by (rule set_up_stays_below_root)
    (simp add: sample_sandbox_config_def safe_target_def no_dotdot_def kept_elems_def slash_def)

text \<open>Without that condition the call reaches outside: the root is joined, not entered.\<close>

lemma dotdot_target_leaves_root:
  assumes "os_error (os tr (MkdirAll ''/etc'')) = None"
  shows "OpenAt ''/etc/passwd'' 420 \<in> set (snd (write_steps os ''../etc/passwd'' c 420 tr))"
proof -
  have j: "path_join [root_dir, ''../etc/passwd''] = ''/etc/passwd''" "path_dir ''/etc/passwd'' = ''/etc''"
    by (simp_all add: path_join_def path_dir_def path_clean_def clean_step_def root_dir_def slash_def Let_def)
  show ?thesis
    using assms unfolding write_steps_def j
    by (auto simp: Let_def attempt_def j split: option.splits)
qed

end
