(* ===== verification/Cookie.thy ===== *)
theory Cookie
  imports Sandbox
begin

section \<open>The cookie of a sandbox (pkg/sandbox/sandbox.go)\<close>

text \<open>
  The configuration of a sandbox travels to the process that becomes the sandbox as an argument: padded URL-safe
  base64 of its JSON text. Both directions are modelled down to the bytes, for ASCII text. The version of a configuration, which
  nothing reads, is an argument of the encoder.
\<close>

subsection \<open>A configuration as JSON\<close>

definition strings_json :: "string list \<Rightarrow> json" where
  "strings_json xs = JArr (map JStr xs)"

text \<open>The fields of a payload have no JSON names of their own and are written under their Go names.\<close>

definition payload_json :: "sandbox_payload \<Rightarrow> json" where
  "payload_json p = JObj
     [(''Target'', JStr (pd_target p)), (''FileMode'', JNum (dec_nat (unat (pd_file_mode p)))),
      (''Source'', JObj [(''type'', JStr (ps_type (pd_source p))), (''value'', JStr (ps_value (pd_source p)))])]"

definition config_json :: "string \<Rightarrow> sandbox_config \<Rightarrow> json" where
  "config_json version c = JObj
     [(''version'', JStr version), (''hostname'', JStr (sc_hostname c)), (''machineID'', JStr (sc_machine_id c)),
      (''ipAddress'', JStr (sc_ip_address c)), (''command'', strings_json (sc_command c)),
      (''env'', strings_json (sc_env c)), (''payload'', JArr (map payload_json (sc_payload c)))]"

definition write_cookie :: "string \<Rightarrow> sandbox_config \<Rightarrow> string" where
  "write_cookie version c = b64_padded b64_char (map byte (json_text (config_json version c) @ [newline]))"

subsection \<open>And back\<close>

text \<open>A file mode is an unsigned number of 32 bits; an unknown field is an error.\<close>

definition decode_mode :: "json \<Rightarrow> 32 word \<Rightarrow> 32 word option" where
  "decode_mode v old = map_option of_nat (decode_uint 32 v (unat old))"

definition source_field :: "string \<Rightarrow> json \<Rightarrow> payload_source \<Rightarrow> payload_source option" where
  "source_field k v s =
     (if names_field k ''type'' then map_option (\<lambda>t. s\<lparr>ps_type := t\<rparr>) (decode_string v (ps_type s))
      else if names_field k ''value'' then map_option (\<lambda>t. s\<lparr>ps_value := t\<rparr>) (decode_string v (ps_value s))
      else None)"

definition payload_field :: "string \<Rightarrow> json \<Rightarrow> sandbox_payload \<Rightarrow> sandbox_payload option" where
  "payload_field k v p =
     (if names_field k ''Target'' then map_option (\<lambda>t. p\<lparr>pd_target := t\<rparr>) (decode_string v (pd_target p))
      else if names_field k ''FileMode'' then map_option (\<lambda>m. p\<lparr>pd_file_mode := m\<rparr>) (decode_mode v (pd_file_mode p))
      else if names_field k ''Source''
        then map_option (\<lambda>s. p\<lparr>pd_source := s\<rparr>) (decode_object source_field v (pd_source p))
      else None)"

definition zero_payload :: sandbox_payload where
  "zero_payload = \<lparr>pd_target = [], pd_file_mode = 0, pd_source = \<lparr>ps_type = [], ps_value = []\<rparr>\<rparr>"

definition config_field :: "string \<Rightarrow> json \<Rightarrow> sandbox_config \<Rightarrow> sandbox_config option" where
  "config_field k v c =
     (if names_field k ''version'' then map_option (\<lambda>_. c) (decode_string v [])
      else if names_field k ''hostname'' then map_option (\<lambda>t. c\<lparr>sc_hostname := t\<rparr>) (decode_string v (sc_hostname c))
      else if names_field k ''machineID'' then map_option (\<lambda>t. c\<lparr>sc_machine_id := t\<rparr>) (decode_string v (sc_machine_id c))
      else if names_field k ''ipAddress'' then map_option (\<lambda>t. c\<lparr>sc_ip_address := t\<rparr>) (decode_string v (sc_ip_address c))
      else if names_field k ''command'' then map_option (\<lambda>t. c\<lparr>sc_command := t\<rparr>) (decode_list (\<lambda>x. decode_string x []) v)
      else if names_field k ''env'' then map_option (\<lambda>t. c\<lparr>sc_env := t\<rparr>) (decode_list (\<lambda>x. decode_string x []) v)
      else if names_field k ''payload'' then
        map_option (\<lambda>t. c\<lparr>sc_payload := t\<rparr>) (decode_list (\<lambda>x. decode_object payload_field x zero_payload) v)
      else None)"

definition zero_config :: sandbox_config where
  "zero_config = \<lparr>sc_hostname = [], sc_machine_id = [], sc_ip_address = [], sc_command = [], sc_env = [], sc_payload = []\<rparr>"

definition read_cookie :: "string \<Rightarrow> string + sandbox_config" where
  "read_cookie s =
     (case b64_unpadded b64_value True s of
        None \<Rightarrow> Inl ''illegal base64 data''
      | Some bs \<Rightarrow>
          (case json_parse (map char_of bs) of
             None \<Rightarrow> Inl ''invalid JSON''
           | Some (j, _) \<Rightarrow>
               (case decode_object config_field j zero_config of
                  None \<Rightarrow> Inl ''cannot unmarshal''
                | Some c \<Rightarrow> Inr c)))"

subsection \<open>The round trip\<close>

lemma config_json_ok: "json_ok (config_json version c)"
  by (simp add: config_json_def payload_json_def strings_json_def dec_nat_is_number[unfolded list_all_iff] list_all_iff)

lemma payload_reads_back: "decode_object payload_field (payload_json p) zero_payload = Some p"
proof -
  have "of_nat (unat m) = m" "unat m < 4294967296" for m :: "32 word"
    using unsigned_less[of m] by simp_all
  then show ?thesis
    by (simp add: payload_json_def payload_field_def decode_mode_def source_field_def names_field_def to_lower_def is_upper_def
        zero_payload_def dec_nat_digits)
qed

lemma config_reads_back: "decode_object config_field (config_json version c) zero_config = Some c"
  by (simp add: config_json_def config_field_def names_field_def to_lower_def is_upper_def zero_config_def strings_json_def
      decode_each_map payload_reads_back)

lemma newline_ends: "\<not> number_char newline"
  by code_simp

lemma cookie_round_trip: "read_cookie (write_cookie version c) = Inr c"
proof -
  define t where "t = json_text (config_json version c) @ [newline]"
  have "b64_unpadded b64_value True (b64_padded b64_char (map byte t)) = Some (map byte t)"
    by (rule url.round_trip) (simp add: list_all_iff)
  moreover have "map char_of (map byte t) = t"
    by (simp add: comp_def char_of_byte)
  moreover have "json_parse t = Some (config_json version c, [newline])"
    unfolding t_def by (rule json_round_trip[OF config_json_ok]) (simp add: newline_ends)
  ultimately show ?thesis
    by (simp add: read_cookie_def write_cookie_def t_def[symmetric] config_reads_back del: map_map)
qed

text \<open>ASCII, where the encoder leaves every byte as it is.\<close>

definition ascii_config :: "sandbox_config \<Rightarrow> bool" where
  "ascii_config c \<longleftrightarrow>
     list_all ascii ([sc_hostname c, sc_machine_id c, sc_ip_address c] @ sc_command c @ sc_env c) \<and>
     list_all (\<lambda>p. list_all ascii [pd_target p, ps_type (pd_source p), ps_value (pd_source p)]) (sc_payload c)"

end
