(* ===== verification/Sandbox_Control.thy ===== *)
theory Sandbox_Control
  imports Cookie Http_Server Go_Net
begin

section \<open>Parent, child and proxy of a sandbox (pkg/sandbox/sandbox.go and proxy.go)\<close>

text \<open>
  The command loop of the child, the parent's part of the start, the re-executed process and
  the forwarder that serves the sandbox's way out.
\<close>

subsection \<open>The command loop of run\<close>

text \<open>
  One turn of the loop: what \<open>HandleRequest\<close> returns, and what \<open>net.Listen\<close>, \<open>File\<close> and the
  responder answer in this turn when they are called.
\<close>

record turn =
  tn_request :: "string + message"
  tn_listen :: "string option"
  tn_file :: "string + fd"
  tn_send :: "string option"

definition text_message :: "string \<Rightarrow> message" where
  "text_message d = \<lparr>ms_data = d, ms_files = [], ms_annotations = [], ms_seq = 0\<rparr>"

text \<open>The error of \<open>AddDescriptor\<close> is ignored.\<close>

definition proxy_response :: "fd \<Rightarrow> message" where
  "proxy_response f =
     (case add_descriptor (Some f) ''proxy-listener'' ''tcp listener'' (text_message ''proxy-listener-fd'') of
        Inl _ \<Rightarrow> text_message ''proxy-listener-fd''
      | Inr m \<Rightarrow> m)"

text \<open>The response handed to the responder, if it comes to that, and the error.\<close>

definition start_proxy :: "turn \<Rightarrow> message list \<times> string option" where
  "start_proxy t =
     (case tn_listen t of
        Some e \<Rightarrow> ([], Some e)
      | None \<Rightarrow>
          (case tn_file t of
             Inl e \<Rightarrow> ([], Some e)
           | Inr c \<Rightarrow> ([proxy_response c], tn_send t)))"

datatype loop_result = Awaiting | Failed sb_error | Completed

fun command_loop :: "turn list \<Rightarrow> message list \<times> loop_result" where
  "command_loop [] = ([], Awaiting)"
| "command_loop (t # ts) =
     (case tn_request t of
        Inl e \<Rightarrow> ([], Failed (Sys e))
      | Inr req \<Rightarrow>
          (let cmd = ms_data req in
           if cmd = ''ping'' then
             (case tn_send t of
                Some e \<Rightarrow> ([text_message ''pong''], Failed (Sys e))
              | None \<Rightarrow> let (rs, r) = command_loop ts in (text_message ''pong'' # rs, r))
           else if cmd = ''proxy-listener'' then
             (case start_proxy t of
                (out, Some e) \<Rightarrow> (out, Failed (Sys e))
              | (out, None) \<Rightarrow> let (rs, r) = command_loop ts in (out @ rs, r))
           else if cmd = ''complete'' then
             (case tn_send t of
                Some e \<Rightarrow> ([text_message ''completed''], Failed (Sys e))
              | None \<Rightarrow> ([text_message ''completed''], Completed))
           else ([], Failed (UnknownCmd cmd))))"

text \<open>
  \<open>run\<close>: the channel that the environment names, the loop, then the set-up and the command; \<open>None\<close> while the loop still
  waits.
\<close>

definition run_child ::
  "os \<Rightarrow> sandbox_config \<Rightarrow> string list \<Rightarrow> fd_table \<Rightarrow> turn list \<Rightarrow> message list \<times> (run_result \<times> effect list) option" where
  "run_child os c environ tab ts =
     (case fst (new_child environ tab) of
        Inl e \<Rightarrow> ([], Some (Returned (NoChannel e), []))
      | Inr _ \<Rightarrow>
          (let (rs, r) = command_loop ts in
           (rs, case r of
                  Awaiting \<Rightarrow> None
                | Failed e \<Rightarrow> Some (Returned e, [])
                | Completed \<Rightarrow> Some (run_completed os c))))"

subsection \<open>Init\<close>

definition sandbox_cookie :: string where
  "sandbox_cookie = ''sandboxcookie-v1''"

text \<open>\<open>Inr None\<close>: the process is not a sandbox and goes on.\<close>

definition init_args :: "string list \<Rightarrow> string + sandbox_config option" where
  "init_args args =
     (case args of
        [a, b] \<Rightarrow> if a \<noteq> sandbox_cookie then Inr None else map_sum id Some (read_cookie b)
      | _ \<Rightarrow> Inr None)"

text \<open>A started process: its arguments, its environment and its descriptors.\<close>

record started =
  st_argv :: "string list"
  st_environ :: "string list"
  st_fds :: fd_table

definition init_sandbox :: "os \<Rightarrow> turn list \<Rightarrow> started \<Rightarrow> (run_result \<times> effect list) option option" where
  "init_sandbox os ts proc =
     (case init_args (st_argv proc) of
        Inl e \<Rightarrow> Some (Some (Returned (Sys e), []))
      | Inr None \<Rightarrow> None
      | Inr (Some c) \<Rightarrow> Some (snd (run_child os c (st_environ proc) (st_fds proc) ts)))"

subsection \<open>Run, in the parent\<close>

text \<open>What the calls of the parent return; \<open>pe_proxy\<close> and \<open>pe_complete\<close> are the answers to its requests.\<close>

record parent_env =
  pe_channel :: "string option \<times> string option"
  pe_start :: "string option"
  pe_proxy :: "string + message"
  pe_listener :: "fd \<Rightarrow> string option"
  pe_complete :: "string + message"

datatype parent_error =
    ParentSys string
  | StartFailed string
  | UnexpectedResponse string
  | NoListenerDescriptor get_error

text \<open>
  \<open>Serving\<close>: the forwarder serves the listener of the sandbox, and the parent waits for the process.
  The requests sent are listed beside the result; the process is started with \<open>started\<close>.
\<close>

datatype parent_result = ParentError parent_error | Serving fd

definition sandbox_proxy_listener :: "parent_env \<Rightarrow> parent_error + fd" where
  "sandbox_proxy_listener env =
     (case pe_proxy env of
        Inl e \<Rightarrow> Inl (ParentSys e)
      | Inr resp \<Rightarrow>
          if ms_data resp \<noteq> ''proxy-listener-fd'' then Inl (UnexpectedResponse (ms_data resp))
          else (case get_descriptor ''proxy-listener'' resp of
                  Inl e \<Rightarrow> Inl (NoListenerDescriptor e)
                | Inr (lfd, _) \<Rightarrow>
                    (case pe_listener env lfd of
                       Some e \<Rightarrow> Inl (ParentSys e)
                     | None \<Rightarrow> Inr lfd)))"

definition run_parent ::
  "string \<Rightarrow> sandbox_config \<Rightarrow> fd_table \<Rightarrow> parent_env \<Rightarrow> string list \<times> started option \<times> parent_result" where
  "run_parent version c tab env =
     (case new_parent (pe_channel env) tab of
        (Inl e, _) \<Rightarrow> ([], None, ParentError (ParentSys e))
      | (Inr control, tab') \<Rightarrow>
          (let proc = \<lparr>st_argv = [sandbox_cookie, write_cookie version c], st_environ = run_environ control,
                       st_fds = started_table (run_files control) tab'\<rparr> in
           case pe_start env of
             Some e \<Rightarrow> ([], None, ParentError (StartFailed e))
           | None \<Rightarrow>
               (case sandbox_proxy_listener env of
                  Inl e \<Rightarrow> ([''proxy-listener''], Some proc, ParentError e)
                | Inr lfd \<Rightarrow>
                    (case pe_complete env of
                       Inl e \<Rightarrow> ([''proxy-listener'', ''complete''], Some proc, ParentError (ParentSys e))
                     | Inr resp \<Rightarrow>
                         if ms_data resp \<noteq> ''completed''
                         then ([''proxy-listener'', ''complete''], Some proc,
                               ParentError (UnexpectedResponse (ms_data resp)))
                         else ([''proxy-listener'', ''complete''], Some proc, Serving lfd)))))"

subsection \<open>The protocol\<close>

definition continues :: "turn \<Rightarrow> bool" where
  "continues t \<longleftrightarrow>
     (case tn_request t of
        Inl _ \<Rightarrow> False
      | Inr req \<Rightarrow> tn_send t = None \<and>
          (ms_data req = ''ping'' \<or>
           ms_data req = ''proxy-listener'' \<and> tn_listen t = None \<and> \<not> isl (tn_file t)))"

definition finishes :: "turn \<Rightarrow> bool" where
  "finishes t \<longleftrightarrow>
     (case tn_request t of Inl _ \<Rightarrow> False | Inr req \<Rightarrow> tn_send t = None \<and> ms_data req = ''complete'')"

definition reply_of :: "turn \<Rightarrow> message" where
  "reply_of t =
     (let cmd = ms_data (projr (tn_request t)) in
      if cmd = ''ping'' then text_message ''pong''
      else if cmd = ''proxy-listener'' then proxy_response (projr (tn_file t))
      else text_message ''completed'')"

lemma command_loop_continues:
  assumes "continues t"
  shows "command_loop (t # ts) = (reply_of t # fst (command_loop ts), snd (command_loop ts))"
proof (cases "tn_request t")
  case (Inr req)
  then show ?thesis
    using assms by (cases "tn_file t")
      (auto simp: continues_def reply_of_def start_proxy_def case_prod_beta Let_def)
qed (use assms in \<open>simp add: continues_def\<close>)

lemma command_loop_not_continues:
  assumes "\<not> continues t"
  shows "command_loop (t # ts) = (rs, Completed) \<longleftrightarrow> finishes t \<and> rs = [reply_of t]"
  using assms
  by (auto simp: continues_def finishes_def reply_of_def start_proxy_def case_prod_beta Let_def
      split: sum.splits option.splits prod.splits if_splits)

lemma continues_not_finishes: "continues t \<Longrightarrow> \<not> finishes t"
  by (auto simp: continues_def finishes_def split: sum.splits)

text \<open>
  C38. The protocol of the child: the command loop ends in success exactly when a request to
  complete is answered and every request before it was a ping or a request for the proxy listener
  that could be served; every request has then got one response, in order. Everything else, an
  unknown command included, ends the process with an error or leaves it waiting.
\<close>

theorem command_loop_completes_iff:
  "command_loop ts = (rs, Completed) \<longleftrightarrow>
     (\<exists>k < length ts. finishes (ts ! k) \<and> list_all continues (take k ts) \<and> rs = map reply_of (take (Suc k) ts))"
proof (induction ts arbitrary: rs)
  case (Cons t ts)
  show ?case
  proof (cases "continues t")
    case True
    have "command_loop (t # ts) = (rs, Completed) \<longleftrightarrow>
        (\<exists>rs'. rs = reply_of t # rs' \<and> command_loop ts = (rs', Completed))"
      by (cases "command_loop ts") (auto simp: command_loop_continues[OF True] simp del: command_loop.simps)
    then show ?thesis
      using True continues_not_finishes[OF True]
      by (simp add: Cons.IH Ex_less_Suc2 del: command_loop.simps) auto
  next
    case False
    then show ?thesis
      by (simp add: command_loop_not_continues Ex_less_Suc2 del: command_loop.simps)
  qed
qed simp

text \<open>
  C39. The handshake: when the parent's two requests are served and their responses travel back
  with whatever sequence numbers, the parent ends up serving the very listener the child opened,
  and the process it has started opens the channel that its environment names, reads from its arguments the
  configuration the parent was given, to the last byte of it, and sets it up and runs it. The texts of the configuration
  are ASCII, and the parent has its standard descriptors open and no other channel.
\<close>

theorem start_handshake:
  assumes "ascii_config c" "std_open tab" "no_channel tab" "new_parent (pe_channel env) tab = (Inr control, tab')"
    and "length tab' < 2 ^ 63" "pe_start env = None" "pe_listener env f = None"
    and "tn_request t1 = Inr m1" "ms_data m1 = ''proxy-listener''"
    and "tn_listen t1 = None" "tn_file t1 = Inr f" "tn_send t1 = None"
    and "tn_request t2 = Inr m2" "ms_data m2 = ''complete''" "tn_send t2 = None"
    and "fst (command_loop [t1, t2]) = [r1, r2]"
    and "pe_proxy env = Inr (message_of (response_payload s1 r1) (ms_files r1))"
    and "pe_complete env = Inr (message_of (response_payload s2 r2) (ms_files r2))"
  shows "\<exists>proc. run_parent version c tab env = ([''proxy-listener'', ''complete''], Some proc, Serving f) \<and>
    init_sandbox os [t1, t2] proc = Some (Some (run_completed os c))"
proof -
  have "command_loop [t1, t2] = ([proxy_response f, text_message ''completed''], Completed)"
    using assms by (simp add: start_proxy_def Let_def)
  moreover from this have "r1 = proxy_response f" "r2 = text_message ''completed''"
    using assms(16) by simp_all
  moreover obtain ch tabc where "new_child (run_environ control) (started_table (run_files control) tab') = (Inr ch, tabc)"
    using child_opens_channel[OF assms(2-5)] by blast
  ultimately show ?thesis
    using assms
    by (intro exI[of _ "\<lparr>st_argv = [sandbox_cookie, write_cookie version c], st_environ = run_environ control,
        st_fds = started_table (run_files control) tab'\<rparr>"])
      (simp add: run_parent_def Let_def sandbox_proxy_listener_def message_of_def response_payload_def
        proxy_response_def text_message_def add_descriptor_def get_descriptor_def init_sandbox_def
        init_args_def run_child_def cookie_round_trip)
qed

definition sample_turn :: "string \<Rightarrow> turn" where
  "sample_turn d = \<lparr>tn_request = Inr (text_message d), tn_listen = None, tn_file = Inr 9, tn_send = None\<rparr>"

definition sample_parent_env :: parent_env where
  "sample_parent_env =
     \<lparr>pe_channel = (None, None), pe_start = None,
      pe_proxy = Inr (message_of (response_payload 1 (proxy_response 9)) (ms_files (proxy_response 9))),
      pe_listener = (\<lambda>_. None),
      pe_complete = Inr (message_of (response_payload 2 (text_message ''completed'')) [])\<rparr>"

definition sample_os :: os where
  "sample_os tr e = \<lparr>os_error = None, os_is_dir = False, os_written = 2\<rparr>"

lemma sample_is_ascii: "ascii_config sample_sandbox_config"
  by code_simp

lemma sample_parent_runs:
  "\<exists>proc. run_parent version c sample_table sample_parent_env = ([''proxy-listener'', ''complete''], Some proc, Serving 9)"
  by (simp add: run_parent_def sample_parent_env_def sample_ends_open sandbox_proxy_listener_def message_of_def
      response_payload_def proxy_response_def text_message_def add_descriptor_def get_descriptor_def)

lemma start_handshake_witness:
  "\<exists>proc. run_parent ''v1'' sample_sandbox_config sample_table sample_parent_env =
      ([''proxy-listener'', ''complete''], Some proc, Serving 9) \<and>
    init_sandbox sample_os [sample_turn ''proxy-listener'', sample_turn ''complete''] proc =
      Some (Some (run_completed sample_os sample_sandbox_config))"
  by (rule start_handshake[where ?m1.0 = "text_message ''proxy-listener''"
        and ?m2.0 = "text_message ''complete''" and ?r1.0 = "proxy_response 9"
        and ?r2.0 = "text_message ''completed''" and ?s1.0 = 1 and ?s2.0 = 2 and control = sample_end and tab' = sample_ends])
    (simp_all add: sample_is_ascii sample_ends_open sample_parent_env_def sample_turn_def text_message_def start_proxy_def Let_def)

subsection \<open>The forwarder\<close>

text \<open>
  A filter turns the host of a CONNECT request into the address to dial; the dialled connection and
  the hijacked one are numbers. What the handler does: its response, the addresses it dials and
  the pair of connections it copies between.
\<close>

type_synonym address_filter = "string \<Rightarrow> string + string"

definition pass_through :: address_filter where
  "pass_through url_host =
     (let (h, p) = split_host_port url_host;
          p' = (if p = [] then ''443'' else p)
      in Inr (join_host_port h p'))"

definition single_host :: "string \<Rightarrow> address_filter" where
  "single_host addr_port url_host = Inr addr_port"

record connect_env =
  ce_hijacker :: bool
  ce_dial :: "string \<Rightarrow> string + nat"
  ce_hijack :: "string + nat"

record connect_result =
  cn_response :: "action list"
  cn_dialled :: "string list"
  cn_tunnel :: "(nat \<times> nat) option"

definition serve_connect :: "address_filter \<Rightarrow> connect_env \<Rightarrow> http_request \<Rightarrow> string \<Rightarrow> connect_result" where
  "serve_connect flt env r url_host =
     (if rq_method r \<noteq> ''CONNECT'' then \<lparr>cn_response = http_error [] 405, cn_dialled = [], cn_tunnel = None\<rparr>
      else if \<not> ce_hijacker env
      then \<lparr>cn_response = http_error ''hijacking not supported'' 500, cn_dialled = [], cn_tunnel = None\<rparr>
      else case flt url_host of
        Inl e \<Rightarrow> \<lparr>cn_response = http_error e 403, cn_dialled = [], cn_tunnel = None\<rparr>
      | Inr da \<Rightarrow>
          (case ce_dial env da of
             Inl e \<Rightarrow> \<lparr>cn_response = http_error e 503, cn_dialled = [da], cn_tunnel = None\<rparr>
           | Inr dest \<Rightarrow>
               (case ce_hijack env of
                  Inl e \<Rightarrow> \<lparr>cn_response = WriteHeader 200 # http_error e 500, cn_dialled = [da], cn_tunnel = None\<rparr>
                | Inr client \<Rightarrow>
                    \<lparr>cn_response = [WriteHeader 200], cn_dialled = [da], cn_tunnel = Some (dest, client)\<rparr>)))"


lemma pass_through_plain:
  assumes "plain_host h" "list_all is_digit p"
  shows "pass_through h = Inr (h @ '':443'')" "p \<noteq> [] \<Longrightarrow> pass_through (h @ colon # p) = Inr (h @ '':'' @ p)"
  using assms by (simp_all add: pass_through_def split_plain_port join_host_port_def plain_host_def)

end
