(* ===== verification/Go_Addr.thy ===== *)
theory Go_Addr
  imports Go_Text
begin

section \<open>Addresses (package net/netip)\<close>

text \<open>
  Addresses without zones as numbers below \<open>2 ^ 32\<close> and \<open>2 ^ 128\<close>, and what the program uses of
  them: the next address and the textual form.
\<close>

datatype ip_addr = V4 nat | V6 nat

definition addr_ok :: "ip_addr \<Rightarrow> bool" where
  "addr_ok a \<longleftrightarrow> (case a of V4 n \<Rightarrow> n < 2 ^ 32 | V6 n \<Rightarrow> n < 2 ^ 128)"

text \<open>\<open>Next\<close>; behind the last address it is the zero \<open>Addr\<close>, \<open>None\<close>.\<close>

definition next_addr :: "ip_addr \<Rightarrow> ip_addr option" where
  "next_addr a =
     (case a of
        V4 n \<Rightarrow> if n + 1 < 2 ^ 32 then Some (V4 (n + 1)) else None
      | V6 n \<Rightarrow> if n + 1 < 2 ^ 128 then Some (V6 (n + 1)) else None)"

text \<open>The sixteen-bit groups of an address, the first one first.\<close>

definition v6_groups :: "nat \<Rightarrow> nat list" where
  "v6_groups n = map (\<lambda>i. n div 65536 ^ (7 - i) mod 65536) [0..<8]"

fun hex_nat :: "nat \<Rightarrow> string" where
  "hex_nat n = (if n < 16 then [hex_digit n] else hex_nat (n div 16) @ [hex_digit (n mod 16)])"

declare hex_nat.simps [simp del]

text \<open>The first longest run of at least two zero groups, as its start and its end.\<close>

definition zero_run :: "nat list \<Rightarrow> nat \<Rightarrow> nat" where
  "zero_run gs i = length (takeWhile (\<lambda>g. g = 0) (drop i gs))"

definition zero_gap :: "nat list \<Rightarrow> (nat \<times> nat) option" where
  "zero_gap gs =
     foldl (\<lambda>best i.
       let l = zero_run gs i
       in if 2 \<le> l \<and> (case best of None \<Rightarrow> True | Some (s, e) \<Rightarrow> e - s < l) then Some (i, i + l) else best)
     None [0..<length gs]"

definition show_v6 :: "nat \<Rightarrow> string" where
  "show_v6 n =
     (let gs = v6_groups n
      in case zero_gap gs of
           None \<Rightarrow> join_with '':'' (map hex_nat gs)
         | Some (s, e) \<Rightarrow>
             join_with '':'' (map hex_nat (take s gs)) @ ''::'' @ join_with '':'' (map hex_nat (drop e gs)))"

definition show_v4 :: "nat \<Rightarrow> string" where
  "show_v4 n = join_with ''.'' (map (\<lambda>i. dec_nat (n div 256 ^ (3 - i) mod 256)) [0..<4])"

text \<open>IPv4-mapped addresses are written with a dotted tail.\<close>

definition show_addr :: "ip_addr \<Rightarrow> string" where
  "show_addr a =
     (case a of
        V4 n \<Rightarrow> show_v4 n
      | V6 n \<Rightarrow> if n div 2 ^ 32 = 65535 then ''::ffff:'' @ show_v4 (n mod 2 ^ 32) else show_v6 n)"

definition show_prefix :: "ip_addr \<times> nat \<Rightarrow> string" where
  "show_prefix p = show_addr (fst p) @ ''/'' @ dec_nat (snd p)"

definition show_addr_port :: "ip_addr \<Rightarrow> nat \<Rightarrow> string" where
  "show_addr_port a p =
     (case a of
        V4 n \<Rightarrow> show_addr a @ '':'' @ dec_nat p
      | V6 n \<Rightarrow> ''['' @ show_addr a @ '']:'' @ dec_nat p)"

lemma groups_loopback: "v6_groups 1 = [0, 0, 0, 0, 0, 0, 0, 1]"
  by (simp add: v6_groups_def upt_rec)

lemma gap_loopback: "zero_gap [0, 0, 0, 0, 0, 0, 0, 1] = Some (0, 7)"
  by (simp add: zero_gap_def zero_run_def upt_rec)

lemma show_loopback: "show_addr (V6 1) = ''::1''"
  by (simp add: show_addr_def show_v6_def groups_loopback gap_loopback hex_nat.simps[of 1] hex_digit_def digit_def
      char_of_eq_iff Let_def del: One_nat_def)

lemma show_loopback_port: "show_addr_port (V6 1) 443 = ''[::1]:443''"
  by (simp add: show_addr_port_def show_loopback dec_nat.simps digit_def char_of_eq_iff del: One_nat_def)

end
