(* ===== verification/Config.thy ===== *)
theory Config
  imports Go_Addr Go_Path Go_Net
begin

section \<open>The configuration (pkg/config/config.go)\<close>

text \<open>
  \<open>Parse\<close> and \<open>Validate\<close>. The command line is given by the values of its flags (parsing it is
  pflag's), the environment by the two places \<open>Validate\<close> reads; SHA-256 and the parser of prefixes
  are arguments.
\<close>

type_synonym ip_prefix = "ip_addr \<times> nat"

text \<open>A range of \<open>None\<close> is the zero \<open>Prefix\<close>, which is not valid.\<close>

record config =
  cc_name :: string
  cc_root :: string
  cc_external :: string
  cc_range :: "ip_prefix option"
  cc_nodes :: "string list"

record flags =
  fl_name :: "string option"
  fl_root :: "string option"
  fl_external :: "string option"
  fl_range :: "string option"
  fl_nodes :: "string list option"

record environment =
  en_state_home :: string
  en_user_home :: string

subsection \<open>The name\<close>

definition is_alnum :: "char \<Rightarrow> bool" where
  "is_alnum c \<longleftrightarrow> is_lower c \<or> is_digit c"

text \<open>
  The regular expression: a lower-case letter, or one followed by up to 61 letters, digits and
  hyphens and a last letter or digit.
\<close>

definition dns_label :: "string \<Rightarrow> bool" where
  "dns_label s =
     (case s of
        [] \<Rightarrow> False
      | c # cs \<Rightarrow> is_lower c \<and>
          (cs = [] \<or> length (butlast cs) \<le> 61 \<and>
             list_all (\<lambda>x. is_alnum x \<or> x = CHR ''-'') (butlast cs) \<and> is_alnum (last cs)))"

subsection \<open>generateULA\<close>

text \<open>\<open>sha\<close> gives the bytes of the hash of a text; the first byte of an address is its highest.\<close>

type_synonym digest = "string \<Rightarrow> nat \<Rightarrow> nat"

definition of_bytes :: "nat list \<Rightarrow> nat" where
  "of_bytes bs = foldl (\<lambda>a b. 256 * a + b mod 256) 0 bs"

definition generate_ula :: "digest \<Rightarrow> string \<Rightarrow> ip_prefix" where
  "generate_ula sha seed =
     (V6 (of_bytes ([253] @ map (sha seed) [0..<5] @ map (sha seed) [5..<7] @ replicate 8 0)), 64)"

subsection \<open>Validate and Parse\<close>

datatype config_error = InvalidName string | InvalidRange | UnparsedRange string

definition validate :: "environment \<Rightarrow> config \<Rightarrow> config_error + config" where
  "validate env c =
     (if \<not> dns_label (cc_name c) then Inl (InvalidName (cc_name c))
      else
        let c1 = (if cc_root c = [] then
                    let state_home = (if en_state_home env = [] then path_join [en_user_home env, ''.local'', ''state'']
                                      else en_state_home env)
                    in c\<lparr>cc_root := path_join [state_home, ''runkube'', cc_name c]\<rparr>
                  else c);
            c2 = (if cc_external c1 = [] then c1\<lparr>cc_external := cc_name c1 @ ''.runkube.local''\<rparr> else c1)
        in if cc_range c2 = None then Inl InvalidRange else Inr c2)"

definition the_flag :: "'a option \<Rightarrow> 'a \<Rightarrow> 'a" where
  "the_flag f dflt = (case f of None \<Rightarrow> dflt | Some x \<Rightarrow> x)"

text \<open>An error ends the process.\<close>

definition parse_flags ::
  "digest \<Rightarrow> (string \<Rightarrow> ip_prefix option) \<Rightarrow> environment \<Rightarrow> flags \<Rightarrow> config_error + config" where
  "parse_flags sha parse_prefix env fl =
     (let name = the_flag (fl_name fl) ''default'';
          service_range = the_flag (fl_range fl) [];
          c = \<lparr>cc_name = name, cc_root = the_flag (fl_root fl) [], cc_external = the_flag (fl_external fl) [],
               cc_range = None, cc_nodes = the_flag (fl_nodes fl) [''node-a'']\<rparr>
      in if service_range = [] then validate env (c\<lparr>cc_range := Some (generate_ula sha name)\<rparr>)
         else case parse_prefix service_range of
           None \<Rightarrow> Inl (UnparsedRange service_range)
         | Some p \<Rightarrow> validate env (c\<lparr>cc_range := Some p\<rparr>))"

subsection \<open>Labels\<close>

lemma dns_label_chars:
  assumes "dns_label s"
  shows "s \<noteq> []" "length s \<le> 63" "list_all (\<lambda>c. is_alnum c \<or> c = CHR ''-'') s"
proof -
  obtain c cs where s: "s = c # cs" "is_lower c"
    "cs = [] \<or> length (butlast cs) \<le> 61 \<and> list_all (\<lambda>x. is_alnum x \<or> x = CHR ''-'') (butlast cs) \<and> is_alnum (last cs)"
    using assms by (auto simp: dns_label_def split: list.splits)
  show "s \<noteq> []" "length s \<le> 63"
    using s by auto
  show "list_all (\<lambda>c. is_alnum c \<or> c = CHR ''-'') s"
  proof (cases "cs = []")
    case False
    have "list_all (\<lambda>x. is_alnum x \<or> x = CHR ''-'') (butlast cs @ [last cs])"
      using s(3) False by (simp del: append_butlast_last_id)
    then have "list_all (\<lambda>x. is_alnum x \<or> x = CHR ''-'') cs"
      using False by simp
    then show ?thesis using s by (simp add: is_alnum_def)
  qed (use s in \<open>simp add: is_alnum_def\<close>)
qed

lemma special_not_in_label:
  assumes "dns_label s"
  shows "slash \<notin> set s" "colon \<notin> set s" "CHR ''.'' \<notin> set s" "CHR ''['' \<notin> set s"
  using dns_label_chars(3)[OF assms]
  by (auto simp: list_all_iff is_alnum_def is_lower_def is_digit_def slash_def colon_def dest!: bspec)

lemma dns_label_plain: "dns_label s \<Longrightarrow> plain_elem s"
  using special_not_in_label[of s] dns_label_chars(1)[of s] by (auto simp: plain_elem_def)

subsection \<open>The generated range\<close>

lemma of_bytes_snoc: "of_bytes (xs @ [b]) = 256 * of_bytes xs + b mod 256"
  by (simp add: of_bytes_def)

lemma of_bytes_append: "of_bytes (xs @ ys) = of_bytes xs * 256 ^ length ys + of_bytes ys"
proof (induction ys rule: rev_induct)
  case (snoc y ys)
  have "of_bytes (xs @ ys @ [y]) = 256 * of_bytes (xs @ ys) + y mod 256"
    by (simp only: append_assoc[symmetric] of_bytes_snoc)
  then show ?case
    by (simp add: snoc.IH of_bytes_snoc algebra_simps)
qed (simp add: of_bytes_def)

lemma of_bytes_bound: "of_bytes bs < 256 ^ length bs"
proof (induction bs rule: rev_induct)
  case (snoc b bs)
  have "b mod 256 < 256" by simp
  then show ?case using snoc by (simp add: of_bytes_snoc)
qed (simp add: of_bytes_def)

lemma of_bytes_zeros: "of_bytes (replicate k 0) = 0"
proof (induction k)
  case (Suc k)
  then show ?case
    by (simp add: replicate_append_same[symmetric] of_bytes_snoc del: replicate_append_same)
qed (simp add: of_bytes_def)

lemma generated_range:
  obtains n where "generate_ula sha seed = (V6 n, 64)" "n div 2 ^ 120 = 253" "n mod 2 ^ 64 = 0"
proof -
  define rest where "rest = map (sha seed) [0..<5] @ map (sha seed) [5..<7]"
  define n where "n = of_bytes (([253] @ rest) @ replicate 8 0)"
  have len: "length rest = 7"
    by (simp add: rest_def)
  have bound: "of_bytes rest < 256 ^ 7"
    using of_bytes_bound[of rest] by (simp add: len)
  have first: "of_bytes [253] = 253"
    by (simp add: of_bytes_def)
  have "of_bytes ([253] @ rest) = 253 * 256 ^ 7 + of_bytes rest"
    by (simp only: of_bytes_append len first)
  moreover have "(256 :: nat) ^ 8 = 2 ^ 64"
    by simp
  ultimately have n: "n = (253 * 256 ^ 7 + of_bytes rest) * 2 ^ 64"
    by (simp only: n_def of_bytes_append[of "[253] @ rest"] of_bytes_zeros length_replicate add_0_right)
  have split: "(2 :: nat) ^ 120 = 2 ^ 64 * 2 ^ 56"
    by simp
  have "n div 2 ^ 120 = (253 * 256 ^ 7 + of_bytes rest) div 2 ^ 56"
    unfolding n split div_mult2_eq by simp
  also have "\<dots> = 253"
    using bound by simp
  finally have top: "n div 2 ^ 120 = 253" .
  have host: "n mod 2 ^ 64 = 0"
    unfolding n by simp
  have gen: "generate_ula sha seed = (V6 n, 64)"
    by (simp only: generate_ula_def n_def rest_def append_assoc)
  show ?thesis
    by (rule that[OF gen top host])
qed

subsection \<open>Properties\<close>

lemma path_clean_nonempty: "path_clean p \<noteq> []"
  by (simp add: path_clean_def Let_def)

lemma path_join_nonempty: "e \<in> set es \<Longrightarrow> e \<noteq> [] \<Longrightarrow> path_join es \<noteq> []"
  by (auto simp: path_join_def Let_def path_clean_nonempty filter_empty_conv)

lemma validate_ok:
  assumes "validate env c = Inr c'"
  shows "dns_label (cc_name c')" "cc_name c' = cc_name c" "cc_root c' \<noteq> []" "cc_external c' \<noteq> []"
    "cc_range c' = cc_range c" "cc_range c' \<noteq> None" "cc_nodes c' = cc_nodes c"
  using assms dns_label_chars(1)[of "cc_name c"] path_join_nonempty[of "cc_name c"]
  by (auto simp: validate_def Let_def split: if_splits)

lemma validate_fixed:
  "dns_label (cc_name c) \<Longrightarrow> cc_root c \<noteq> [] \<Longrightarrow> cc_external c \<noteq> [] \<Longrightarrow> cc_range c \<noteq> None \<Longrightarrow>
     validate env c = Inr c"
  by (auto simp: validate_def Let_def)

text \<open>
  C20. What \<open>Parse\<close> returns is complete and stable: the name is a DNS label of at most 63
  characters that is a single path element, the root and the external host name are set, and
  validating again changes nothing, in whatever environment. Without a given range the
  service range is a /64 of unique local addresses (first byte \<open>fd\<close>) with the host bits zero, so that
  the address of the Kubernetes service, the next one, lies inside it.
\<close>

theorem parsed_config_is_complete:
  assumes "parse_flags sha parse_prefix env fl = Inr c"
  shows "dns_label (cc_name c) \<and> length (cc_name c) \<le> 63 \<and> plain_elem (cc_name c) \<and>
    cc_root c \<noteq> [] \<and> cc_external c \<noteq> [] \<and> validate env' c = Inr c \<and>
    (if the_flag (fl_range fl) [] = []
     then \<exists>n. cc_range c = Some (V6 n, 64) \<and> n div 2 ^ 120 = 253 \<and> n mod 2 ^ 64 = 0 \<and>
            next_addr (V6 n) = Some (V6 (n + 1)) \<and> (n + 1) div 2 ^ 64 = n div 2 ^ 64
     else cc_range c = parse_prefix (the_flag (fl_range fl) []))"
proof -
  obtain r where r: "validate env \<lparr>cc_name = the_flag (fl_name fl) ''default'', cc_root = the_flag (fl_root fl) [],
      cc_external = the_flag (fl_external fl) [], cc_range = Some r, cc_nodes = the_flag (fl_nodes fl) [''node-a'']\<rparr> = Inr c"
    "if the_flag (fl_range fl) [] = [] then r = generate_ula sha (the_flag (fl_name fl) ''default'')
     else parse_prefix (the_flag (fl_range fl) []) = Some r"
    using assms by (auto simp: parse_flags_def Let_def split: if_splits option.splits)
  note ok = validate_ok[OF r(1)]
  have range: "cc_range c = Some r"
    using ok(5) by simp
  have ula: "\<exists>n. r = (V6 n, 64) \<and> n div 2 ^ 120 = 253 \<and> n mod 2 ^ 64 = 0 \<and>
      next_addr (V6 n) = Some (V6 (n + 1)) \<and> (n + 1) div 2 ^ 64 = n div 2 ^ 64"
    if "the_flag (fl_range fl) [] = []"
  proof -
    obtain n where n: "generate_ula sha (the_flag (fl_name fl) ''default'') = (V6 n, 64)" "n div 2 ^ 120 = 253"
        "n mod 2 ^ 64 = 0"
      by (rule generated_range)
    have "n < 2 ^ 128 - 1"
      using n(2) by simp
    moreover have "(n + 1) div 2 ^ 64 = n div 2 ^ 64"
    proof -
      obtain q where "n = 2 ^ 64 * q"
        using n(3) by (metis dvdE mod_eq_0_iff_dvd)
      then show ?thesis by simp
    qed
    ultimately show ?thesis
      using n that r(2) by (intro exI[of _ n]) (simp add: next_addr_def)
  qed
  show ?thesis
    using ok dns_label_chars[OF ok(1)] dns_label_plain[OF ok(1)] validate_fixed[OF ok(1,3,4,6)] range ula r(2)
    by auto
qed

lemma parsed_config_is_complete_witness:
  "\<exists>c. parse_flags (\<lambda>_ i. 7 * i) (\<lambda>_. None) \<lparr>en_state_home = [], en_user_home = ''/root''\<rparr>
      \<lparr>fl_name = None, fl_root = None, fl_external = None, fl_range = None, fl_nodes = None\<rparr> = Inr c \<and>
    dns_label (cc_name c) \<and> validate \<lparr>en_state_home = ''/s'', en_user_home = []\<rparr> c = Inr c"
proof -
  let ?p = "parse_flags (\<lambda>_ i. 7 * i) (\<lambda>_. None) \<lparr>en_state_home = [], en_user_home = ''/root''\<rparr>
      \<lparr>fl_name = None, fl_root = None, fl_external = None, fl_range = None, fl_nodes = None\<rparr>"
  obtain c where "?p = Inr c"
    by (simp add: parse_flags_def the_flag_def validate_def dns_label_def is_lower_def is_alnum_def Let_def)
  then show ?thesis
    using parsed_config_is_complete[of "\<lambda>_ i. 7 * i" "\<lambda>_. None" "\<lparr>en_state_home = [], en_user_home = ''/root''\<rparr>"
        _ c "\<lparr>en_state_home = ''/s'', en_user_home = []\<rparr>"]
    by blast
qed

end
