(* ===== verification/Kapi.thy ===== *)
theory Kapi
  imports Go_Path
begin

section \<open>The extension API server (pkg/kapi/kapi.go)\<close>

text \<open>
  API groups and their resources, what the server says about them, and the patterns it installs
  into its request multiplexer. Handlers are named, and told apart by what they answer.
\<close>

record group_version =
  gv_group :: string
  gv_version :: string

record resource_spec =
  rs_group :: string
  rs_version :: string
  rs_kind :: string
  rs_namespaced :: bool
  rs_resource :: string
  rs_verbs :: "string list"

record api_group =
  ag_version :: group_version
  ag_resources :: "resource_spec list"

record api_resource =
  ad_name :: string
  ad_group :: string
  ad_version :: string
  ad_singular :: string
  ad_kind :: string
  ad_namespaced :: bool
  ad_verbs :: "string list"

definition default_verbs :: "string list" where
  "default_verbs = [''get'', ''list'', ''watch'', ''create'', ''patch'', ''update'', ''delete'', ''proxy'']"

definition descriptor :: "resource_spec \<Rightarrow> api_resource" where
  "descriptor r =
     \<lparr>ad_name = rs_resource r, ad_group = rs_group r, ad_version = rs_version r, ad_singular = rs_kind r,
      ad_kind = rs_kind r, ad_namespaced = rs_namespaced r,
      ad_verbs = (if length (rs_verbs r) > 0 then rs_verbs r else default_verbs)\<rparr>"

subsection \<open>Discovery\<close>

text \<open>The keys of the OpenAPI document with the group, version and kind each one stands for.\<close>

definition open_api_paths :: "api_group \<Rightarrow> (string \<times> string \<times> string \<times> string) list" where
  "open_api_paths g =
     map (\<lambda>kr. let d = descriptor kr in
       (path_join [''/apis'', gv_group (ag_version g), gv_version (ag_version g), ad_name d],
        ad_group d, ad_version d, ad_kind d)) (ag_resources g)"

definition open_api_schemas :: "api_group \<Rightarrow> (string \<times> string \<times> string \<times> string) list" where
  "open_api_schemas g =
     map (\<lambda>kr. let d = descriptor kr in
       (join_with ''.'' [gv_group (ag_version g), gv_version (ag_version g), ad_kind d],
        ad_group d, ad_version d, ad_kind d)) (ag_resources g)"

definition api_discovery :: "api_group \<Rightarrow> api_resource list" where
  "api_discovery g = map descriptor (ag_resources g)"

record api_service =
  as_name :: string
  as_group :: string
  as_version :: string
  as_group_priority :: nat
  as_version_priority :: nat
  as_service :: "string \<times> string \<times> nat"

text \<open>The object of a group without its CA bundle; the service is its name, namespace and port.\<close>

definition api_service_of :: "string \<Rightarrow> string \<Rightarrow> api_group \<Rightarrow> api_service" where
  "api_service_of namespace name g =
     \<lparr>as_name = join_with ''.'' [gv_version (ag_version g), gv_group (ag_version g)],
      as_group = gv_group (ag_version g), as_version = gv_version (ag_version g),
      as_group_priority = 1000, as_version_priority = 15, as_service = (name, namespace, 443)\<rparr>"

definition api_services :: "api_group list \<Rightarrow> string \<Rightarrow> string \<Rightarrow> api_service list" where
  "api_services groups namespace name = map (api_service_of namespace name) groups"

text \<open>The document of \<open>/openapi/{version}\<close>: the groups with their URLs.\<close>

definition open_api_index :: "api_group list \<Rightarrow> (string \<times> string) list" where
  "open_api_index groups =
     map (\<lambda>g. (''apis/'' @ gv_group (ag_version g) @ ''/'' @ gv_version (ag_version g),
       path_join [''/openapi/v3/apis'', gv_group (ag_version g), gv_version (ag_version g)])) groups"

subsection \<open>Patterns\<close>

text \<open>\<open>strings.FieldsFunc\<close> at slashes.\<close>

definition path_fields :: "string \<Rightarrow> string list" where
  "path_fields u = filter (\<lambda>p. p \<noteq> []) (split_on slash u)"

definition group_url :: "api_group \<Rightarrow> string \<Rightarrow> string" where
  "group_url g u =
     ''GET '' @ path_clean (path_join (''/'' #
       map (\<lambda>p. if p = ''{group}'' then gv_group (ag_version g)
                else if p = ''{version}'' then gv_version (ag_version g) else p) (path_fields u)))"

definition resource_url :: "api_group \<Rightarrow> resource_spec \<Rightarrow> string \<Rightarrow> string" where
  "resource_url g r u =
     ''GET '' @ path_clean (path_join (''/'' #
       map (\<lambda>p. if p = ''{group}'' then gv_group (ag_version g)
                else if p = ''{version}'' then gv_version (ag_version g)
                else if p = ''{resource}'' then ad_name (descriptor r) else p) (path_fields u)))"

datatype route =
    NotFound
  | GroupList
  | OpenApiIndex
  | OpenApiGroup api_group
  | ResourceList api_group
  | ListObjects resource_spec
  | GetObject resource_spec

definition service_routes :: "(string \<times> route) list" where
  "service_routes = [(''/{a...}'', NotFound), (''/apis'', GroupList), (''GET /openapi/{version}'', OpenApiIndex)]"

definition resource_routes :: "api_group \<Rightarrow> resource_spec \<Rightarrow> (string \<times> route) list" where
  "resource_routes g r =
     [(resource_url g r ''/apis/{group}/{version}/{resource}'', ListObjects r)] @
     (if ad_namespaced (descriptor r) then
        [(resource_url g r ''/apis/{group}/{version}/namespaces/{namespace}/{resource}'', ListObjects r),
         (resource_url g r ''/apis/{group}/{version}/namespaces/{namespace}/{resources}/{name}'', GetObject r)]
      else [(resource_url g r ''/apis/{group}/{version}/{resource}/{name}'', GetObject r)])"

definition group_routes :: "api_group \<Rightarrow> (string \<times> route) list" where
  "group_routes g =
     [(group_url g ''/openapi/v3/apis/{group}/{version}'', OpenApiGroup g),
      (group_url g ''/apis/{group}/{version}'', ResourceList g)] @
     concat (map (resource_routes g) (ag_resources g))"

subsection \<open>The multiplexer of net/http\<close>

text \<open>
  A pattern is a method, if it has one, and the segments of its path. A segment in braces matches
  any one segment, and one that ends in three dots all the rest.
\<close>

datatype segment = Lit string | Wild | Rest

definition segment_of :: "string \<Rightarrow> segment" where
  "segment_of s =
     (if has_prefix s ''{'' \<and> has_suffix s ''...}'' then Rest
      else if has_prefix s ''{'' \<and> has_suffix s ''}'' then Wild else Lit s)"

record pattern =
  pt_method :: "string option"
  pt_segments :: "segment list"

definition parse_pattern :: "string \<Rightarrow> pattern" where
  "parse_pattern s =
     (case cut_at (CHR '' '') s of
        (m, p, True) \<Rightarrow> \<lparr>pt_method = Some m, pt_segments = map segment_of (path_fields p)\<rparr>
      | (p, _, False) \<Rightarrow> \<lparr>pt_method = None, pt_segments = map segment_of (path_fields p)\<rparr>)"

fun segments_match :: "segment list \<Rightarrow> string list \<Rightarrow> bool" where
  "segments_match [] [] \<longleftrightarrow> True"
| "segments_match (Rest # ps) xs \<longleftrightarrow> True"
| "segments_match (Wild # ps) (x # xs) \<longleftrightarrow> segments_match ps xs"
| "segments_match (Lit s # ps) (x # xs) \<longleftrightarrow> s = x \<and> segments_match ps xs"
| "segments_match _ _ \<longleftrightarrow> False"

definition method_match :: "string option \<Rightarrow> string \<Rightarrow> bool" where
  "method_match m x \<longleftrightarrow> (case m of None \<Rightarrow> True | Some y \<Rightarrow> y = x \<or> y = ''GET'' \<and> x = ''HEAD'')"

definition pattern_match :: "pattern \<Rightarrow> string \<Rightarrow> string list \<Rightarrow> bool" where
  "pattern_match p m xs \<longleftrightarrow> method_match (pt_method p) m \<and> segments_match (pt_segments p) xs"

text \<open>\<open>covers q p\<close>: \<open>q\<close> matches whatever \<open>p\<close> matches; \<open>apart\<close>: no request matches both.\<close>

fun segments_cover :: "segment list \<Rightarrow> segment list \<Rightarrow> bool" where
  "segments_cover [] [] \<longleftrightarrow> True"
| "segments_cover (Rest # qs) ps \<longleftrightarrow> True"
| "segments_cover (Wild # qs) (Wild # ps) \<longleftrightarrow> segments_cover qs ps"
| "segments_cover (Wild # qs) (Lit s # ps) \<longleftrightarrow> segments_cover qs ps"
| "segments_cover (Lit t # qs) (Lit s # ps) \<longleftrightarrow> t = s \<and> segments_cover qs ps"
| "segments_cover _ _ \<longleftrightarrow> False"

fun segments_apart :: "segment list \<Rightarrow> segment list \<Rightarrow> bool" where
  "segments_apart (Rest # qs) ps \<longleftrightarrow> False"
| "segments_apart qs (Rest # ps) \<longleftrightarrow> False"
| "segments_apart [] [] \<longleftrightarrow> False"
| "segments_apart (Lit t # qs) (Lit s # ps) \<longleftrightarrow> t \<noteq> s \<or> segments_apart qs ps"
| "segments_apart (q # qs) (p # ps) \<longleftrightarrow> segments_apart qs ps"
| "segments_apart _ _ \<longleftrightarrow> True"

definition covers :: "pattern \<Rightarrow> pattern \<Rightarrow> bool" where
  "covers q p \<longleftrightarrow>
     (case (pt_method q, pt_method p) of
        (None, _) \<Rightarrow> True
      | (Some _, None) \<Rightarrow> False
      | (Some a, Some b) \<Rightarrow> a = b \<or> a = ''GET'' \<and> b = ''HEAD'') \<and> segments_cover (pt_segments q) (pt_segments p)"

definition apart :: "pattern \<Rightarrow> pattern \<Rightarrow> bool" where
  "apart q p \<longleftrightarrow>
     (case (pt_method q, pt_method p) of
        (Some a, Some b) \<Rightarrow> a \<noteq> b \<and> {a, b} \<noteq> {''GET'', ''HEAD''}
      | _ \<Rightarrow> False) \<or> segments_apart (pt_segments q) (pt_segments p)"

definition conflict :: "pattern \<Rightarrow> pattern \<Rightarrow> bool" where
  "conflict q p \<longleftrightarrow> \<not> apart q p \<and> covers q p = covers p q"

text \<open>\<open>HandleFunc\<close> panics when the pattern conflicts with one that is installed.\<close>

type_synonym 'h serve_mux = "(pattern \<times> 'h) list"

definition handle_func :: "string \<Rightarrow> 'h \<Rightarrow> 'h serve_mux \<Rightarrow> 'h serve_mux option" where
  "handle_func s h m =
     (let p = parse_pattern s
      in if list_ex (\<lambda>(q, _). conflict q p) m then None else Some (m @ [(p, h)]))"

fun install_routes :: "(string \<times> 'h) list \<Rightarrow> 'h serve_mux \<Rightarrow> 'h serve_mux option" where
  "install_routes [] m = Some m"
| "install_routes ((s, h) # rs) m =
     (case handle_func s h m of None \<Rightarrow> None | Some m' \<Rightarrow> install_routes rs m')"

definition new_api :: "api_group list \<Rightarrow> route serve_mux option" where
  "new_api groups = install_routes (service_routes @ concat (map group_routes groups)) []"

text \<open>The most specific pattern that matches.\<close>

definition dispatch_route :: "'h serve_mux \<Rightarrow> string \<Rightarrow> string list \<Rightarrow> 'h option" where
  "dispatch_route m method xs =
     (let ms = filter (\<lambda>(p, _). pattern_match p method xs) m
      in map_option snd (find (\<lambda>(p, _). list_all (\<lambda>(q, _). covers q p) ms) ms))"

subsection \<open>What the handlers answer\<close>

text \<open>
  The options of a list request, and the answers. A watch sends its header after the time given has passed and
  nothing else; the list of a resource is empty, with the kind of the resource itself; an object has the name
  and the namespace of the path (the cluster-wide handler sets no namespace).
\<close>

record list_options =
  lo_watch :: bool
  lo_timeout :: "int option"

datatype answer =
    Status404
  | EmptyGroupList
  | ApiIndex "(string \<times> string) list"
  | ApiDocument "(string \<times> string \<times> string \<times> string) list" "(string \<times> string \<times> string \<times> string) list"
  | Resources string string "api_resource list"
  | HeldOpen int
  | EmptyList string string string
  | Object string string string string "string option"

definition watch_seconds :: "list_options \<Rightarrow> int" where
  "watch_seconds op = (case lo_timeout op of None \<Rightarrow> 600 | Some t \<Rightarrow> if t > 0 then t else 600)"

fun route_answer :: "api_group list \<Rightarrow> route \<Rightarrow> list_options \<Rightarrow> string \<Rightarrow> string \<Rightarrow> answer" where
  "route_answer gs NotFound op ns name = Status404"
| "route_answer gs GroupList op ns name = EmptyGroupList"
| "route_answer gs OpenApiIndex op ns name = ApiIndex (open_api_index gs)"
| "route_answer gs (OpenApiGroup g) op ns name = ApiDocument (open_api_paths g) (open_api_schemas g)"
| "route_answer gs (ResourceList g) op ns name =
     Resources (gv_group (ag_version g)) (gv_version (ag_version g)) (api_discovery g)"
| "route_answer gs (ListObjects r) op ns name =
     (if lo_watch op then HeldOpen (watch_seconds op) else EmptyList (rs_group r) (rs_version r) (rs_kind r))"
| "route_answer gs (GetObject r) op ns name =
     Object (rs_group r) (rs_version r) (rs_kind r) name (if rs_namespaced r then Some ns else None)"

subsection \<open>The groups of the program (api.go)\<close>

definition buckets :: resource_spec where
  "buckets = \<lparr>rs_group = ''api.runkube.internal'', rs_version = ''v1'', rs_kind = ''Bucket'', rs_namespaced = False,
     rs_resource = ''buckets'', rs_verbs = []\<rparr>"

definition examplesb :: resource_spec where
  "examplesb = \<lparr>rs_group = ''example-b.runkube.internal'', rs_version = ''v1'', rs_kind = ''ExampleB'',
     rs_namespaced = True, rs_resource = ''examplesb'', rs_verbs = []\<rparr>"

definition default_api_groups :: "api_group list" where
  "default_api_groups =
     [\<lparr>ag_version = \<lparr>gv_group = ''api.runkube.internal'', gv_version = ''v1''\<rparr>, ag_resources = [buckets]\<rparr>,
      \<lparr>ag_version = \<lparr>gv_group = ''example-b.runkube.internal'', gv_version = ''v1''\<rparr>, ag_resources = [examplesb]\<rparr>]"

subsection \<open>Properties\<close>

lemma segments_match_single [simp]: "segments_match [Lit s] xs \<longleftrightarrow> xs = [s]"
  by (cases xs; cases "tl xs") auto

lemma segments_apart_refl: "\<not> segments_apart ps ps"
proof (induction ps)
  case (Cons p ps)
  then show ?case by (cases p) simp_all
qed simp

lemma conflict_refl: "conflict p p"
  by (auto simp: conflict_def apart_def segments_apart_refl split: option.splits)

lemma install_routes_append:
  "install_routes (xs @ ys) m = (case install_routes xs m of None \<Rightarrow> None | Some m' \<Rightarrow> install_routes ys m')"
  by (induction xs m rule: install_routes.induct) (auto split: option.splits)

lemma handle_func_keeps: "handle_func s h m = Some m' \<Longrightarrow> set m \<union> {(parse_pattern s, h)} \<subseteq> set m'"
  by (auto simp: handle_func_def Let_def split: if_splits)

lemma install_routes_keeps: "install_routes rs m = Some m' \<Longrightarrow> set m \<union> (\<lambda>(s, h). (parse_pattern s, h)) ` set rs \<subseteq> set m'"
  by (induction rs m rule: install_routes.induct)
    (fastforce dest: handle_func_keeps split: option.splits)+

lemma repeated_pattern_panics:
  assumes "(s, h) \<in> set xs"
  shows "install_routes (xs @ (s, h') # ys) m = None"
proof (cases "install_routes xs m")
  case (Some m')
  then have "(parse_pattern s, h) \<in> set m'"
    using install_routes_keeps[OF Some] assms by force
  then have "handle_func s h' m' = None"
    using conflict_refl by (auto simp: handle_func_def Let_def list_ex_iff)
  then show ?thesis
    using Some by (simp add: install_routes_append)
qed (simp add: install_routes_append)

lemma install_none_append: "install_routes xs m = None \<Longrightarrow> install_routes (xs @ ys) m = None"
  by (simp add: install_routes_append)

lemma namespaced_object_fields:
  "path_fields ''/apis/{group}/{version}/namespaces/{namespace}/{resources}/{name}'' =
     [''apis'', ''{group}'', ''{version}'', ''namespaces'', ''{namespace}'', ''{resources}'', ''{name}'']"
  by (simp add: path_fields_def slash_def)

text \<open>The pattern for one namespaced object does not mention the resource.\<close>

lemma namespaced_object_pattern:
  "resource_url g r ''/apis/{group}/{version}/namespaces/{namespace}/{resources}/{name}'' =
     resource_url g r' ''/apis/{group}/{version}/namespaces/{namespace}/{resources}/{name}''"
  unfolding resource_url_def namespaced_object_fields by simp


text \<open>
  A group with two namespaced resources cannot be served: the second one installs the pattern of
  the first again, and the multiplexer panics.
\<close>

lemma second_namespaced_resource_panics:
  assumes "ag_resources g = xs @ r # ys @ r' # zs" "rs_namespaced r" "rs_namespaced r'"
  shows "new_api (gs @ g # hs) = None"
proof -
  let ?p = "resource_url g r ''/apis/{group}/{version}/namespaces/{namespace}/{resources}/{name}''"
  let ?pre = "\<lambda>r. [(resource_url g r ''/apis/{group}/{version}/{resource}'', ListObjects r),
    (resource_url g r ''/apis/{group}/{version}/namespaces/{namespace}/{resource}'', ListObjects r)]"
  have routes: "resource_routes g q = ?pre q @ [(?p, GetObject q)]" if "rs_namespaced q" for q
    using that namespaced_object_pattern[of g q r] by (simp add: resource_routes_def descriptor_def)
  let ?before = "service_routes @ concat (map group_routes gs) @
    [(group_url g ''/openapi/v3/apis/{group}/{version}'', OpenApiGroup g),
     (group_url g ''/apis/{group}/{version}'', ResourceList g)] @
    concat (map (resource_routes g) xs) @ (?pre r @ [(?p, GetObject r)]) @ concat (map (resource_routes g) ys) @ ?pre r'"
  let ?after = "concat (map (resource_routes g) zs) @ concat (map group_routes hs)"
  have "service_routes @ concat (map group_routes (gs @ g # hs)) = ?before @ (?p, GetObject r') # ?after"
    by (simp add: group_routes_def assms(1) routes[OF assms(2)] routes[OF assms(3)])
  moreover have "install_routes (?before @ (?p, GetObject r') # ?after) [] = None"
    by (rule repeated_pattern_panics[where h = "GetObject r"]) simp
  ultimately show ?thesis
    by (simp only: new_api_def)
qed

end
