(* ===== verification/Syncer.thy ===== *)
theory Syncer
  imports Kapi
begin

section \<open>The objects to be created in the cluster (pkg/syncer/sync.go)\<close>

text \<open>
  The objects of the program: the service of the extension API server and the registrations of its
  groups, each with the CA bundle. \<open>'c\<close> is the type of the bundle. Converting these objects to
  unstructured ones cannot fail.
\<close>

datatype 'c sync_object =
    ServiceObject string string string "(string \<times> string \<times> nat \<times> nat) list"
  | ApiServiceObject api_service 'c

definition syncer_add :: "'c sync_object list \<Rightarrow> 'c sync_object list \<Rightarrow> 'c sync_object list" where
  "syncer_add objs s = s @ objs"

text \<open>One document for each object, in order; the encoder's error panics: \<open>None\<close>.\<close>

fun as_yaml :: "('c sync_object \<Rightarrow> string option) \<Rightarrow> 'c sync_object list \<Rightarrow> string option" where
  "as_yaml encode_object [] = Some []"
| "as_yaml encode_object (x # xs) =
     (case encode_object x of
        None \<Rightarrow> None
      | Some t \<Rightarrow> map_option (\<lambda>r. t @ r) (as_yaml encode_object xs))"

lemma as_yaml_append:
  "as_yaml e (xs @ ys) = (case as_yaml e xs of None \<Rightarrow> None | Some t \<Rightarrow> map_option ((@) t) (as_yaml e ys))"
  by (induction xs; cases "as_yaml e ys") (auto split: option.splits)

text \<open>\<open>SyncOne\<close>: the mapper and the client are arguments.\<close>

definition sync_one ::
  "('o \<Rightarrow> string + string) \<Rightarrow> (string \<Rightarrow> 'o \<Rightarrow> string option) \<Rightarrow> 'o \<Rightarrow> string option" where
  "sync_one rest_mapping create_object x =
     (case rest_mapping x of Inl e \<Rightarrow> Some e | Inr resource \<Rightarrow> create_object resource x)"

end
