(* ===== verification/World.thy ===== *)
theory World
  imports Prelude Go_Addr Syncer
begin

section \<open>Files, keys and certificates of the control plane\<close>

text \<open>
  What the packages around the control plane share: the files of its root directory, the fresh
  keys, the cache of certificate authorities, the objects of the syncer, and computations on them that may fail. Keys are
  numbers; a private key and its public key have the same number. A file holds text, a PEM block
  or a key set; parsing and printing of these formats is thereby idealised.
\<close>

datatype usage = ServerAuth | ClientAuth

datatype ca_name = APIServerCA | APIClientCA | EtcdCA | ExtensionAPIServerCA | RequestHeaderCA | KubeletServerCA | WebhookServerCA

text \<open>\<open>ct_signer\<close> is the key a certificate is signed with; times are in nanoseconds.\<close>

record cert =
  ct_cn :: string
  ct_o :: "string list"
  ct_san :: "string list"
  ct_ip :: "ip_addr list"
  ct_key :: nat
  ct_signer :: nat
  ct_ca :: bool
  ct_usages :: "usage list"
  ct_from :: int
  ct_until :: int

datatype pem_body = CertBytes cert | KeyBytes nat | BadBytes

record jwk =
  jk_kid :: string
  jk_use :: string
  jk_alg :: string
  jk_key :: nat

text \<open>
  A kubeconfig is represented by the values filled into its YAML template; the data fields are the
  contents of the files they are read from (nothing when a file cannot be read).
\<close>

datatype content =
    PemFile string pem_body
  | TextFile string
  | KeySetFile "jwk list"
  | KubeconfigFile string "string option" "content option" "content option" "content option"

text \<open>A certificate signing request: its names, its key and the key it is signed with.\<close>

record csr =
  cs_cn :: string
  cs_o :: "string list"
  cs_san :: "string list"
  cs_ip :: "ip_addr list"
  cs_key :: nat
  cs_signer :: nat

text \<open>A reference to a certificate and its key: the two paths and what has been loaded.\<close>

record pki_ref =
  rf_cert_path :: string
  rf_key_path :: string
  rf_cert :: "cert option"
  rf_key :: "nat option"

text \<open>A certificate authority, with the reference it has been initialised with.\<close>

record authority =
  au_name :: string
  au_lifetime :: int
  au_ref :: pki_ref

record world =
  wd_files :: "string \<Rightarrow> content option"
  wd_next_key :: nat
  wd_cas :: "(ca_name, authority) gomap"
  wd_objects :: "content sync_object list"

text \<open>
  The environment: the time, whether a directory can be made and a file written, and whether
  \<open>crypto/x509\<close> accepts the template of a certificate or a request.
\<close>

record surroundings =
  su_now :: int
  su_mkdir :: "string \<Rightarrow> bool"
  su_write :: "string \<Rightarrow> bool"
  su_template :: "cert \<Rightarrow> bool"
  su_csr :: "csr \<Rightarrow> bool"

subsection \<open>Computations that may fail\<close>

datatype failure = Error string | Panic

type_synonym 'a act = "world \<Rightarrow> world \<times> (failure + 'a)"

definition give :: "'a \<Rightarrow> 'a act" where
  "give x w = (w, Inr x)"

definition throw :: "failure \<Rightarrow> 'a act" where
  "throw e w = (w, Inl e)"

definition and_then :: "'a act \<Rightarrow> ('a \<Rightarrow> 'b act) \<Rightarrow> 'b act" where
  "and_then m k w = (case m w of (w', Inl e) \<Rightarrow> (w', Inl e) | (w', Inr x) \<Rightarrow> k x w')"

definition check :: "bool \<Rightarrow> string \<Rightarrow> unit act" where
  "check b e = (if b then give () else throw (Error e))"

text \<open>The first failure ends the loop.\<close>

fun for_each :: "('a \<Rightarrow> unit act) \<Rightarrow> 'a list \<Rightarrow> unit act" where
  "for_each f [] = give ()"
| "for_each f (x # xs) = and_then (f x) (\<lambda>_. for_each f xs)"

text \<open>A directory with its parents, and a file that is created or replaced.\<close>

definition mkdir_all :: "surroundings \<Rightarrow> string \<Rightarrow> unit act" where
  "mkdir_all su p = check (su_mkdir su p) ''mkdir''"

definition write_content :: "surroundings \<Rightarrow> string \<Rightarrow> content \<Rightarrow> unit act" where
  "write_content su p c w =
     (if su_write su p then (w\<lparr>wd_files := (wd_files w)(p \<mapsto> c)\<rparr>, Inr ()) else (w, Inl (Error ''write'')))"

definition read_content :: "string \<Rightarrow> content option act" where
  "read_content p w = (w, Inr (wd_files w p))"

definition fresh_key :: "nat act" where
  "fresh_key w = (w\<lparr>wd_next_key := wd_next_key w + 1\<rparr>, Inr (wd_next_key w))"

named_theorems success_iff

lemma give_success [success_iff]: "give x w = (w', Inr y) \<longleftrightarrow> w' = w \<and> y = x"
  by (auto simp: give_def)

lemma throw_success [success_iff]: "throw e w = (w', Inr y) \<longleftrightarrow> False"
  by (simp add: throw_def)

lemma and_then_success [success_iff]:
  "and_then m k w = (w', Inr y) \<longleftrightarrow> (\<exists>v x. m w = (v, Inr x) \<and> k x v = (w', Inr y))"
  by (auto simp: and_then_def split: prod.splits sum.splits)

lemma check_success [success_iff]: "check b e w = (w', Inr y) \<longleftrightarrow> b \<and> w' = w"
  by (auto simp: check_def success_iff)

lemma mkdir_success [success_iff]: "mkdir_all su p w = (w', Inr y) \<longleftrightarrow> su_mkdir su p \<and> w' = w"
  by (auto simp: mkdir_all_def success_iff)

lemma write_success [success_iff]:
  "write_content su p c w = (w', Inr y) \<longleftrightarrow> su_write su p \<and> w' = w\<lparr>wd_files := (wd_files w)(p \<mapsto> c)\<rparr>"
  by (auto simp: write_content_def)

lemma read_success [success_iff]: "read_content p w = (w', Inr y) \<longleftrightarrow> w' = w \<and> y = wd_files w p"
  by (auto simp: read_content_def)

lemma fresh_success [success_iff]:
  "fresh_key w = (w', Inr y) \<longleftrightarrow> y = wd_next_key w \<and> w' = w\<lparr>wd_next_key := wd_next_key w + 1\<rparr>"
  by (auto simp: fresh_key_def)

lemma for_each_append [success_iff]:
  "for_each f (xs @ ys) w = (w', Inr u) \<longleftrightarrow>
     (\<exists>v. for_each f xs w = (v, Inr ()) \<and> for_each f ys v = (w', Inr u))"
  by (induction xs arbitrary: w) (auto simp: success_iff)

text \<open>A property that every step keeps is kept by the loop.\<close>

lemma for_each_keeps:
  assumes "for_each f xs w = (w', Inr u)" "P w"
    and "\<And>x v v'. x \<in> set xs \<Longrightarrow> P v \<Longrightarrow> f x v = (v', Inr ()) \<Longrightarrow> P v'"
  shows "P w'"
  using assms
proof (induction xs arbitrary: w)
  case (Cons x xs)
  then obtain v where "f x w = (v, Inr ())" "for_each f xs v = (w', Inr u)"
    by (auto simp: success_iff)
  then show ?case
    using Cons by (metis list.set_intros(1) list.set_intros(2))
qed (simp add: success_iff)

text \<open>Every element of a list is dealt with, and what has been done for one survives the others.\<close>

lemma for_each_all:
  assumes "for_each f xs w = (w', Inr u)" "I w" "distinct xs"
    and step: "\<And>x v v'. x \<in> set xs \<Longrightarrow> I v \<Longrightarrow> f x v = (v', Inr ()) \<Longrightarrow> I v' \<and> P x v'"
    and keeps: "\<And>x y v v'. x \<in> set xs \<Longrightarrow> y \<in> set xs \<Longrightarrow> x \<noteq> y \<Longrightarrow> I v \<Longrightarrow> P x v \<Longrightarrow> f y v = (v', Inr ()) \<Longrightarrow> P x v'"
  shows "I w' \<and> (\<forall>x \<in> set xs. P x w')"
proof -
  have "I w' \<and> (\<forall>x \<in> set ys. P x w')" if "for_each f ys w = (w', Inr u)" "distinct ys" "set ys \<subseteq> set xs" for ys w'
    using that
  proof (induction ys arbitrary: w' rule: rev_induct)
    case Nil
    then show ?case using assms(2) by (simp add: success_iff)
  next
    case (snoc y ys)
    obtain v where v: "for_each f ys w = (v, Inr ())" "f y v = (w', Inr ())"
      using snoc.prems(1) by (auto simp: success_iff)
    have iv: "I v" "\<forall>x \<in> set ys. P x v"
      using snoc.IH[of v] v(1) snoc.prems by auto
    have "I w' \<and> P y w'"
      using step[OF _ iv(1) v(2)] snoc.prems(3) by simp
    moreover have "P x w'" if "x \<in> set ys" for x
      by (rule keeps[of x y v]) (use that iv v(2) snoc.prems in auto)
    ultimately show ?case by simp
  qed
  then show ?thesis
    using assms(1,3) by blast
qed

text \<open>
  A list of calls written as a list of errors: all of them run, whatever the others return, and then
  the first error counts. Only a panic ends it early.
\<close>

fun run_all :: "unit act list \<Rightarrow> world \<Rightarrow> world \<times> failure option" where
  "run_all [] w = (w, None)"
| "run_all (f # fs) w =
     (case f w of
        (w1, Inl Panic) \<Rightarrow> (w1, Some Panic)
      | (w1, Inl e) \<Rightarrow>
          (case run_all fs w1 of
             (w2, Some Panic) \<Rightarrow> (w2, Some Panic)
           | (w2, _) \<Rightarrow> (w2, Some e))
      | (w1, Inr _) \<Rightarrow> run_all fs w1)"

definition first_error :: "unit act list \<Rightarrow> unit act" where
  "first_error fs w = (case run_all fs w of (w1, None) \<Rightarrow> (w1, Inr ()) | (w1, Some e) \<Rightarrow> (w1, Inl e))"

lemma run_all_success: "run_all fs w = (w', None) \<longleftrightarrow> for_each (\<lambda>f. f) fs w = (w', Inr ())"
  by (induction fs arbitrary: w)
    (auto simp: success_iff split: prod.splits sum.splits failure.splits option.splits)

lemma first_error_success [success_iff]:
  "first_error fs w = (w', Inr u) \<longleftrightarrow> for_each (\<lambda>f. f) fs w = (w', Inr ())"
  by (auto simp: first_error_def run_all_success[symmetric] split: prod.splits option.splits)

end
