(* ===== verification/Pki.thy ===== *)
theory Pki
  imports World Go_Path
begin

section \<open>Certificates (pki.go)\<close>

text \<open>
  References to certificates and keys, certificate authorities, and the issue of leaf
  certificates. Serial numbers are not modelled.
\<close>

subsection \<open>Requests and lifetimes\<close>

record cert_request =
  cr_name :: string
  cr_signer :: ca_name
  cr_usages :: "usage list"
  cr_lifetime :: int
  cr_cn :: string
  cr_o :: "string list"
  cr_san :: "string list"
  cr_ip :: "ip_addr list"

definition hour :: int where
  "hour = 3600 * 1000000000"

definition cert_lifetime_min :: int where
  "cert_lifetime_min = hour * 24 * 7"

definition cert_lifetime_max :: int where
  "cert_lifetime_max = hour * 24 * 180"

definition clamp :: "int \<Rightarrow> int \<Rightarrow> int \<Rightarrow> int" where
  "clamp l floor ceil = (if l > ceil then ceil else if l < floor then floor else l)"

lemma clamp_between: "floor \<le> ceil \<Longrightarrow> floor \<le> clamp l floor ceil \<and> clamp l floor ceil \<le> ceil"
  by (auto simp: clamp_def)

subsection \<open>Reading and writing a reference\<close>

definition certificate_type :: string where
  "certificate_type = ''CERTIFICATE''"

definition key_type :: string where
  "key_type = ''EC PRIVATE KEY''"

text \<open>
  \<open>Read\<close>: a file that cannot be read is skipped; the certificate is only inspected, and an expired one ends
  the function before the key is read.
\<close>

definition read_key :: "pki_ref \<Rightarrow> pki_ref act" where
  "read_key p =
     and_then (read_content (rf_key_path p)) (\<lambda>f.
       case f of
         None \<Rightarrow> give p
       | Some (PemFile t b) \<Rightarrow>
           if t \<noteq> key_type then throw (Error ''invalid block type'')
           else (case b of KeyBytes k \<Rightarrow> give (p\<lparr>rf_key := Some k\<rparr>) | _ \<Rightarrow> throw (Error ''parse private key''))
       | Some _ \<Rightarrow> throw (Error ''no block set''))"

definition pki_read :: "surroundings \<Rightarrow> pki_ref \<Rightarrow> pki_ref act" where
  "pki_read su p =
     and_then (read_content (rf_cert_path p)) (\<lambda>f.
       case f of
         None \<Rightarrow> read_key p
       | Some (PemFile t b) \<Rightarrow>
           if t \<noteq> certificate_type then throw (Error ''invalid block type'')
           else (case b of
                   CertBytes c \<Rightarrow> if su_now su > ct_until c \<or> su_now su < ct_from c then give p else read_key p
                 | _ \<Rightarrow> throw (Error ''parse certificate''))
       | Some _ \<Rightarrow> throw (Error ''no block set''))"

definition cert_data :: "pki_ref \<Rightarrow> content act" where
  "cert_data p =
     (case rf_cert p of
        None \<Rightarrow> throw (Error ''cannot PEM encode nil cert'')
      | Some c \<Rightarrow> give (PemFile certificate_type (CertBytes c)))"

definition key_data :: "pki_ref \<Rightarrow> content act" where
  "key_data p =
     (case rf_key p of
        None \<Rightarrow> throw (Error ''cannot PEM encode nil key'')
      | Some k \<Rightarrow> give (PemFile key_type (KeyBytes k)))"

definition pki_write :: "surroundings \<Rightarrow> pki_ref \<Rightarrow> unit act" where
  "pki_write su p =
     and_then (mkdir_all su (path_dir (rf_cert_path p))) (\<lambda>_.
     and_then (cert_data p) (\<lambda>cert_pem.
     and_then (write_content su (rf_cert_path p) cert_pem) (\<lambda>_.
     and_then (key_data p) (\<lambda>key_pem.
     write_content su (rf_key_path p) key_pem))))"

text \<open>\<open>TLSCertificate\<close>: the certificate and its key must be there and belong together.\<close>

definition tls_certificate :: "world \<Rightarrow> pki_ref \<Rightarrow> cert option" where
  "tls_certificate w p =
     (case (wd_files w (rf_cert_path p), wd_files w (rf_key_path p)) of
        (Some (PemFile t (CertBytes c)), Some (PemFile u (KeyBytes k))) \<Rightarrow>
          if t = certificate_type \<and> u = key_type \<and> ct_key c = k then Some c else None
      | _ \<Rightarrow> None)"

subsection \<open>Certificate authorities\<close>

text \<open>The key of \<open>p\<close>, generated when there is none.\<close>

definition ensure_key :: "pki_ref \<Rightarrow> pki_ref act" where
  "ensure_key p =
     (case rf_key p of
        Some _ \<Rightarrow> give p
      | None \<Rightarrow> and_then fresh_key (\<lambda>k. give (p\<lparr>rf_key := Some k\<rparr>)))"

definition ca_template :: "surroundings \<Rightarrow> authority \<Rightarrow> nat \<Rightarrow> cert" where
  "ca_template su ca k =
     \<lparr>ct_cn = au_name ca, ct_o = [], ct_san = [], ct_ip = [], ct_key = k, ct_signer = k, ct_ca = True,
      ct_usages = [ServerAuth, ClientAuth], ct_from = su_now su,
      ct_until = su_now su + clamp (au_lifetime ca) cert_lifetime_min cert_lifetime_max\<rparr>"

definition ca_init :: "surroundings \<Rightarrow> authority \<Rightarrow> pki_ref \<Rightarrow> authority act" where
  "ca_init su ca p =
     and_then (pki_read su p) (\<lambda>p1.
     and_then (ensure_key p1) (\<lambda>p2.
       if rf_cert p2 = None then
         let c = ca_template su ca (the (rf_key p2)) in
         and_then (check (su_template su c) ''failed to create certificate'') (\<lambda>_.
           let p3 = p2\<lparr>rf_cert := Some c\<rparr> in
           and_then (pki_write su p3) (\<lambda>_. give (ca\<lparr>au_ref := p3\<rparr>)))
       else give (ca\<lparr>au_ref := p2\<rparr>)))"

text \<open>\<open>certificateForRequest\<close> and \<open>Sign\<close>.\<close>

definition certificate_for_request :: "surroundings \<Rightarrow> authority \<Rightarrow> cert_request \<Rightarrow> csr \<Rightarrow> cert act" where
  "certificate_for_request su ca req c =
     and_then (check (cs_signer c = cs_key c) ''invalid request self signature'') (\<lambda>_.
       give \<lparr>ct_cn = cs_cn c, ct_o = cs_o c, ct_san = cs_san c, ct_ip = cs_ip c, ct_key = cs_key c,
             ct_signer = the (rf_key (au_ref ca)), ct_ca = False, ct_usages = cr_usages req,
             ct_from = su_now su,
             ct_until = su_now su + clamp (cr_lifetime req) cert_lifetime_min cert_lifetime_max\<rparr>)"

definition sign :: "surroundings \<Rightarrow> authority \<Rightarrow> cert_request \<Rightarrow> csr \<Rightarrow> cert act" where
  "sign su ca req c =
     (if rf_cert (au_ref ca) = None \<or> rf_key (au_ref ca) = None
      then throw (Error ''ca certificate or key not loaded'')
      else and_then (certificate_for_request su ca req c) (\<lambda>tmpl.
           and_then (check (su_template su tmpl) ''create certificate'') (\<lambda>_. give tmpl)))"

definition csr_of :: "cert_request \<Rightarrow> nat \<Rightarrow> csr" where
  "csr_of req k =
     \<lparr>cs_cn = cr_cn req, cs_o = cr_o req, cs_san = cr_san req, cs_ip = cr_ip req, cs_key = k, cs_signer = k\<rparr>"

text \<open>\<open>Certificate\<close>.\<close>

definition issue_certificate :: "surroundings \<Rightarrow> authority \<Rightarrow> pki_ref \<Rightarrow> cert_request \<Rightarrow> unit act" where
  "issue_certificate su ca p req =
     and_then (pki_read su p) (\<lambda>p1.
     and_then (ensure_key p1) (\<lambda>p2.
     and_then
       (if rf_cert p2 = None then
          let c = csr_of req (the (rf_key p2)) in
          and_then (check (su_csr su c) ''create certificate request'') (\<lambda>_.
          and_then (sign su ca req c) (\<lambda>crt. give (p2\<lparr>rf_cert := Some crt\<rparr>)))
        else give p2)
       (pki_write su)))"

text \<open>\<open>CA\<close>: cached, or initialised now; nil, with what has been written, when that fails.\<close>

definition get_ca :: "surroundings \<Rightarrow> (ca_name \<Rightarrow> pki_ref) \<Rightarrow> (ca_name \<Rightarrow> string) \<Rightarrow> ca_name \<Rightarrow> authority option act" where
  "get_ca su ca_ref ca_text n w =
     (case map_of (wd_cas w) n of
        Some ca \<Rightarrow> (w, Inr (Some ca))
      | None \<Rightarrow>
          (case ca_init su \<lparr>au_name = ca_text n, au_lifetime = 0, au_ref = ca_ref n\<rparr> (ca_ref n) w of
             (w', Inl _) \<Rightarrow> (w', Inr None)
           | (w', Inr ca) \<Rightarrow> (w'\<lparr>wd_cas := gm_store n ca (wd_cas w')\<rparr>, Inr (Some ca))))"

subsection \<open>What success means\<close>

lemma read_key_success:
  "read_key p w = (w', Inr q) \<Longrightarrow>
     w' = w \<and> rf_cert q = rf_cert p \<and> rf_cert_path q = rf_cert_path p \<and> rf_key_path q = rf_key_path p \<and>
     (rf_key q = rf_key p \<or> (\<exists>k. wd_files w (rf_key_path p) = Some (PemFile key_type (KeyBytes k)) \<and> rf_key q = Some k))"
  by (auto simp: read_key_def success_iff split: option.splits content.splits pem_body.splits if_splits)

text \<open>Reading never sets the certificate.\<close>

lemma pki_read_success:
  assumes "pki_read su p w = (w', Inr q)"
  shows "w' = w \<and> rf_cert q = rf_cert p \<and> rf_cert_path q = rf_cert_path p \<and> rf_key_path q = rf_key_path p \<and>
     (rf_key q = rf_key p \<or> (\<exists>k. wd_files w (rf_key_path p) = Some (PemFile key_type (KeyBytes k)) \<and> rf_key q = Some k))"
  using assms
  by (auto simp: pki_read_def success_iff dest: read_key_success split: option.splits content.splits pem_body.splits if_splits)

lemma ensure_key_success:
  assumes "ensure_key p w = (w', Inr q)"
  shows "\<exists>k. rf_key q = Some k \<and> q = p\<lparr>rf_key := Some k\<rparr> \<and> wd_files w' = wd_files w \<and> wd_cas w' = wd_cas w \<and>
    (rf_key p = Some k \<or> k = wd_next_key w)"
  using assms by (cases p) (auto simp: ensure_key_def success_iff split: option.splits)

lemma pki_write_success:
  "pki_write su p w = (w', Inr ()) \<Longrightarrow>
     \<exists>c k. rf_cert p = Some c \<and> rf_key p = Some k \<and>
       w' = w\<lparr>wd_files := (wd_files w)(rf_cert_path p \<mapsto> PemFile certificate_type (CertBytes c),
                                      rf_key_path p \<mapsto> PemFile key_type (KeyBytes k))\<rparr>"
  by (auto simp: pki_write_def cert_data_def key_data_def success_iff split: option.splits)

definition leaf_cert :: "surroundings \<Rightarrow> cert_request \<Rightarrow> nat \<Rightarrow> nat \<Rightarrow> cert" where
  "leaf_cert su req ck k =
     \<lparr>ct_cn = cr_cn req, ct_o = cr_o req, ct_san = cr_san req, ct_ip = cr_ip req, ct_key = k, ct_signer = ck,
      ct_ca = False, ct_usages = cr_usages req, ct_from = su_now su,
      ct_until = su_now su + clamp (cr_lifetime req) cert_lifetime_min cert_lifetime_max\<rparr>"

text \<open>A certificate has been written beside its key.\<close>

definition stored :: "world \<Rightarrow> pki_ref \<Rightarrow> cert \<Rightarrow> bool" where
  "stored w p c \<longleftrightarrow>
     wd_files w (rf_cert_path p) = Some (PemFile certificate_type (CertBytes c)) \<and>
     wd_files w (rf_key_path p) = Some (PemFile key_type (KeyBytes (ct_key c)))"

lemma tls_certificate_stored: "stored w p c \<Longrightarrow> tls_certificate w p = Some c"
  by (simp add: stored_def tls_certificate_def)

definition same_except :: "string set \<Rightarrow> world \<Rightarrow> world \<Rightarrow> bool" where
  "same_except ps w w' \<longleftrightarrow> (\<forall>p. p \<notin> ps \<longrightarrow> wd_files w' p = wd_files w p)"

lemma sign_success:
  "sign su ca req (csr_of req k) w = (w', Inr c) \<Longrightarrow>
     w' = w \<and> (\<exists>ck. rf_key (au_ref ca) = Some ck \<and> c = leaf_cert su req ck k)"
  by (auto simp: sign_def certificate_for_request_def csr_of_def leaf_cert_def success_iff split: if_splits)

lemma issue_success:
  assumes "issue_certificate su ca p req w = (w', Inr ())" "rf_cert p = None" "rf_key p = None"
    and "rf_cert_path p \<noteq> rf_key_path p"
  shows "\<exists>ck k. rf_key (au_ref ca) = Some ck \<and> stored w' p (leaf_cert su req ck k) \<and>
    same_except {rf_cert_path p, rf_key_path p} w w' \<and> wd_cas w' = wd_cas w"
proof -
  obtain p1 p2 p3 w1 w2 w3 where steps: "pki_read su p w = (w1, Inr p1)" "ensure_key p1 w1 = (w2, Inr p2)"
      "(if rf_cert p2 = None then
          let c = csr_of req (the (rf_key p2)) in
          and_then (check (su_csr su c) ''create certificate request'') (\<lambda>_.
          and_then (sign su ca req c) (\<lambda>crt. give (p2\<lparr>rf_cert := Some crt\<rparr>)))
        else give p2) w2 = (w3, Inr p3)" "pki_write su p3 w3 = (w', Inr ())"
    using assms(1) unfolding issue_certificate_def success_iff by blast
  have p1: "w1 = w" "rf_cert p1 = None" "rf_cert_path p1 = rf_cert_path p" "rf_key_path p1 = rf_key_path p"
    using pki_read_success[OF steps(1)] assms(2) by simp_all
  obtain k where p2: "rf_key p2 = Some k" "p2 = p1\<lparr>rf_key := Some k\<rparr>" "wd_files w2 = wd_files w" "wd_cas w2 = wd_cas w"
    using ensure_key_success[OF steps(2)] p1(1) by auto
  obtain c where p3: "sign su ca req (csr_of req k) w2 = (w3, Inr c)" "p3 = p2\<lparr>rf_cert := Some c\<rparr>"
    using steps(3) p1(2) p2(1,2) by (auto simp: Let_def success_iff)
  obtain ck where s: "w3 = w2" "rf_key (au_ref ca) = Some ck" "c = leaf_cert su req ck k"
    using sign_success[OF p3(1)] by blast
  have "rf_cert p3 = Some c" "rf_key p3 = Some k" "rf_cert_path p3 = rf_cert_path p" "rf_key_path p3 = rf_key_path p"
    using p1 p2 p3(2) by simp_all
  then have w': "w' = w2\<lparr>wd_files := (wd_files w)(rf_cert_path p \<mapsto> PemFile certificate_type (CertBytes c),
      rf_key_path p \<mapsto> PemFile key_type (KeyBytes k))\<rparr>"
    using pki_write_success[OF steps(4)] s(1) p2(3) by auto
  have "ct_key c = k"
    by (simp add: s(3) leaf_cert_def)
  then have "stored w' p (leaf_cert su req ck k)" "same_except {rf_cert_path p, rf_key_path p} w w'" "wd_cas w' = wd_cas w"
    using assms(4) p2(4) unfolding w' s(3)[symmetric] by (simp_all add: stored_def same_except_def)
  then show ?thesis
    using s(2) by blast
qed

text \<open>A certificate authority that is ready: its certificate is its own, and it has been written.\<close>

definition authority_ok :: "(ca_name \<Rightarrow> pki_ref) \<Rightarrow> world \<Rightarrow> ca_name \<Rightarrow> authority \<Rightarrow> bool" where
  "authority_ok ca_ref w n ca \<longleftrightarrow>
     (\<exists>c. rf_cert (au_ref ca) = Some c \<and> rf_key (au_ref ca) = Some (ct_key c) \<and> ct_signer c = ct_key c \<and>
        ct_ca c \<and> stored w (ca_ref n) c)"

lemma ca_init_success:
  assumes "ca_init su ca p w = (w', Inr ca')" "rf_cert p = None" "rf_key p = None"
    and "rf_cert_path p \<noteq> rf_key_path p"
  shows "\<exists>k. let c = ca_template su ca k in
    rf_cert (au_ref ca') = Some c \<and> rf_key (au_ref ca') = Some k \<and> stored w' p c \<and>
    same_except {rf_cert_path p, rf_key_path p} w w' \<and> wd_cas w' = wd_cas w"
proof -
  obtain p1 p2 w1 w2 where steps: "pki_read su p w = (w1, Inr p1)" "ensure_key p1 w1 = (w2, Inr p2)"
      "(if rf_cert p2 = None then
         let c = ca_template su ca (the (rf_key p2)) in
         and_then (check (su_template su c) ''failed to create certificate'') (\<lambda>_.
           let p3 = p2\<lparr>rf_cert := Some c\<rparr> in
           and_then (pki_write su p3) (\<lambda>_. give (ca\<lparr>au_ref := p3\<rparr>)))
       else give (ca\<lparr>au_ref := p2\<rparr>)) w2 = (w', Inr ca')"
    using assms(1) unfolding ca_init_def success_iff by blast
  have p1: "w1 = w" "rf_cert p1 = None" "rf_cert_path p1 = rf_cert_path p" "rf_key_path p1 = rf_key_path p"
    using pki_read_success[OF steps(1)] assms(2) by simp_all
  obtain k where p2: "p2 = p1\<lparr>rf_key := Some k\<rparr>" "wd_files w2 = wd_files w" "wd_cas w2 = wd_cas w"
    using ensure_key_success[OF steps(2)] p1(1) by auto
  define c where "c = ca_template su ca k"
  have "pki_write su (p2\<lparr>rf_cert := Some c\<rparr>) w2 = (w', Inr ())" and ca': "ca' = ca\<lparr>au_ref := p2\<lparr>rf_cert := Some c\<rparr>\<rparr>"
    using steps(3) p1(2) p2(1) by (auto simp: Let_def success_iff c_def)
  then have w': "w' = w2\<lparr>wd_files := (wd_files w)(rf_cert_path p \<mapsto> PemFile certificate_type (CertBytes c),
      rf_key_path p \<mapsto> PemFile key_type (KeyBytes k))\<rparr>"
    using p1 p2 by (auto dest: pki_write_success)
  have "ct_key c = k"
    by (simp add: c_def ca_template_def)
  then have "stored w' p c" "same_except {rf_cert_path p, rf_key_path p} w w'" "wd_cas w' = wd_cas w"
    using assms(4) p2(3) by (simp_all add: w' stored_def same_except_def)
  then show ?thesis
    using p2(1) by (intro exI[of _ k]) (simp add: ca' c_def[symmetric])
qed

subsection \<open>Chains\<close>

definition ref_paths :: "pki_ref \<Rightarrow> string set" where
  "ref_paths p = {rf_cert_path p, rf_key_path p}"

lemma same_except_trans: "same_except ps u v \<Longrightarrow> same_except qs v w \<Longrightarrow> same_except (ps \<union> qs) u w"
  by (simp add: same_except_def)

lemma stored_frame:
  "stored w p c \<Longrightarrow> same_except ps w w' \<Longrightarrow> ps \<inter> ref_paths p = {} \<Longrightarrow> stored w' p c"
  by (auto simp: stored_def same_except_def ref_paths_def)

text \<open>One request: \<open>c.CA(r.signer).Certificate(c.certRef(r.name), r)\<close>; a nil authority panics.\<close>

definition issue_step ::
  "surroundings \<Rightarrow> (ca_name \<Rightarrow> pki_ref) \<Rightarrow> (ca_name \<Rightarrow> string) \<Rightarrow> (string \<Rightarrow> pki_ref) \<Rightarrow> cert_request \<Rightarrow> unit act" where
  "issue_step su ca_ref ca_text leaf_ref r =
     and_then (get_ca su ca_ref ca_text (cr_signer r)) (\<lambda>ca.
       case ca of
         None \<Rightarrow> throw Panic
       | Some ca' \<Rightarrow> issue_certificate su ca' (leaf_ref (cr_name r)) r)"

definition cas_ok :: "(ca_name \<Rightarrow> pki_ref) \<Rightarrow> world \<Rightarrow> bool" where
  "cas_ok ca_ref w \<longleftrightarrow> (\<forall>n ca. map_of (wd_cas w) n = Some ca \<longrightarrow> authority_ok ca_ref w n ca)"

text \<open>The leaf of a request is stored with its key, under a signer whose own certificate is stored.\<close>

definition chain_ok ::
  "surroundings \<Rightarrow> (ca_name \<Rightarrow> pki_ref) \<Rightarrow> (string \<Rightarrow> pki_ref) \<Rightarrow> world \<Rightarrow> cert_request \<Rightarrow> bool" where
  "chain_ok su ca_ref leaf_ref w r \<longleftrightarrow>
     (\<exists>ca cc k. map_of (wd_cas w) (cr_signer r) = Some ca \<and> rf_cert (au_ref ca) = Some cc \<and>
        ct_ca cc \<and> ct_signer cc = ct_key cc \<and> stored w (ca_ref (cr_signer r)) cc \<and>
        stored w (leaf_ref (cr_name r)) (leaf_cert su r (ct_key cc) k))"

text \<open>What the issue of certificates needs of the layout of the files.\<close>

locale pki_layout =
  fixes ca_ref :: "ca_name \<Rightarrow> pki_ref"
    and leaf_ref :: "string \<Rightarrow> pki_ref"
    and name_ok :: "string \<Rightarrow> bool"
  assumes ca_fresh: "rf_cert (ca_ref n) = None" "rf_key (ca_ref n) = None" "rf_cert_path (ca_ref n) \<noteq> rf_key_path (ca_ref n)"
    and leaf_fresh: "rf_cert (leaf_ref a) = None" "rf_key (leaf_ref a) = None"
      "name_ok a \<Longrightarrow> rf_cert_path (leaf_ref a) \<noteq> rf_key_path (leaf_ref a)"
    and ca_apart: "n \<noteq> m \<Longrightarrow> ref_paths (ca_ref n) \<inter> ref_paths (ca_ref m) = {}"
    and leaf_apart: "name_ok a \<Longrightarrow> name_ok b \<Longrightarrow> a \<noteq> b \<Longrightarrow> ref_paths (leaf_ref a) \<inter> ref_paths (leaf_ref b) = {}"
    and ca_leaf_apart: "name_ok a \<Longrightarrow> ref_paths (ca_ref n) \<inter> ref_paths (leaf_ref a) = {}"
begin

lemma authority_frame:
  "authority_ok ca_ref w n ca \<Longrightarrow> same_except ps w w' \<Longrightarrow> ps \<inter> ref_paths (ca_ref n) = {} \<Longrightarrow>
     authority_ok ca_ref w' n ca"
  unfolding authority_ok_def using stored_frame by blast

lemma get_ca_success:
  assumes "get_ca su ca_ref ca_text n w = (w', Inr (Some ca))" "cas_ok ca_ref w"
  shows "cas_ok ca_ref w' \<and> map_of (wd_cas w') n = Some ca \<and> authority_ok ca_ref w' n ca \<and>
    (\<forall>m. map_of (wd_cas w) m \<noteq> None \<longrightarrow> map_of (wd_cas w') m = map_of (wd_cas w) m) \<and>
    (if map_of (wd_cas w) n = None then same_except (ref_paths (ca_ref n)) w w' else w' = w)"
proof (cases "map_of (wd_cas w) n")
  case (Some c)
  then show ?thesis
    using assms by (auto simp: get_ca_def cas_ok_def)
next
  case None
  obtain v where init: "ca_init su \<lparr>au_name = ca_text n, au_lifetime = 0, au_ref = ca_ref n\<rparr> (ca_ref n) w = (v, Inr ca)"
      and w': "w' = v\<lparr>wd_cas := gm_store n ca (wd_cas v)\<rparr>"
    using assms(1) None by (auto simp: get_ca_def split: prod.splits sum.splits)
  obtain k where k: "let c = ca_template su \<lparr>au_name = ca_text n, au_lifetime = 0, au_ref = ca_ref n\<rparr> k in
      rf_cert (au_ref ca) = Some c \<and> rf_key (au_ref ca) = Some k \<and> stored v (ca_ref n) c \<and>
      same_except (ref_paths (ca_ref n)) w v \<and> wd_cas v = wd_cas w"
    using ca_init_success[OF init ca_fresh] by (auto simp: ref_paths_def)
  have files: "wd_files w' = wd_files v"
    by (simp add: w')
  have same: "same_except (ref_paths (ca_ref n)) w w'"
    using k files by (simp add: Let_def same_except_def)
  have self: "authority_ok ca_ref w' n ca"
    using k files by (auto simp: authority_ok_def stored_def ca_template_def Let_def)
  have look: "map_of (wd_cas w') m = (if m = n then Some ca else map_of (wd_cas w) m)" for m
    using k by (simp add: w' map_of_gm_store Let_def)
  have "authority_ok ca_ref w' m c" if "map_of (wd_cas w') m = Some c" for m c
  proof (cases "m = n")
    case True
    then show ?thesis using self that look by simp
  next
    case False
    then have "authority_ok ca_ref w m c"
      using that look assms(2) by (simp add: cas_ok_def)
    then show ?thesis
      using same ca_apart[OF False] by (rule_tac authority_frame) auto
  qed
  then show ?thesis
    using None same self look by (auto simp: cas_ok_def)
qed

lemma issue_step_success:
  assumes "issue_step su ca_ref ca_text leaf_ref r w = (w', Inr ())" "cas_ok ca_ref w" "name_ok (cr_name r)"
  shows "cas_ok ca_ref w' \<and> chain_ok su ca_ref leaf_ref w' r \<and>
    (\<forall>m. map_of (wd_cas w) m \<noteq> None \<longrightarrow> map_of (wd_cas w') m = map_of (wd_cas w) m) \<and>
    (if map_of (wd_cas w) (cr_signer r) = None
     then same_except (ref_paths (ca_ref (cr_signer r)) \<union> ref_paths (leaf_ref (cr_name r))) w w'
     else same_except (ref_paths (leaf_ref (cr_name r))) w w')"
proof -
  let ?n = "cr_signer r"
  obtain v ca where g: "get_ca su ca_ref ca_text ?n w = (v, Inr (Some ca))"
      and i: "issue_certificate su ca (leaf_ref (cr_name r)) r v = (w', Inr ())"
    using assms(1) by (auto simp: issue_step_def success_iff split: option.splits)
  note ca = get_ca_success[OF g assms(2)]
  obtain ck k where leaf: "rf_key (au_ref ca) = Some ck" "stored w' (leaf_ref (cr_name r)) (leaf_cert su r ck k)"
      "same_except (ref_paths (leaf_ref (cr_name r))) v w'" "wd_cas w' = wd_cas v"
    using issue_success[OF i leaf_fresh(1,2) leaf_fresh(3)[OF assms(3)]] by (auto simp: ref_paths_def)
  have kept: "authority_ok ca_ref w' m c" if "map_of (wd_cas w') m = Some c" for m c
  proof -
    have "authority_ok ca_ref v m c"
      using that ca leaf(4) by (simp add: cas_ok_def)
    then show ?thesis
      using leaf(3) ca_leaf_apart[OF assms(3), of m] by (rule_tac authority_frame) auto
  qed
  have now: "map_of (wd_cas w') ?n = Some ca"
    using ca leaf(4) by simp
  then obtain cc where cc: "rf_cert (au_ref ca) = Some cc" "rf_key (au_ref ca) = Some (ct_key cc)" "ct_signer cc = ct_key cc"
      "ct_ca cc" "stored w' (ca_ref ?n) cc"
    using kept by (auto simp: authority_ok_def)
  then have "chain_ok su ca_ref leaf_ref w' r"
    using now leaf(1,2) by (auto simp: chain_ok_def)
  moreover have "cas_ok ca_ref w'"
    using kept by (simp add: cas_ok_def)
  ultimately show ?thesis
    using ca leaf(3,4) by (auto simp: same_except_def)
qed

text \<open>A chain survives whatever touches neither of its two references, and the issue of another leaf.\<close>

lemma chain_frame:
  assumes "chain_ok su ca_ref leaf_ref w r" "same_except ps w w'"
    and "map_of (wd_cas w') (cr_signer r) = map_of (wd_cas w) (cr_signer r)"
    and "ps \<inter> ref_paths (ca_ref (cr_signer r)) = {}" "ps \<inter> ref_paths (leaf_ref (cr_name r)) = {}"
  shows "chain_ok su ca_ref leaf_ref w' r"
  using assms stored_frame unfolding chain_ok_def by metis

lemma issue_step_keeps_chain:
  assumes "issue_step su ca_ref ca_text leaf_ref r w = (w', Inr ())" "cas_ok ca_ref w" "name_ok (cr_name r)"
    and "chain_ok su ca_ref leaf_ref w q" "name_ok (cr_name q)" "cr_name q \<noteq> cr_name r"
  shows "chain_ok su ca_ref leaf_ref w' q"
proof -
  note step = issue_step_success[OF assms(1-3)]
  have q: "map_of (wd_cas w) (cr_signer q) \<noteq> None"
    using assms(4) by (auto simp: chain_ok_def)
  have look: "map_of (wd_cas w') (cr_signer q) = map_of (wd_cas w) (cr_signer q)"
    using step q by blast
  have leaf: "ref_paths (leaf_ref (cr_name r)) \<inter> ref_paths (leaf_ref (cr_name q)) = {}"
    by (rule leaf_apart) (use assms in auto)
  show ?thesis
  proof (cases "map_of (wd_cas w) (cr_signer r) = None")
    case True
    then have "cr_signer q \<noteq> cr_signer r"
      using q by auto
    then have "(ref_paths (ca_ref (cr_signer r)) \<union> ref_paths (leaf_ref (cr_name r))) \<inter> ref_paths (ca_ref (cr_signer q)) = {}"
      using ca_apart[of "cr_signer r" "cr_signer q"] ca_leaf_apart[OF assms(3), of "cr_signer q"] by auto
    moreover have "(ref_paths (ca_ref (cr_signer r)) \<union> ref_paths (leaf_ref (cr_name r))) \<inter> ref_paths (leaf_ref (cr_name q)) = {}"
      using ca_leaf_apart[OF assms(5), of "cr_signer r"] leaf by auto
    ultimately show ?thesis
      using step True look by (intro chain_frame[OF assms(4)]) auto
  next
    case False
    then show ?thesis
      using step look leaf ca_leaf_apart[OF assms(3), of "cr_signer q"]
      by (intro chain_frame[OF assms(4)]) auto
  qed
qed

end

end
