(* ===== verification/Ref.thy ===== *)
theory Ref
  imports World Go_Path
begin

section \<open>Configuration files (pkg/ref/ref.go)\<close>

text \<open>
  References to configuration files and kubeconfigs and how they are written. Text is ASCII here:
  \<open>TrimSpace\<close> takes the ASCII white space away.
\<close>

definition tab :: char where
  "tab = char_of (9 :: nat)"

definition line_end :: char where
  "line_end = char_of (10 :: nat)"

definition is_space :: "char \<Rightarrow> bool" where
  "is_space c \<longleftrightarrow> (of_char c :: nat) \<in> {9, 10, 11, 12, 13, 32}"

definition trim_space :: "string \<Rightarrow> string" where
  "trim_space s = rev (dropWhile is_space (rev (dropWhile is_space s)))"

definition expand_tabs :: "string \<Rightarrow> string" where
  "expand_tabs s = concat (map (\<lambda>c. if c = tab then ''  '' else [c]) s)"

text \<open>What both \<open>Write\<close> methods compute; only that of \<open>Config\<close> writes it.\<close>

definition normal_text :: "string \<Rightarrow> string" where
  "normal_text data =
     (let m = expand_tabs (trim_space data)
      in if has_suffix m [line_end] then m else m @ [line_end])"

definition config_write :: "surroundings \<Rightarrow> string \<Rightarrow> string \<Rightarrow> unit act" where
  "config_write su path data =
     and_then (mkdir_all su (path_dir path)) (\<lambda>_. write_content su path (TextFile (normal_text data)))"

text \<open>\<open>KubeConfig.Write\<close> writes its data as they are.\<close>

definition kubeconfig_write :: "surroundings \<Rightarrow> string \<Rightarrow> content \<Rightarrow> unit act" where
  "kubeconfig_write su path data =
     and_then (mkdir_all su (path_dir path)) (\<lambda>_. write_content su path data)"

text \<open>\<open>encoded\<close> is what the JSON encoder gives for the object, with the indentation of the code.\<close>

definition config_write_object :: "surroundings \<Rightarrow> string \<Rightarrow> failure + string \<Rightarrow> unit act" where
  "config_write_object su path encoded =
     and_then (mkdir_all su (path_dir path)) (\<lambda>_.
       case encoded of
         Inl e \<Rightarrow> throw e
       | Inr t \<Rightarrow> write_content su path (TextFile t))"

lemma config_write_success [success_iff]:
  "config_write su p d w = (w', Inr u) \<longleftrightarrow>
     su_mkdir su (path_dir p) \<and> su_write su p \<and> w' = w\<lparr>wd_files := (wd_files w)(p \<mapsto> TextFile (normal_text d))\<rparr>"
  by (auto simp: config_write_def success_iff)

lemma kubeconfig_write_success [success_iff]:
  "kubeconfig_write su p c w = (w', Inr u) \<longleftrightarrow>
     su_mkdir su (path_dir p) \<and> su_write su p \<and> w' = w\<lparr>wd_files := (wd_files w)(p \<mapsto> c)\<rparr>"
  by (auto simp: kubeconfig_write_def success_iff)

lemma config_write_object_success [success_iff]:
  "config_write_object su p enc w = (w', Inr u) \<longleftrightarrow>
     su_mkdir su (path_dir p) \<and> su_write su p \<and>
     (\<exists>t. enc = Inr t \<and> w' = w\<lparr>wd_files := (wd_files w)(p \<mapsto> TextFile t)\<rparr>)"
  by (auto simp: config_write_object_def success_iff split: sum.splits)

subsection \<open>The normal form\<close>

lemma is_space_tab [simp]: "is_space tab" and is_space_line_end [simp]: "is_space line_end"
  and line_end_not_tab [simp]: "line_end \<noteq> tab"
  by (simp_all add: is_space_def tab_def line_end_def)

lemma blank_not_tab [simp]: "CHR '' '' \<noteq> tab" "tab \<noteq> CHR '' ''"
proof -
  show *: "tab \<noteq> CHR '' ''"
    by (simp add: tab_def char_of_eq_iff)
  show "CHR '' '' \<noteq> tab"
    using * by simp
qed

lemma expand_tabs_no_tab: "tab \<notin> set (expand_tabs s)"
  by (auto simp: expand_tabs_def split: if_splits)

lemma expand_tabs_id: "tab \<notin> set s \<Longrightarrow> expand_tabs s = s"
  by (induction s) (auto simp: expand_tabs_def)

lemma expand_tabs_snoc: "expand_tabs (s @ [c]) = expand_tabs s @ (if c = tab then ''  '' else [c])"
  by (simp add: expand_tabs_def)

lemma trim_space_ends:
  "trim_space s = [] \<or> \<not> is_space (hd (trim_space s)) \<and> \<not> is_space (last (trim_space s))"
proof (cases "trim_space s = []")
  case False
  let ?d = "dropWhile is_space s"
  have ne: "dropWhile is_space (rev ?d) \<noteq> []"
    using False by (simp add: trim_space_def)
  then have l: "\<not> is_space (last (trim_space s))"
    using hd_dropWhile[OF ne] by (simp add: trim_space_def last_rev)
  obtain xs where xs: "rev ?d = xs @ dropWhile is_space (rev ?d)"
    by (metis takeWhile_dropWhile_id)
  then have "?d = trim_space s @ rev xs"
    by (metis rev_append rev_rev_ident trim_space_def)
  then have "hd (trim_space s) = hd ?d" "?d \<noteq> []"
    using False ne by (metis hd_append2, auto)
  then show ?thesis
    using l hd_dropWhile[of is_space s] by simp
qed simp

lemma dropWhile_first: "\<not> is_space (hd s) \<Longrightarrow> dropWhile is_space s = s"
  by (cases s) auto

lemma trim_space_id: "s = [] \<or> \<not> is_space (hd s) \<and> \<not> is_space (last s) \<Longrightarrow> trim_space s = s"
  by (auto simp: trim_space_def dropWhile_first hd_rev)

lemma trim_line:
  assumes "s = [] \<or> \<not> is_space (hd s) \<and> \<not> is_space (last s)"
  shows "trim_space (s @ [line_end]) = s"
proof (cases "s = []")
  case True
  then show ?thesis by (simp add: trim_space_def)
next
  case False
  then have "dropWhile is_space (s @ [line_end]) = s @ [line_end]"
    using assms by (intro dropWhile_first) simp
  moreover have "dropWhile is_space (rev s) = rev s"
    using False assms by (intro dropWhile_first) (simp add: hd_rev)
  ultimately show ?thesis
    by (simp add: trim_space_def)
qed

lemma expand_tabs_ends:
  assumes "s \<noteq> []" "hd s \<noteq> tab" "last s \<noteq> tab"
  shows "expand_tabs s \<noteq> [] \<and> hd (expand_tabs s) = hd s \<and> last (expand_tabs s) = last s"
proof -
  obtain xs c where s: "s = xs @ [c]"
    using assms(1) by (metis rev_exhaust)
  have "expand_tabs s = expand_tabs xs @ [c]"
    using assms(3) s by (simp add: expand_tabs_snoc)
  moreover have "hd (expand_tabs s) = hd s"
    using assms(1,2) by (cases s) (simp_all add: expand_tabs_def)
  ultimately show ?thesis
    using s by simp
qed

text \<open>The body of the text: it neither starts nor ends with white space, nor has it tabs.\<close>

lemma body_ends:
  "let m = expand_tabs (trim_space d) in m = [] \<or> \<not> is_space (hd m) \<and> \<not> is_space (last m)"
proof (cases "trim_space d = []")
  case False
  then have e: "\<not> is_space (hd (trim_space d))" "\<not> is_space (last (trim_space d))"
    using trim_space_ends[of d] by auto
  then have "hd (trim_space d) \<noteq> tab" "last (trim_space d) \<noteq> tab"
    by auto
  then show ?thesis
    using expand_tabs_ends[OF False] e by (simp add: Let_def)
qed (simp add: expand_tabs_def)

lemma normal_text_eq: "normal_text d = expand_tabs (trim_space d) @ [line_end]"
proof -
  let ?m = "expand_tabs (trim_space d)"
  have "\<not> has_suffix ?m [line_end]"
  proof
    assume "has_suffix ?m [line_end]"
    then obtain r where "?m = r @ [line_end]"
      by (auto dest: has_suffixE)
    then show False
      using body_ends[of d] by (simp add: Let_def)
  qed
  then show ?thesis
    by (simp add: normal_text_def Let_def)
qed

lemma normal_text_idem: "normal_text (normal_text d) = normal_text d"
proof -
  let ?m = "expand_tabs (trim_space d)"
  have "trim_space (normal_text d) = ?m"
    unfolding normal_text_eq[of d] by (rule trim_line) (use body_ends[of d] in \<open>simp add: Let_def\<close>)
  then show ?thesis
    unfolding normal_text_eq[of "normal_text d"] by (simp add: expand_tabs_id expand_tabs_no_tab normal_text_eq)
qed

lemma normal_text_shape: "tab \<notin> set (normal_text d) \<and> last (normal_text d) = line_end"
  using line_end_not_tab by (simp add: normal_text_eq expand_tabs_no_tab del: line_end_not_tab)

end
