(* ===== verification/Keys.thy ===== *)
theory Keys
  imports World Go_Path Json_Decode
begin

section \<open>Key sets, the KMS plugin and the JWT signer (plugins.go)\<close>

text \<open>
  The two key sets of the control plane and the two gRPC services that use them. JOSE encryption,
  ECDSA and the hash functions are arguments.
\<close>

record jwks_ref =
  jr_path :: string
  jr_jwks :: "jwk list option"

definition default_key_id :: string where
  "default_key_id = ''default''"

text \<open>\<open>JSONWebKeySet.Key\<close>.\<close>

definition keys_with :: "string \<Rightarrow> jwk list \<Rightarrow> jwk list" where
  "keys_with kid ks = filter (\<lambda>k. jk_kid k = kid) ks"

definition jwks_validate :: "jwks_ref \<Rightarrow> failure option" where
  "jwks_validate jkr = (case jr_jwks jkr of None \<Rightarrow> Some (Error ''jkr.jwks not set'') | Some _ \<Rightarrow> None)"

text \<open>
  \<open>Read\<close>: the reference afterwards and the error. A file that cannot be decoded leaves an empty
  set behind.
\<close>

definition jwks_read :: "world \<Rightarrow> jwks_ref \<Rightarrow> jwks_ref \<times> failure option" where
  "jwks_read w jkr =
     (case wd_files w (jr_path jkr) of
        None \<Rightarrow> (jkr, Some (Error ''open''))
      | Some (KeySetFile ks) \<Rightarrow> (jkr\<lparr>jr_jwks := Some ks\<rparr>, jwks_validate (jkr\<lparr>jr_jwks := Some ks\<rparr>))
      | Some _ \<Rightarrow> (jkr\<lparr>jr_jwks := Some []\<rparr>, Some (Error ''decode'')))"

lemma jwks_validate_set [simp]: "jr_jwks jkr = Some ks \<Longrightarrow> jwks_validate jkr = None"
  by (simp add: jwks_validate_def)

text \<open>A new key for a role.\<close>

definition new_jwk :: "string \<Rightarrow> jwk act" where
  "new_jwk role =
     (if role = ''encryption'' then
        and_then fresh_key (\<lambda>k.
          give \<lparr>jk_kid = default_key_id, jk_use = ''enc'', jk_alg = ''A256GCM'', jk_key = k\<rparr>)
      else if role = ''signing'' then
        and_then fresh_key (\<lambda>k.
          give \<lparr>jk_kid = default_key_id, jk_use = ''sig'', jk_alg = ''ES384'', jk_key = k\<rparr>)
      else throw (Error (''unknown role '' @ role)))"

text \<open>
  \<open>Write\<close>; the key identifier it is given is not used. That the directory can be made is not checked. The
  file is opened without truncating it; the decoder reads the first value of a file only, so
  what it replaces does not matter.
\<close>

definition jwks_write :: "surroundings \<Rightarrow> jwks_ref \<Rightarrow> string \<Rightarrow> string \<Rightarrow> unit act" where
  "jwks_write su jkr want_kid role w =
     (case jwks_read w jkr of
        (_, None) \<Rightarrow> (w, Inr ())
      | (jkr1, Some _) \<Rightarrow>
          let jwks = (case jr_jwks jkr1 of None \<Rightarrow> [] | Some ks \<Rightarrow> ks) in
          if keys_with default_key_id jwks \<noteq> [] then (w, Inr ())
          else and_then (new_jwk role) (\<lambda>jwk. write_content su (jr_path jkr1) (KeySetFile (jwks @ [jwk]))) w)"

subsection \<open>The KMS plugin\<close>

datatype rpc_error = FailedPrecondition | UnknownError

record encrypt_response =
  er_ciphertext :: string
  er_key_id :: string

text \<open>
  \<open>seal\<close> encrypts for one key and serialises, \<open>parse_ok\<close> accepts a serialised text, \<open>unseal\<close> decrypts
  it with a set of keys.
\<close>

definition kms_encrypt :: "(jwk \<Rightarrow> string \<Rightarrow> string option) \<Rightarrow> jwk list \<Rightarrow> string \<Rightarrow> rpc_error + encrypt_response" where
  "kms_encrypt seal jwks plain =
     (case keys_with default_key_id jwks of
        [key] \<Rightarrow>
          (case seal key plain of
             None \<Rightarrow> Inl FailedPrecondition
           | Some c \<Rightarrow> Inr \<lparr>er_ciphertext = c, er_key_id = default_key_id\<rparr>)
      | _ \<Rightarrow> Inl FailedPrecondition)"

definition kms_decrypt ::
  "(string \<Rightarrow> bool) \<Rightarrow> (jwk list \<Rightarrow> string \<Rightarrow> string option) \<Rightarrow> jwk list \<Rightarrow> string \<Rightarrow> rpc_error + string" where
  "kms_decrypt parse_ok unseal jwks ciphertext =
     (if \<not> parse_ok ciphertext then Inl FailedPrecondition
      else case unseal jwks ciphertext of
        None \<Rightarrow> Inl FailedPrecondition
      | Some plain \<Rightarrow> Inr plain)"

record kms_status =
  ks_version :: string
  ks_healthz :: string
  ks_key_id :: string

definition kms_status_of :: kms_status where
  "kms_status_of = \<lparr>ks_version = ''v2'', ks_healthz = ''ok'', ks_key_id = default_key_id\<rparr>"

text \<open>The key set of \<open>RunKMSPlugin\<close> and of \<open>RunJWTSigner\<close>: an error ends the process.\<close>

definition load_keys :: "world \<Rightarrow> jwks_ref \<Rightarrow> failure + jwk list" where
  "load_keys w jkr =
     (case jwks_read w jkr of
        (jkr1, None) \<Rightarrow> (case jr_jwks jkr1 of None \<Rightarrow> Inl (Error ''jkr.jwks not set'') | Some ks \<Rightarrow> Inr ks)
      | (_, Some e) \<Rightarrow> Inl e)"

subsection \<open>The JWT signer\<close>

definition ascii_bytes :: "string \<Rightarrow> nat list" where
  "ascii_bytes s = map of_char s"

text \<open>\<open>big.Int.FillBytes\<close>, the most significant byte first; it panics when the number does not fit.\<close>

definition fill_bytes :: "nat \<Rightarrow> nat \<Rightarrow> nat list option" where
  "fill_bytes n x =
     (if x < 256 ^ n then Some (map (\<lambda>i. x div 256 ^ (n - 1 - i) mod 256) [0..<n]) else None)"

definition bytes_value :: "nat list \<Rightarrow> nat" where
  "bytes_value bs = foldl (\<lambda>a b. 256 * a + b) 0 bs"

datatype hash_alg = SHA256 | SHA384

definition alg_of :: "string \<Rightarrow> (hash_alg \<times> nat) option" where
  "alg_of a = (if a = ''ES256'' then Some (SHA256, 32) else if a = ''ES384'' then Some (SHA384, 48) else None)"

record sign_response =
  sr_header :: string
  sr_signature :: string

datatype sign_result = Signed sign_response | SignError rpc_error | SignPanics

text \<open>The header of a token; empty fields are left out.\<close>

definition token_header :: "string \<Rightarrow> string \<Rightarrow> string \<Rightarrow> json" where
  "token_header alg kid typ =
     JObj (map (\<lambda>(k, v). (k, JStr v)) (filter (\<lambda>(k, v). v \<noteq> []) [(''alg'', alg), (''kid'', kid), (''typ'', typ)]))"

text \<open>\<open>hash\<close> is the hash of a text, \<open>ec_sign\<close> the signature of a hash with a key.\<close>

definition hash_bytes :: "(hash_alg \<Rightarrow> string \<Rightarrow> 'h) \<Rightarrow> hash_alg \<Rightarrow> string list \<Rightarrow> 'h" where
  "hash_bytes hash h bs = hash h (concat bs)"

definition jwt_sign ::
  "(hash_alg \<Rightarrow> string \<Rightarrow> 'h) \<Rightarrow> (nat \<Rightarrow> 'h \<Rightarrow> (nat \<times> nat) option) \<Rightarrow> jwk list \<Rightarrow> string \<Rightarrow> sign_result" where
  "jwt_sign hash ec_sign jwks claims =
     (case keys_with default_key_id jwks of
        [key] \<Rightarrow>
          let base64_header = b64_encode (ascii_bytes (json_text (token_header (jk_alg key) (jk_kid key) ''JWT''))) in
          (case alg_of (jk_alg key) of
             None \<Rightarrow> SignError UnknownError
           | Some (alg, rs_bytes) \<Rightarrow>
               (case ec_sign (jk_key key) (hash_bytes hash alg [base64_header, ''.'', claims]) of
                  None \<Rightarrow> SignError UnknownError
                | Some (sig_r, sig_s) \<Rightarrow>
                    (case (fill_bytes rs_bytes sig_r, fill_bytes rs_bytes sig_s) of
                       (Some srb, Some ssb) \<Rightarrow>
                         Signed \<lparr>sr_header = base64_header, sr_signature = b64_encode (srb @ ssb)\<rparr>
                     | _ \<Rightarrow> SignPanics)))
      | _ \<Rightarrow> SignError FailedPrecondition)"

text \<open>\<open>public\<close> is the encoded public key, if there is one.\<close>

fun fetch_keys :: "(jwk \<Rightarrow> string option) \<Rightarrow> jwk list \<Rightarrow> rpc_error + (string \<times> string) list" where
  "fetch_keys public [] = Inr []"
| "fetch_keys public (k # ks) =
     (case public k of
        None \<Rightarrow> Inl FailedPrecondition
      | Some kb \<Rightarrow>
          (case fetch_keys public ks of
             Inl e \<Rightarrow> Inl e
           | Inr rest \<Rightarrow> Inr ((jk_kid k, kb) # rest)))"

definition max_token_expiration_seconds :: nat where
  "max_token_expiration_seconds = 3600"

subsection \<open>Properties of the KMS plugin\<close>

text \<open>What \<open>Write\<close> leaves behind, when there was no readable key set.\<close>

lemma jwks_write_fresh:
  assumes "jwks_write su \<lparr>jr_path = p, jr_jwks = None\<rparr> kid role w = (w', Inr ())"
    and "\<not> (\<exists>ks. wd_files w p = Some (KeySetFile ks))"
  shows "\<exists>key. wd_files w' = (wd_files w)(p \<mapsto> KeySetFile [key]) \<and> wd_cas w' = wd_cas w \<and>
    jk_kid key = default_key_id \<and> jk_key key = wd_next_key w \<and>
    jk_alg key = (if role = ''encryption'' then ''A256GCM'' else ''ES384'')"
  using assms
  by (auto simp: jwks_write_def jwks_read_def keys_with_def new_jwk_def success_iff Let_def
      split: option.splits content.splits if_splits)

lemma jwks_write_kept:
  "wd_files w p = Some (KeySetFile ks) \<Longrightarrow>
     jwks_write su \<lparr>jr_path = p, jr_jwks = None\<rparr> kid role w = (w, Inr ())"
  by (simp add: jwks_write_def jwks_read_def)

lemma load_keys_file:
  "load_keys w \<lparr>jr_path = p, jr_jwks = None\<rparr> = Inr ks \<longleftrightarrow> wd_files w p = Some (KeySetFile ks)"
  by (auto simp: load_keys_def jwks_read_def split: option.splits content.splits)

definition empty_world :: world where
  "empty_world = \<lparr>wd_files = \<lambda>_. None, wd_next_key = 0, wd_cas = [], wd_objects = []\<rparr>"

definition calm :: surroundings where
  "calm = \<lparr>su_now = 0, su_mkdir = \<lambda>_. True, su_write = \<lambda>_. True, su_template = \<lambda>_. True, su_csr = \<lambda>_. True\<rparr>"

subsection \<open>Properties of the JWT signer\<close>

lemma bytes_value_snoc: "bytes_value (bs @ [b]) = 256 * bytes_value bs + b"
  by (simp add: bytes_value_def)

lemma bytes_of_number: "bytes_value (map (\<lambda>i. x div 256 ^ (n - 1 - i) mod 256) [0..<n]) = x mod 256 ^ n"
proof (induction n arbitrary: x)
  case 0
  then show ?case by (simp add: bytes_value_def)
next
  case (Suc n)
  have shift: "map (\<lambda>i. x div 256 ^ (Suc n - 1 - i) mod 256) [0..<n] = map (\<lambda>i. x div 256 div 256 ^ (n - 1 - i) mod 256) [0..<n]"
  proof (rule map_cong)
    fix i assume "i \<in> set [0..<n]"
    then have "Suc n - 1 - i = Suc (n - 1 - i)" by auto
    then show "x div 256 ^ (Suc n - 1 - i) mod 256 = x div 256 div 256 ^ (n - 1 - i) mod 256"
      by (simp add: div_mult2_eq)
  qed simp
  have "bytes_value (map (\<lambda>i. x div 256 ^ (Suc n - 1 - i) mod 256) [0..<Suc n]) =
      256 * bytes_value (map (\<lambda>i. x div 256 ^ (Suc n - 1 - i) mod 256) [0..<n]) + x mod 256"
    by (simp add: bytes_value_snoc)
  also have "\<dots> = 256 * (x div 256 mod 256 ^ n) + x mod 256"
    by (simp only: shift Suc.IH)
  also have "\<dots> = x mod 256 ^ Suc n"
    using mod_mult2_eq[of x 256 "256 ^ n"] by simp
  finally show ?case .
qed

lemma fill_bytes_value:
  assumes "fill_bytes n x = Some bs"
  shows "bytes_value bs = x \<and> length bs = n \<and> list_all (\<lambda>b. b < 256) bs"
proof -
  have bs: "bs = map (\<lambda>i. x div 256 ^ (n - 1 - i) mod 256) [0..<n]" and x: "x < 256 ^ n"
    using assms by (simp_all add: fill_bytes_def split: if_splits)
  have "bytes_value bs = x"
    unfolding bs bytes_of_number using x by simp
  then show ?thesis
    by (simp add: bs list_all_iff)
qed

text \<open>
  C22. Signed tokens verify: with one default key of a supported algorithm and a signature whose two
  numbers fit the curve, the response has the base64 of a JSON object with that algorithm, the key
  identifier and the type JWT, and a signature that decodes to two numbers of equal width, 32 or 48 bytes each: the
  ECDSA signature of the hash of header, dot and claims, under that key.
\<close>

theorem signed_token_verifies:
  assumes "keys_with default_key_id jwks = [key]" "alg_of (jk_alg key) = Some (alg, n)"
    and "\<And>h. case ec_sign (jk_key key) h of None \<Rightarrow> False | Some (r, s) \<Rightarrow> r < 256 ^ n \<and> s < 256 ^ n"
  shows "\<exists>t hb sb. jwt_sign hash ec_sign jwks claims = Signed t \<and>
    b64_decode (sr_header t) = Some hb \<and>
    json_whole (map char_of hb) =
      Some (JObj [(''alg'', JStr (jk_alg key)), (''kid'', JStr default_key_id), (''typ'', JStr ''JWT'')]) \<and>
    b64_decode (sr_signature t) = Some sb \<and> length sb = 2 * n \<and>
    ec_sign (jk_key key) (hash alg (sr_header t @ ''.'' @ claims)) =
      Some (bytes_value (take n sb), bytes_value (drop n sb))"
proof -
  let ?j = "token_header (jk_alg key) (jk_kid key) ''JWT''"
  let ?h = "b64_encode (ascii_bytes (json_text ?j))"
  have "key \<in> set (keys_with default_key_id jwks)" using assms(1) by simp
  then have kid: "jk_kid key = default_key_id"
    by (simp add: keys_with_def)
  have "jk_alg key \<noteq> []"
    using assms(2) by (auto simp: alg_of_def)
  then have j: "?j = JObj [(''alg'', JStr (jk_alg key)), (''kid'', JStr default_key_id), (''typ'', JStr ''JWT'')]"
    by (simp add: token_header_def kid) (simp add: default_key_id_def)
  obtain r s where rs: "ec_sign (jk_key key) (hash alg (?h @ ''.'' @ claims)) = Some (r, s)" "r < 256 ^ n" "s < 256 ^ n"
    using assms(3)[of "hash alg (?h @ ''.'' @ claims)"] by (auto split: option.splits)
  obtain rb sb where f: "fill_bytes n r = Some rb" "fill_bytes n s = Some sb"
    using rs(2,3) by (simp add: fill_bytes_def)
  have "jwt_sign hash ec_sign jwks claims = Signed \<lparr>sr_header = ?h, sr_signature = b64_encode (rb @ sb)\<rparr>"
    using assms(1,2) rs(1) f by (simp add: jwt_sign_def hash_bytes_def Let_def)
  moreover have "b64_decode (b64_encode (rb @ sb)) = Some (rb @ sb)"
    by (rule b64_round_trip) (use fill_bytes_value[OF f(1)] fill_bytes_value[OF f(2)] in simp)
  moreover have "b64_decode ?h = Some (ascii_bytes (json_text ?j))"
    by (rule b64_round_trip) (simp add: ascii_bytes_def list_all_iff)
  moreover have "json_whole (json_text ?j) = Some ?j"
    by (rule json_whole_text) (simp add: token_header_def list_all_iff)
  then have "json_whole (map char_of (ascii_bytes (json_text ?j))) = Some ?j"
    by (simp add: ascii_bytes_def comp_def)
  ultimately show ?thesis
    using rs(1) fill_bytes_value[OF f(1)] fill_bytes_value[OF f(2)] unfolding j by auto
qed

lemma signed_token_verifies_witness:
  "\<exists>t. jwt_sign (\<lambda>_ s. length s) (\<lambda>k h. Some (k, h mod 7))
     [\<lparr>jk_kid = ''default'', jk_use = ''sig'', jk_alg = ''ES384'', jk_key = 5\<rparr>] ''c'' = Signed t"
proof -
  let ?k = "\<lparr>jk_kid = ''default'', jk_use = ''sig'', jk_alg = ''ES384'', jk_key = 5\<rparr>"
  have "h mod 7 < 256 ^ 48" for h :: nat
    by (rule less_trans[of _ 7]) simp_all
  then show ?thesis
    using signed_token_verifies[of "[?k]" ?k SHA384 48 "\<lambda>k h. Some (k, h mod 7)" "\<lambda>_ s. length s" "''c''"]
    by (auto simp: keys_with_def default_key_id_def alg_of_def)
qed

end
