(* ===== verification/Control_Plane.thy ===== *)
theory Control_Plane
  imports Config Pki Ref Keys
begin

section \<open>The control plane (controlplane.go, webhook.go)\<close>

text \<open>
  The names, addresses and files of a cluster, and \<open>Init\<close>, which makes the certificates, key sets and
  configuration files. JSON and YAML encoders are arguments.
\<close>

subsection \<open>Names and addresses\<close>

definition hostname :: "config \<Rightarrow> string \<Rightarrow> string" where
  "hostname c tag = cc_name c @ ''-'' @ tag @ ''.internal.runkube''"

definition internal_url :: "config \<Rightarrow> string \<Rightarrow> string" where
  "internal_url c tag = ''https://'' @ hostname c tag"

definition internal_listen_addr :: ip_addr where
  "internal_listen_addr = the (next_addr (V6 0))"

text \<open>The opaque part of the URL of an abstract socket, the path of a socket file, and its URL.\<close>

definition unix_socket_opaque :: "config \<Rightarrow> string \<Rightarrow> string" where
  "unix_socket_opaque c tag = ''@'' @ cc_name c @ ''-'' @ tag"

definition unix_socket_path :: "config \<Rightarrow> string \<Rightarrow> string" where
  "unix_socket_path c tag =
     path_join [cc_root c, ''run/'' @ tag @ ''/'' @ cc_name c @ ''-'' @ tag @ ''.sock'']"

text \<open>The path of a URL as \<open>URL.String\<close> writes it: other characters as a percent sign and two digits.\<close>

definition path_char :: "char \<Rightarrow> bool" where
  "path_char ch \<longleftrightarrow> is_alnum ch \<or> is_upper ch \<or> ch \<in> set ''-_.~$&+,/:;=@''"

definition upper_hex :: "nat \<Rightarrow> char" where
  "upper_hex n = ''0123456789ABCDEF'' ! n"

definition escape_path :: "string \<Rightarrow> string" where
  "escape_path p =
     (if p = ''*'' then p
      else concat (map (\<lambda>ch. if path_char ch then [ch]
             else [CHR 0x25, upper_hex (of_char ch div 16), upper_hex (of_char ch mod 16)]) p))"

definition unix_socket_path_url :: "config \<Rightarrow> string \<Rightarrow> string" where
  "unix_socket_path_url c tag = ''unixs://'' @ escape_path (unix_socket_path c tag)"

definition internal_listen_url :: "nat \<Rightarrow> string \<Rightarrow> string" where
  "internal_listen_url port path = ''https://'' @ show_addr_port internal_listen_addr port @ path"

text \<open>The field \<open>unixListener\<close>, which nothing sets, is the argument.\<close>

definition apiserver_url :: "bool \<Rightarrow> config \<Rightarrow> string" where
  "apiserver_url unix_listener c =
     (if unix_listener then ''unixs:'' @ unix_socket_opaque c ''apiserver'' else internal_listen_url 6443 [])"

definition kubernetes_service_address :: "config \<Rightarrow> string" where
  "kubernetes_service_address c =
     (case cc_range c of
        None \<Rightarrow> ''invalid IP''
      | Some (a, _) \<Rightarrow> (case next_addr a of None \<Rightarrow> ''invalid IP'' | Some b \<Rightarrow> show_addr b))"

definition service_address_range :: "config \<Rightarrow> string" where
  "service_address_range c = (case cc_range c of None \<Rightarrow> ''invalid Prefix'' | Some p \<Rightarrow> show_prefix p)"

subsection \<open>Files\<close>

fun ca_text :: "ca_name \<Rightarrow> string" where
  "ca_text APIServerCA = ''apiserver''"
| "ca_text APIClientCA = ''apiclient''"
| "ca_text EtcdCA = ''etcd''"
| "ca_text ExtensionAPIServerCA = ''extensionapiserver''"
| "ca_text RequestHeaderCA = ''requestheader''"
| "ca_text KubeletServerCA = ''kubeletserver''"
| "ca_text WebhookServerCA = ''webhookserver''"

definition ca_ref :: "config \<Rightarrow> ca_name \<Rightarrow> pki_ref" where
  "ca_ref c n =
     \<lparr>rf_cert_path = path_join [cc_root c, ''etc/kubernetes/pki'', ''ca'', ca_text n @ ''-ca.crt''],
      rf_key_path = path_join [cc_root c, ''etc/kubernetes/pki'', ''ca'', ca_text n @ ''-ca.key''],
      rf_cert = None, rf_key = None\<rparr>"

definition cert_ref :: "config \<Rightarrow> string \<Rightarrow> pki_ref" where
  "cert_ref c a =
     \<lparr>rf_cert_path = path_join [cc_root c, ''etc/kubernetes/pki'', ''leaf'', a @ ''.crt''],
      rf_key_path = path_join [cc_root c, ''etc/kubernetes/pki'', ''leaf'', a @ ''.key''],
      rf_cert = None, rf_key = None\<rparr>"

definition key_set_ref :: "config \<Rightarrow> string \<Rightarrow> jwks_ref" where
  "key_set_ref c a = \<lparr>jr_path = path_join [cc_root c, ''etc/kubernetes/keys'', a @ ''.jwks''], jr_jwks = None\<rparr>"

definition config_ref :: "config \<Rightarrow> string \<Rightarrow> string" where
  "config_ref c s = path_join [cc_root c, ''etc/kubernetes/confgen'', s]"

definition kube_config_ref :: "config \<Rightarrow> string \<Rightarrow> string" where
  "kube_config_ref c s = path_join [cc_root c, ''etc/kubernetes/kubeconfig'', s @ ''.kubeconfig'']"

definition etcd_dir :: "config \<Rightarrow> string" where
  "etcd_dir c = path_join [cc_root c, ''var/lib/etcd'', cc_name c]"

subsection \<open>The requests for certificates\<close>

definition leaf_request ::
  "string \<Rightarrow> ca_name \<Rightarrow> usage list \<Rightarrow> string \<Rightarrow> string list \<Rightarrow> string list \<Rightarrow> ip_addr list \<Rightarrow> cert_request" where
  "leaf_request name signer usages cn orgs san ips =
     \<lparr>cr_name = name, cr_signer = signer, cr_usages = usages, cr_lifetime = 0, cr_cn = cn, cr_o = orgs,
      cr_san = san, cr_ip = ips\<rparr>"

definition server_requests :: "config \<Rightarrow> cert_request list" where
  "server_requests c =
     [leaf_request ''etcd-serving'' EtcdCA [ServerAuth, ClientAuth] (hostname c ''etcd-serving'') []
        [path_base (unix_socket_path c ''etcd'')] [],
      leaf_request ''etcd-peer-client'' EtcdCA [ClientAuth] (hostname c ''etcd-peer-client'') [] [] [],
      leaf_request ''apiserver-etcd-client'' EtcdCA [ClientAuth] (hostname c ''etcd-client'') [] [] [],
      leaf_request ''webhook-server'' WebhookServerCA [ServerAuth] (hostname c ''webhook'') []
        [''api-runkube-internal.kube-system.svc'', hostname c ''authentication-webhook'',
         hostname c ''authorization-webhook'', hostname c ''mutating-webhook'', hostname c ''validating-webhook'',
         hostname c ''audit-webhook''] [internal_listen_addr],
      leaf_request ''apiserver-serving'' APIServerCA [ServerAuth] (hostname c ''apiserver'') []
        [hostname c ''apiserver'', cc_external c] [internal_listen_addr]]"

definition client_requests :: "config \<Rightarrow> cert_request list" where
  "client_requests c =
     [leaf_request ''apiserver-kubelet-client'' APIClientCA [ClientAuth] ''system:kubelet-apiserver-client'' [] [] [],
      leaf_request ''apiserver-extension-client'' ExtensionAPIServerCA [ClientAuth]
        ''system:apiserver-extension-client'' [] [] [],
      leaf_request ''requestheader-client'' RequestHeaderCA [ClientAuth] ''system:requestheader-client'' [] [] [],
      leaf_request ''kubelet-server-unused'' KubeletServerCA [] ''kubelet-server-unused'' [] [] [],
      leaf_request ''system-admin'' APIClientCA [ClientAuth] ''system:system-admin'' [''system:masters''] [] [],
      leaf_request ''controller-manager-client'' APIClientCA [ClientAuth] ''system:kube-controller-manager'' [] [] [],
      leaf_request ''controller-manager-authnz'' APIClientCA [ClientAuth] ''system:controller-manager-authnz'' [] [] [],
      leaf_request ''controller-manager-server'' APIClientCA [ServerAuth] ''system:kube-controller-manager'' []
        [hostname c ''controller-manager-server''] [internal_listen_addr],
      leaf_request ''scheduler-client'' APIClientCA [ClientAuth] ''system:kube-scheduler'' [] [] [],
      leaf_request ''scheduler-server'' APIClientCA [ServerAuth] ''system:kube-scheduler'' []
        [hostname c ''scheduler-server''] [internal_listen_addr],
      leaf_request ''scheduler-authnz'' APIClientCA [ClientAuth] ''system:scheduler-authnz'' [] [] []]"

definition leaf_requests :: "config \<Rightarrow> cert_request list" where
  "leaf_requests c = server_requests c @ client_requests c"

definition node_request :: "string \<Rightarrow> cert_request" where
  "node_request n = leaf_request n APIClientCA [ClientAuth] (''system:node:'' @ n) [''system:nodes''] [] []"

subsection \<open>Kubeconfigs\<close>

text \<open>\<open>CertBase64String\<close> and \<open>KeyBase64String\<close>: nothing when the file cannot be read.\<close>

definition file_data :: "string \<Rightarrow> world \<Rightarrow> content option" where
  "file_data p w = wd_files w p"

definition make_extension_kubeconfig :: "surroundings \<Rightarrow> config \<Rightarrow> string \<Rightarrow> string \<Rightarrow> unit act" where
  "make_extension_kubeconfig su c name srv w =
     kubeconfig_write su (kube_config_ref c name)
       (KubeconfigFile srv None (file_data (rf_cert_path (ca_ref c WebhookServerCA)) w)
          (file_data (rf_cert_path (cert_ref c ''apiserver-extension-client'')) w)
          (file_data (rf_key_path (cert_ref c ''apiserver-extension-client'')) w)) w"

definition make_api_kubeconfig :: "surroundings \<Rightarrow> bool \<Rightarrow> config \<Rightarrow> string \<Rightarrow> pki_ref \<Rightarrow> unit act" where
  "make_api_kubeconfig su ul c name p w =
     kubeconfig_write su (kube_config_ref c name)
       (KubeconfigFile (apiserver_url ul c) (Some (cc_external c))
          (file_data (rf_cert_path (ca_ref c APIServerCA)) w)
          (file_data (rf_cert_path p) w) (file_data (rf_key_path p) w)) w"

definition make_node_kubeconfig :: "surroundings \<Rightarrow> config \<Rightarrow> string \<Rightarrow> pki_ref \<Rightarrow> unit act" where
  "make_node_kubeconfig su c node_name p w =
     kubeconfig_write su (kube_config_ref c node_name)
       (KubeconfigFile (''https://'' @ hostname c ''apiserver'') None
          (file_data (rf_cert_path (ca_ref c APIServerCA)) w)
          (file_data (rf_cert_path p) w) (file_data (rf_key_path p) w)) w"

subsection \<open>Configuration files\<close>

text \<open>A text of lines behind an empty first one, and \<open>%q\<close> for text without control characters.\<close>

definition text_lines :: "string list \<Rightarrow> string" where
  "text_lines ls = line_end # concat (map (\<lambda>l. l @ [line_end]) ls)"

definition quote_mark :: char where
  "quote_mark = char_of (34 :: nat)"

definition backslash :: char where
  "backslash = char_of (92 :: nat)"

definition go_quote :: "string \<Rightarrow> string" where
  "go_quote s =
     quote_mark # concat (map (\<lambda>ch. if ch = quote_mark \<or> ch = backslash then [backslash, ch] else [ch]) s) @ [quote_mark]"

definition tabs :: "nat \<Rightarrow> string" where
  "tabs n = replicate n tab"

definition make_egress_selector_config :: "surroundings \<Rightarrow> config \<Rightarrow> unit act" where
  "make_egress_selector_config su c =
     config_write su (config_ref c ''egress-selector-config'') (text_lines
       [''apiVersion: apiserver.k8s.io/v1beta1'', ''kind: EgressSelectorConfiguration'', ''egressSelections:'',
        ''- name: cluster'', ''  connection:'', ''    proxyProtocol: HTTPConnect'',
        tabs 2 @ ''transport:'', tabs 3 @ ''uds:'',
        tabs 4 @ ''udsName: '' @ go_quote (unix_socket_opaque c ''frontend''),
        ''- name: controlplane'', ''  connection:'', ''    proxyProtocol: HTTPConnect'',
        tabs 2 @ ''transport:'', tabs 3 @ ''uds:'',
        tabs 4 @ ''udsName: '' @ go_quote (unix_socket_opaque c ''frontend'')])"

definition make_authorization_config :: "surroundings \<Rightarrow> config \<Rightarrow> unit act" where
  "make_authorization_config su c =
     config_write su (config_ref c ''authorization-config'') (text_lines
       [''kind: AuthorizationConfiguration'', ''apiVersion: apiserver.config.k8s.io/v1beta1'', ''authorizers:'',
        ''- name: authorizer-internal.runkube'', ''  type: Webhook'', ''  webhook:'', ''    failurePolicy: Deny'',
        ''    timeout: 3s'', ''    subjectAccessReviewVersion: v1'',
        ''    matchConditionSubjectAccessReviewVersion: v1'', ''    connectionInfo:'',
        ''      type: KubeConfigFile'',
        ''      kubeConfigFile: '' @ go_quote (kube_config_ref c ''authorization-webhook''),
        ''- name: node'', ''  type: Node'', ''- name: rbac'', ''  type: RBAC''])"

definition make_authentication_config :: "surroundings \<Rightarrow> config \<Rightarrow> unit act" where
  "make_authentication_config su c =
     config_write su (config_ref c ''authentication-config'') (text_lines
       [''apiVersion: apiserver.config.k8s.io/v1beta1'', ''kind: AuthenticationConfiguration''])"

definition make_admission_config :: "surroundings \<Rightarrow> config \<Rightarrow> unit act" where
  "make_admission_config su c =
     config_write su (config_ref c ''admission-config'') (text_lines
       [''apiVersion: apiserver.config.k8s.io/v1'', ''kind: AdmissionConfiguration'', ''plugins:'',
        ''- name: ValidatingAdmissionWebhook'', ''  configuration:'',
        tabs 2 @ ''apiVersion: apiserver.config.k8s.io/v1'', tabs 2 @ ''kind: WebhookAdmissionConfiguration'',
        tabs 2 @ ''staticManifestsDir: '' @
          go_quote (path_join [cc_root c, ''/etc/kubernetes/confgen/validating'']),
        ''- name: MutatingAdmissionWebhook'', tabs 1 @ ''configuration:'',
        tabs 2 @ ''apiVersion: apiserver.config.k8s.io/v1'', tabs 2 @ ''kind: WebhookAdmissionConfiguration'',
        tabs 2 @ ''staticManifestsDir: '' @
          go_quote (path_join [cc_root c, ''/etc/kubernetes/confgen/mutating''])])"

definition encryption_provider_lines :: "config \<Rightarrow> string list" where
  "encryption_provider_lines c =
     [''kind: EncryptionConfiguration'', ''apiVersion: apiserver.config.k8s.io/v1'', ''resources:'',
      ''- resources:'', ''  - '' @ [CHR 0x27] @ ''*.*'' @ [CHR 0x27], ''  providers:'', ''  - kms:'', ''      name: kms'',
      ''      apiVersion: v2'', tabs 3 @ ''endpoint: unix:/'' @ unix_socket_opaque c ''kms'', ''  - identity: {}'']"

definition make_encryption_provider_config :: "surroundings \<Rightarrow> config \<Rightarrow> unit act" where
  "make_encryption_provider_config su c =
     config_write su (config_ref c ''encryption-provider-config'') (text_lines (encryption_provider_lines c))"

definition make_audit_policy :: "surroundings \<Rightarrow> config \<Rightarrow> unit act" where
  "make_audit_policy su c =
     config_write su (config_ref c ''audit-policy'') (text_lines
       [''apiVersion: audit.k8s.io/v1'', ''kind: Policy'', ''omitManagedFields: true'', ''omitStages:'',
        ''  - RequestReceived'', ''  - ResponseStarted'', ''rules:'', ''  - level: RequestResponse''])"

text \<open>
  The static webhook configurations: the same rule for everything, all operations, failing closed.
\<close>

record webhook_configuration =
  wc_kind :: string
  wc_name :: string
  wc_webhook :: string
  wc_url :: string
  wc_ca_bundle :: content
  wc_failure_policy :: string
  wc_rules :: "string list"

definition webhook_configuration_of :: "config \<Rightarrow> string \<Rightarrow> string \<Rightarrow> content \<Rightarrow> webhook_configuration" where
  "webhook_configuration_of c kind tag bundle =
     \<lparr>wc_kind = kind, wc_name = hostname c tag @ ''.static.k8s.io'', wc_webhook = hostname c tag,
      wc_url = internal_url c tag, wc_ca_bundle = bundle, wc_failure_policy = ''Fail'',
      wc_rules = [''*'', ''*'', ''*'', ''*/*'', ''*'']\<rparr>"

definition make_admission_webhook ::
  "surroundings \<Rightarrow> (webhook_configuration \<Rightarrow> failure + string) \<Rightarrow> config \<Rightarrow> unit act" where
  "make_admission_webhook su json c w =
     (case file_data (rf_cert_path (ca_ref c WebhookServerCA)) w of
        None \<Rightarrow> (w, Inl (Error ''read''))
      | Some ca_bundle \<Rightarrow>
          and_then
            (config_write_object su (config_ref c ''validating/static.json'')
              (json (webhook_configuration_of c ''ValidatingWebhookConfiguration'' ''validating-webhook'' ca_bundle)))
            (\<lambda>_. config_write_object su (config_ref c ''mutating/static.json'')
              (json (webhook_configuration_of c ''MutatingWebhookConfiguration'' ''mutating-webhook'' ca_bundle))) w)"

definition make_api_service :: "config \<Rightarrow> api_group list \<Rightarrow> unit act" where
  "make_api_service c groups w =
     (let namespace = ''kube-system''; name = ''api-runkube-internal'' in
      case file_data (rf_cert_path (ca_ref c WebhookServerCA)) w of
        None \<Rightarrow> (w, Inl (Error ''read''))
      | Some ca_bundle \<Rightarrow>
          (let ksvc = ServiceObject name namespace (join_with ''.'' [name, namespace, ''svc'']) [(''api'', ''TCP'', 443, 443)]
           in (w\<lparr>wd_objects := syncer_add (ksvc # map (\<lambda>s. ApiServiceObject s ca_bundle) (api_services groups namespace name))
                  (wd_objects w)\<rparr>, Inr ())))"

subsection \<open>Init\<close>

definition set_up_node :: "surroundings \<Rightarrow> config \<Rightarrow> string \<Rightarrow> unit act" where
  "set_up_node su c n =
     and_then (issue_step su (ca_ref c) ca_text (cert_ref c) (node_request n)) (\<lambda>_.
       make_node_kubeconfig su c n (cert_ref c n))"

definition request_step :: "surroundings \<Rightarrow> bool \<Rightarrow> config \<Rightarrow> cert_request \<Rightarrow> unit act" where
  "request_step su ul c r =
     and_then (issue_step su (ca_ref c) ca_text (cert_ref c) r) (\<lambda>_.
       if cr_signer r = APIClientCA then make_api_kubeconfig su ul c (cr_name r) (cert_ref c (cr_name r))
       else give ())"

definition init_files :: "surroundings \<Rightarrow> (webhook_configuration \<Rightarrow> failure + string) \<Rightarrow> config \<Rightarrow> unit act list" where
  "init_files su json c =
     [make_extension_kubeconfig su c ''authentication-token-webhook'' (internal_url c ''authentication-webhook''),
      make_extension_kubeconfig su c ''authorization-webhook'' (internal_url c ''authorization-webhook''),
      make_extension_kubeconfig su c ''audit-webhook'' (internal_url c ''audit-webhook''),
      make_egress_selector_config su c,
      make_authentication_config su c,
      make_authorization_config su c,
      make_admission_config su c,
      make_audit_policy su c,
      make_admission_webhook su json c,
      make_encryption_provider_config su c,
      make_api_service c default_api_groups,
      jwks_write su (key_set_ref c ''encryption'') ''default'' ''encryption'',
      jwks_write su (key_set_ref c ''serviceaccount'') ''default'' ''signing'',
      mkdir_all su (path_dir (unix_socket_path c ''etcd'')),
      mkdir_all su (path_dir (unix_socket_path c ''etcd-peer'')),
      mkdir_all su (path_dir (unix_socket_path c ''etcd-http''))]"

definition write_objects ::
  "surroundings \<Rightarrow> (content sync_object \<Rightarrow> string option) \<Rightarrow> config \<Rightarrow> unit act" where
  "write_objects su yaml c w =
     (case as_yaml yaml (wd_objects w) of
        None \<Rightarrow> (w, Inl Panic)
      | Some t \<Rightarrow> config_write su (config_ref c ''syncer.objects'') t w)"

definition init_control ::
  "surroundings \<Rightarrow> (webhook_configuration \<Rightarrow> failure + string) \<Rightarrow> (content sync_object \<Rightarrow> string option) \<Rightarrow>
     bool \<Rightarrow> config \<Rightarrow> unit act" where
  "init_control su json yaml ul c w =
     and_then (for_each (request_step su ul c) (leaf_requests c)) (\<lambda>_.
     and_then (first_error (init_files su json c)) (\<lambda>_.
     and_then (for_each (set_up_node su c) (cc_nodes c)) (\<lambda>_.
     write_objects su yaml c))) (w\<lparr>wd_objects := []\<rparr>)"

end
