(* ===== verification/Control_Layout.thy ===== *)
theory Control_Layout
  imports Control_Plane
begin

section \<open>The layout of the files of a cluster\<close>

text \<open>
  The places files are kept at below the root, as path elements, and that different places have
  different paths. The references of the control plane form a layout in the sense of
  \<open>pki_layout\<close>.
\<close>

datatype place =
    CaCertP ca_name | CaKeyP ca_name | LeafCertP string | LeafKeyP string
  | KeysP string | KubeP string | ConfP "string list"

fun place_elems :: "place \<Rightarrow> string list" where
  "place_elems (CaCertP n) = [''etc'', ''kubernetes'', ''pki'', ''ca'', ca_text n @ ''-ca.crt'']"
| "place_elems (CaKeyP n) = [''etc'', ''kubernetes'', ''pki'', ''ca'', ca_text n @ ''-ca.key'']"
| "place_elems (LeafCertP a) = [''etc'', ''kubernetes'', ''pki'', ''leaf'', a @ ''.crt'']"
| "place_elems (LeafKeyP a) = [''etc'', ''kubernetes'', ''pki'', ''leaf'', a @ ''.key'']"
| "place_elems (KeysP a) = [''etc'', ''kubernetes'', ''keys'', a @ ''.jwks'']"
| "place_elems (KubeP a) = [''etc'', ''kubernetes'', ''kubeconfig'', a @ ''.kubeconfig'']"
| "place_elems (ConfP es) = ''etc'' # ''kubernetes'' # ''confgen'' # es"

definition file_name :: "string \<Rightarrow> bool" where
  "file_name a \<longleftrightarrow> slash \<notin> set a"

fun place_ok :: "place \<Rightarrow> bool" where
  "place_ok (LeafCertP a) = file_name a"
| "place_ok (LeafKeyP a) = file_name a"
| "place_ok (KeysP a) = file_name a"
| "place_ok (KubeP a) = file_name a"
| "place_ok (ConfP es) = (es \<noteq> [] \<and> list_all plain_elem es)"
| "place_ok _ = True"

definition place_path :: "string list \<Rightarrow> place \<Rightarrow> string" where
  "place_path rs p = abs_path (rs @ place_elems p)"

definition cluster_root :: "config \<Rightarrow> string list \<Rightarrow> bool" where
  "cluster_root c rs \<longleftrightarrow> list_all plain_elem rs \<and> cc_root c = abs_path rs"

lemma plain_suffixed: "file_name a \<Longrightarrow> slash \<notin> set s \<Longrightarrow> 3 \<le> length s \<Longrightarrow> plain_elem (a @ s)"
  by (auto simp: plain_elem_def file_name_def append_eq_Cons_conv)

lemma ca_text_name: "file_name (ca_text n)"
  by (cases n) (simp_all add: file_name_def slash_def)

lemma ca_text_inj: "ca_text n = ca_text m \<longleftrightarrow> n = m"
  by (cases n; cases m) simp_all

lemma literal_suffixes [simp]:
  "slash \<notin> set ''-ca.crt''" "slash \<notin> set ''-ca.key''" "slash \<notin> set ''.crt''" "slash \<notin> set ''.key''"
  "slash \<notin> set ''.jwks''" "slash \<notin> set ''.kubeconfig''"
  by (simp_all add: slash_def)

lemma literal_elems [simp]:
  "plain_elem ''etc''" "plain_elem ''kubernetes''" "plain_elem ''pki''" "plain_elem ''ca''" "plain_elem ''leaf''"
  "plain_elem ''keys''" "plain_elem ''kubeconfig''" "plain_elem ''confgen''"
  by (simp_all add: plain_elem_def slash_def)

lemma place_elems_plain:
  assumes "place_ok p"
  shows "list_all plain_elem (place_elems p)"
proof (cases p)
  case (CaCertP n)
  then show ?thesis using plain_suffixed[OF ca_text_name literal_suffixes(1)] by simp
next
  case (CaKeyP n)
  then show ?thesis using plain_suffixed[OF ca_text_name literal_suffixes(2)] by simp
next
  case (LeafCertP a)
  then show ?thesis using assms plain_suffixed[OF _ literal_suffixes(3)] by simp
next
  case (LeafKeyP a)
  then show ?thesis using assms plain_suffixed[OF _ literal_suffixes(4)] by simp
next
  case (KeysP a)
  then show ?thesis using assms plain_suffixed[OF _ literal_suffixes(5)] by simp
next
  case (KubeP a)
  then show ?thesis using assms plain_suffixed[OF _ literal_suffixes(6)] by simp
next
  case (ConfP es)
  then show ?thesis using assms by simp
qed

lemma place_elems_inj: "place_ok p \<Longrightarrow> place_ok q \<Longrightarrow> place_elems p = place_elems q \<longleftrightarrow> p = q"
  by (cases p; cases q) (auto simp: ca_text_inj dest!: arg_cong[of _ _ rev])

lemma place_path_inj:
  assumes "list_all plain_elem rs" "place_ok p" "place_ok q"
  shows "place_path rs p = place_path rs q \<longleftrightarrow> p = q"
proof -
  have "list_all plain_elem (rs @ place_elems p)" "list_all plain_elem (rs @ place_elems q)"
    using assms place_elems_plain by simp_all
  then show ?thesis
    using place_elems_inj[OF assms(2,3)] by (simp add: place_path_def abs_path_inj)
qed

lemma join_place:
  assumes "cluster_root c rs" "concat ess = place_elems p" "place_ok p" "list_all (\<lambda>es. es \<noteq> []) ess"
  shows "path_join (cc_root c # map rel_path ess) = place_path rs p"
proof -
  have "list_all plain_elem (concat ess)"
    using place_elems_plain[OF assms(3)] assms(2) by simp
  then have "list_all (\<lambda>es. es \<noteq> [] \<and> list_all plain_elem es) ess"
    using assms(4) by (auto simp: list_all_iff)
  then show ?thesis
    using assms(1,2) path_join_abs[of rs ess] by (simp add: cluster_root_def place_path_def)
qed

lemma rel_paths:
  "rel_path [''etc'', ''kubernetes'', ''pki''] = ''etc/kubernetes/pki''"
  "rel_path [''etc'', ''kubernetes'', ''keys''] = ''etc/kubernetes/keys''"
  "rel_path [''etc'', ''kubernetes'', ''kubeconfig''] = ''etc/kubernetes/kubeconfig''"
  "rel_path [''etc'', ''kubernetes'', ''confgen''] = ''etc/kubernetes/confgen''"
  "rel_path [a] = a"
  by (simp_all add: rel_path_def)

text \<open>The references of the control plane by their places.\<close>

lemma ref_places:
  assumes "cluster_root c rs"
  shows "rf_cert_path (ca_ref c n) = place_path rs (CaCertP n)"
    "rf_key_path (ca_ref c n) = place_path rs (CaKeyP n)"
    "file_name a \<Longrightarrow> rf_cert_path (cert_ref c a) = place_path rs (LeafCertP a)"
    "file_name a \<Longrightarrow> rf_key_path (cert_ref c a) = place_path rs (LeafKeyP a)"
    "file_name a \<Longrightarrow> jr_path (key_set_ref c a) = place_path rs (KeysP a)"
    "file_name a \<Longrightarrow> kube_config_ref c a = place_path rs (KubeP a)"
  using join_place[OF assms, of "[[''etc'', ''kubernetes'', ''pki''], [''ca''], [ca_text n @ ''-ca.crt'']]" "CaCertP n"]
    join_place[OF assms, of "[[''etc'', ''kubernetes'', ''pki''], [''ca''], [ca_text n @ ''-ca.key'']]" "CaKeyP n"]
    join_place[OF assms, of "[[''etc'', ''kubernetes'', ''pki''], [''leaf''], [a @ ''.crt'']]" "LeafCertP a"]
    join_place[OF assms, of "[[''etc'', ''kubernetes'', ''pki''], [''leaf''], [a @ ''.key'']]" "LeafKeyP a"]
    join_place[OF assms, of "[[''etc'', ''kubernetes'', ''keys''], [a @ ''.jwks'']]" "KeysP a"]
    join_place[OF assms, of "[[''etc'', ''kubernetes'', ''kubeconfig''], [a @ ''.kubeconfig'']]" "KubeP a"]
  by (simp_all add: ca_ref_def cert_ref_def key_set_ref_def kube_config_ref_def rel_paths)

lemma config_place:
  assumes "cluster_root c rs" "list_all plain_elem es" "es \<noteq> []"
  shows "config_ref c (rel_path es) = place_path rs (ConfP es)"
  using join_place[OF assms(1), of "[[''etc'', ''kubernetes'', ''confgen''], es]" "ConfP es"] assms(2,3)
  by (simp add: config_ref_def rel_paths)

end
