(* ===== verification/Control_Init.thy ===== *)
theory Control_Init
  imports Control_Layout
begin

section \<open>What Init leaves behind\<close>

text \<open>
  The certificate chains and kubeconfigs after a successful \<open>Init\<close>. The references of the control
  plane are an instance of \<open>pki_layout\<close>, for a configuration whose root is given by its elements.
\<close>

definition rooted :: "string list \<Rightarrow> config \<Rightarrow> config" where
  "rooted rs c = c\<lparr>cc_root := abs_path (filter plain_elem rs)\<rparr>"

lemma cluster_root_rooted: "cluster_root (rooted rs c) (filter plain_elem rs)"
  by (simp add: cluster_root_def rooted_def list_all_iff)

lemma rooted_id: "cluster_root c rs \<Longrightarrow> rooted rs c = c"
  by (simp add: cluster_root_def rooted_def list_all_iff filter_id_conv)

text \<open>The places of a reference and what differs between two worlds, by places.\<close>

definition ca_places :: "ca_name \<Rightarrow> place set" where
  "ca_places n = {CaCertP n, CaKeyP n}"

definition leaf_places :: "string \<Rightarrow> place set" where
  "leaf_places a = {LeafCertP a, LeafKeyP a}"

definition places_ok :: "place set \<Rightarrow> bool" where
  "places_ok ps \<longleftrightarrow> (\<forall>p \<in> ps. place_ok p)"

lemma places_ok_sets [simp]:
  "places_ok (ca_places n)" "file_name a \<Longrightarrow> places_ok (leaf_places a)"
  "places_ok {}" "places_ok (insert p ps) \<longleftrightarrow> place_ok p \<and> places_ok ps"
  "places_ok (ps \<union> qs) \<longleftrightarrow> places_ok ps \<and> places_ok qs"
  by (auto simp: places_ok_def ca_places_def leaf_places_def)

lemma place_image_disjoint:
  assumes "list_all plain_elem rs" "places_ok ps" "places_ok qs" "ps \<inter> qs = {}"
  shows "place_path rs ` ps \<inter> place_path rs ` qs = {}"
  using assms place_path_inj[OF assms(1)] unfolding places_ok_def by blast

lemma ref_paths_places:
  assumes "cluster_root c rs"
  shows "ref_paths (ca_ref c n) = place_path rs ` ca_places n"
    "file_name a \<Longrightarrow> ref_paths (cert_ref c a) = place_path rs ` leaf_places a"
  using ref_places[OF assms] by (simp_all add: ref_paths_def ca_places_def leaf_places_def)

lemma control_plane_layout:
  assumes root: "cluster_root c rs"
  shows "pki_layout (ca_ref c) (cert_ref c) file_name"
proof -
  have rs: "list_all plain_elem rs"
    using root by (simp add: cluster_root_def)
  note disjoint = place_image_disjoint[OF rs]
  note places = ref_paths_places[OF root]
  show ?thesis
  proof unfold_locales
    fix n
    show "rf_cert_path (ca_ref c n) \<noteq> rf_key_path (ca_ref c n)"
      by (simp add: ref_places[OF root] place_path_inj[OF rs])
  next
    fix a assume "file_name a"
    then show "rf_cert_path (cert_ref c a) \<noteq> rf_key_path (cert_ref c a)"
      by (simp add: ref_places[OF root] place_path_inj[OF rs])
  next
    fix n m :: ca_name assume "n \<noteq> m"
    then show "ref_paths (ca_ref c n) \<inter> ref_paths (ca_ref c m) = {}"
      unfolding places(1) by (intro disjoint) (simp_all add: ca_places_def)
  next
    fix a b assume "file_name a" "file_name b" "a \<noteq> b"
    then show "ref_paths (cert_ref c a) \<inter> ref_paths (cert_ref c b) = {}"
      by (simp only: places(2), intro disjoint) (simp_all add: leaf_places_def)
  next
    fix a n assume "file_name a"
    then show "ref_paths (ca_ref c n) \<inter> ref_paths (cert_ref c a) = {}"
      by (simp only: places, intro disjoint) (simp_all add: ca_places_def leaf_places_def)
  qed (simp_all add: ca_ref_def cert_ref_def)
qed

interpretation files: pki_layout "ca_ref (rooted rs c)" "cert_ref (rooted rs c)" file_name
  for rs c
  by (rule control_plane_layout[OF cluster_root_rooted])


subsection \<open>One certificate\<close>

text \<open>
  What is issued: a request, and for a client of the API server the server and TLS name of its
  kubeconfig. The requests of the control plane and those of the nodes are steps of one form.
\<close>

type_synonym item = "cert_request \<times> (string \<times> string option) option"

definition items :: "bool \<Rightarrow> config \<Rightarrow> item list" where
  "items ul c =
     map (\<lambda>r. (r, if cr_signer r = APIClientCA then Some (apiserver_url ul c, Some (cc_external c)) else None))
       (leaf_requests c) @
     map (\<lambda>n. (node_request n, Some (''https://'' @ hostname c ''apiserver'', None))) (cc_nodes c)"

lemma request_in_items:
  assumes "r \<in> set (leaf_requests c)"
  shows "(r, if cr_signer r = APIClientCA then Some (apiserver_url ul c, Some (cc_external c)) else None) \<in> set (items ul c)"
proof -
  let ?f = "\<lambda>r. (r, if cr_signer r = APIClientCA then Some (apiserver_url ul c, Some (cc_external c)) else None)"
  have "?f r \<in> ?f ` set (leaf_requests c)"
    using assms by (rule imageI)
  then show ?thesis
    by (simp only: items_def set_append set_map Un_iff simp_thms)
qed

fun item_step :: "surroundings \<Rightarrow> config \<Rightarrow> item \<Rightarrow> unit act" where
  "item_step su c (r, e) =
     and_then (issue_step su (ca_ref c) ca_text (cert_ref c) r) (\<lambda>_ w.
       case e of
         None \<Rightarrow> give () w
       | Some (srv, tls) \<Rightarrow>
           kubeconfig_write su (kube_config_ref c (cr_name r))
             (KubeconfigFile srv tls (file_data (rf_cert_path (ca_ref c APIServerCA)) w)
                (file_data (rf_cert_path (cert_ref c (cr_name r))) w)
                (file_data (rf_key_path (cert_ref c (cr_name r))) w)) w)"

lemma request_step_item:
  "request_step su ul c r =
     item_step su c (r, if cr_signer r = APIClientCA then Some (apiserver_url ul c, Some (cc_external c)) else None)"
  by (simp add: request_step_def make_api_kubeconfig_def[abs_def])

lemma set_up_node_item:
  "set_up_node su c n = item_step su c (node_request n, Some (''https://'' @ hostname c ''apiserver'', None))"
  by (simp add: set_up_node_def make_node_kubeconfig_def[abs_def] node_request_def leaf_request_def)

text \<open>An item is issued: the chain is stored, and the kubeconfig embeds the stored files.\<close>

fun issued :: "surroundings \<Rightarrow> config \<Rightarrow> world \<Rightarrow> item \<Rightarrow> bool" where
  "issued su c w (r, e) \<longleftrightarrow>
     chain_ok su (ca_ref c) (cert_ref c) w r \<and>
     (case e of
        None \<Rightarrow> True
      | Some (srv, tls) \<Rightarrow>
          (\<exists>ca. stored w (ca_ref c APIServerCA) ca \<and>
             wd_files w (kube_config_ref c (cr_name r)) =
               Some (KubeconfigFile srv tls (Some (PemFile certificate_type (CertBytes ca)))
                 (wd_files w (rf_cert_path (cert_ref c (cr_name r))))
                 (wd_files w (rf_key_path (cert_ref c (cr_name r)))))))"

definition cached :: "world \<Rightarrow> ca_name \<Rightarrow> bool" where
  "cached w n \<longleftrightarrow> map_of (wd_cas w) n \<noteq> None"

fun step_places :: "world \<Rightarrow> item \<Rightarrow> place set" where
  "step_places w (r, e) =
     (if cached w (cr_signer r) then {} else ca_places (cr_signer r)) \<union> leaf_places (cr_name r) \<union>
     (if e = None then {} else {KubeP (cr_name r)})"

fun item_places :: "item \<Rightarrow> place set" where
  "item_places (r, e) =
     ca_places (cr_signer r) \<union> leaf_places (cr_name r) \<union>
     (if e = None then {} else insert (KubeP (cr_name r)) (ca_places APIServerCA))"

definition item_name :: "item \<Rightarrow> string" where
  "item_name x = cr_name (fst x)"

lemma item_places_ok: "file_name (item_name x) \<Longrightarrow> places_ok (item_places x) \<and> places_ok (step_places w x)"
  by (cases x) (simp add: item_name_def)

text \<open>Two worlds that differ at places only.\<close>

definition differ_at :: "string list \<Rightarrow> place set \<Rightarrow> world \<Rightarrow> world \<Rightarrow> bool" where
  "differ_at rs ps w w' \<longleftrightarrow> same_except (place_path rs ` ps) w w'"

lemma differ_at_same:
  assumes "list_all plain_elem rs" "differ_at rs ps w w'" "places_ok ps" "place_ok p" "p \<notin> ps"
  shows "wd_files w' (place_path rs p) = wd_files w (place_path rs p)"
proof -
  have "place_path rs p \<notin> place_path rs ` ps"
    using assms place_path_inj[OF assms(1)] unfolding places_ok_def by blast
  then show ?thesis
    using assms(2) by (simp add: differ_at_def same_except_def)
qed

lemma issued_frame:
  assumes root: "cluster_root c rs" and x: "issued su c w x" "file_name (item_name x)"
    and d: "differ_at rs ps w w'" "places_ok ps" "ps \<inter> item_places x = {}"
    and cas: "map_of (wd_cas w') (cr_signer (fst x)) = map_of (wd_cas w) (cr_signer (fst x))"
  shows "issued su c w' x"
proof -
  obtain r e where re: "x = (r, e)" by fastforce
  have rs: "list_all plain_elem rs"
    using root by (simp add: cluster_root_def)
  have name: "file_name (cr_name r)"
    using x(2) re by (simp add: item_name_def)
  have apart: "place_path rs ` ps \<inter> place_path rs ` qs = {}" if "qs \<subseteq> item_places x" for qs
    by (rule place_image_disjoint[OF rs d(2)]) (use that d(3) item_places_ok[OF x(2)] in \<open>auto simp: places_ok_def\<close>)
  have chain: "chain_ok su (ca_ref c) (cert_ref c) w' r"
  proof (rule files.chain_frame[where rs = rs and c = c, unfolded rooted_id[OF root]])
    show "chain_ok su (ca_ref c) (cert_ref c) w r"
      using x(1) re by simp
    show "same_except (place_path rs ` ps) w w'"
      using d(1) by (simp add: differ_at_def)
    show "map_of (wd_cas w') (cr_signer r) = map_of (wd_cas w) (cr_signer r)"
      using cas re by simp
    show "place_path rs ` ps \<inter> ref_paths (ca_ref c (cr_signer r)) = {}"
      unfolding ref_paths_places(1)[OF root] by (rule apart) (auto simp: re)
    show "place_path rs ` ps \<inter> ref_paths (cert_ref c (cr_name r)) = {}"
      unfolding ref_paths_places(2)[OF root name] by (rule apart) (auto simp: re)
  qed
  have same: "wd_files w' (place_path rs p) = wd_files w (place_path rs p)" if "p \<in> item_places x" for p
    by (rule differ_at_same[OF rs d(1,2)]) (use that d(3) item_places_ok[OF x(2)] in \<open>auto simp: places_ok_def\<close>)
  show ?thesis
  proof (cases e)
    case None
    then show ?thesis using chain re by simp
  next
    case (Some st)
    obtain srv tls where st: "st = (srv, tls)" by fastforce
    have "p \<in> item_places x" if "p \<in> {CaCertP APIServerCA, CaKeyP APIServerCA, LeafCertP (cr_name r), LeafKeyP (cr_name r), KubeP (cr_name r)}" for p
      using that Some re by (auto simp: ca_places_def leaf_places_def)
    then have "wd_files w' (place_path rs p) = wd_files w (place_path rs p)"
      if "p \<in> {CaCertP APIServerCA, CaKeyP APIServerCA, LeafCertP (cr_name r), LeafKeyP (cr_name r), KubeP (cr_name r)}" for p
      using that same by blast
    then show ?thesis
      using x(1) chain re Some st ref_places[OF root] name by (simp add: stored_def)
  qed
qed


text \<open>What a successful step does, and that it keeps what has been issued under other names.\<close>

lemma item_step_success:
  assumes root: "cluster_root c rs" and s: "item_step su c x w = (w', Inr ())"
    and w: "cas_ok (ca_ref c) w" "file_name (item_name x)"
    and kube: "snd x \<noteq> None \<longrightarrow> cached w APIServerCA"
  shows "cas_ok (ca_ref c) w' \<and> issued su c w' x \<and> differ_at rs (step_places w x) w w' \<and>
    (\<forall>m. cached w m \<longrightarrow> map_of (wd_cas w') m = map_of (wd_cas w) m)"
proof -
  obtain r e where re: "x = (r, e)" by fastforce
  have rs: "list_all plain_elem rs"
    using root by (simp add: cluster_root_def)
  have name: "file_name (cr_name r)"
    using w(2) re by (simp add: item_name_def)
  obtain v where v: "issue_step su (ca_ref c) ca_text (cert_ref c) r w = (v, Inr ())"
      and k: "(case e of None \<Rightarrow> give () v
       | Some (srv, tls) \<Rightarrow>
           kubeconfig_write su (kube_config_ref c (cr_name r))
             (KubeconfigFile srv tls (file_data (rf_cert_path (ca_ref c APIServerCA)) v)
                (file_data (rf_cert_path (cert_ref c (cr_name r))) v)
                (file_data (rf_key_path (cert_ref c (cr_name r))) v)) v) = (w', Inr ())"
    using s re by (auto simp: success_iff)
  note step = files.issue_step_success[where rs = rs and c = c, unfolded rooted_id[OF root], OF v w(1) name]
  let ?ps = "(if cached w (cr_signer r) then {} else ca_places (cr_signer r)) \<union> leaf_places (cr_name r)"
  have d: "differ_at rs ?ps w v"
    using step by (cases "map_of (wd_cas w) (cr_signer r)") (simp_all add: differ_at_def cached_def ref_paths_places[OF root] name image_Un)
  have kept: "\<forall>m. cached w m \<longrightarrow> map_of (wd_cas v) m = map_of (wd_cas w) m"
    using step by (simp add: cached_def)
  show ?thesis
  proof (cases e)
    case None
    then have "w' = v"
      using k by (simp add: success_iff)
    then show ?thesis
      using step kept d re None by simp
  next
    case (Some st)
    obtain srv tls where st: "st = (srv, tls)" by fastforce
    have w': "w' = v\<lparr>wd_files := (wd_files v)(place_path rs (KubeP (cr_name r)) \<mapsto>
        KubeconfigFile srv tls (wd_files v (place_path rs (CaCertP APIServerCA)))
          (wd_files v (place_path rs (LeafCertP (cr_name r)))) (wd_files v (place_path rs (LeafKeyP (cr_name r)))))\<rparr>"
      using k Some st name by (simp add: success_iff ref_places[OF root] file_data_def)
    have dk: "differ_at rs {KubeP (cr_name r)} v w'"
      by (simp add: differ_at_def same_except_def w')
    have "differ_at rs (?ps \<union> {KubeP (cr_name r)}) w w'"
      using same_except_trans[OF d[unfolded differ_at_def] dk[unfolded differ_at_def]]
      by (simp only: differ_at_def image_Un)
    then have diff: "differ_at rs (step_places w x) w w'"
      by (simp add: re Some)
    have other: "issued su c w' y" if "issued su c v y" "file_name (item_name y)" "KubeP (cr_name r) \<notin> item_places y" for y
      by (rule issued_frame[OF root that(1,2) dk]) (use that(3) name w' in auto)
    have cas: "cas_ok (ca_ref c) w'"
      unfolding cas_ok_def
    proof (intro allI impI)
      fix n ca assume "map_of (wd_cas w') n = Some ca"
      then have "authority_ok (ca_ref c) v n ca"
        using step w' by (simp add: cas_ok_def)
      moreover have "same_except (place_path rs ` {KubeP (cr_name r)}) v w'"
        using dk by (simp only: differ_at_def)
      moreover have "place_path rs ` {KubeP (cr_name r)} \<inter> ref_paths (ca_ref c n) = {}"
        unfolding ref_paths_places(1)[OF root]
        by (rule place_image_disjoint[OF rs]) (use name in \<open>simp_all add: ca_places_def\<close>)
      ultimately show "authority_ok (ca_ref c) w' n ca"
        by (rule files.authority_frame[where rs = rs and c = c, unfolded rooted_id[OF root]])
    qed
    have "issued su c w' (r, None)"
      by (rule other) (use step name in \<open>simp_all add: item_name_def ca_places_def leaf_places_def\<close>)
    moreover obtain ca cc where ca: "map_of (wd_cas v) APIServerCA = Some ca" "stored v (ca_ref c APIServerCA) cc"
    proof -
      obtain ca where "map_of (wd_cas w) APIServerCA = Some ca" "cached w APIServerCA"
        using kube Some re by (auto simp: cached_def)
      then have "map_of (wd_cas v) APIServerCA = Some ca"
        using kept by simp
      moreover from this have "authority_ok (ca_ref c) v APIServerCA ca"
        using step by (simp add: cas_ok_def)
      ultimately show thesis
        using that by (auto simp: authority_ok_def)
    qed
    ultimately have "issued su c w' x"
      using re Some st name
      by (auto simp: stored_def w' ref_places[OF root] place_path_inj[OF rs])
    then show ?thesis
      using cas diff kept w' by simp
  qed
qed

lemma item_step_keeps:
  assumes root: "cluster_root c rs" and s: "item_step su c y w = (w', Inr ())"
    and w: "cas_ok (ca_ref c) w" "file_name (item_name y)" "snd y \<noteq> None \<longrightarrow> cached w APIServerCA"
    and x: "issued su c w x" "file_name (item_name x)" "item_name x \<noteq> item_name y" "snd x \<noteq> None \<longrightarrow> cached w APIServerCA"
  shows "issued su c w' x"
proof -
  note step = item_step_success[OF root s w]
  have signer: "cached w (cr_signer (fst x))"
    using x(1) by (cases x) (auto simp: chain_ok_def cached_def)
  have "step_places w y \<inter> item_places x = {}"
    using signer x(3,4) by (cases x; cases y) (auto simp: ca_places_def leaf_places_def item_name_def)
  then show ?thesis
    using step signer x(2) item_places_ok[OF w(2)] by (intro issued_frame[OF root x(1)]) auto
qed


subsection \<open>The configuration files\<close>

lemma config_refs:
  assumes "cluster_root c rs"
  shows "config_ref c ''egress-selector-config'' = place_path rs (ConfP [''egress-selector-config''])"
    "config_ref c ''authentication-config'' = place_path rs (ConfP [''authentication-config''])"
    "config_ref c ''authorization-config'' = place_path rs (ConfP [''authorization-config''])"
    "config_ref c ''admission-config'' = place_path rs (ConfP [''admission-config''])"
    "config_ref c ''audit-policy'' = place_path rs (ConfP [''audit-policy''])"
    "config_ref c ''encryption-provider-config'' = place_path rs (ConfP [''encryption-provider-config''])"
    "config_ref c ''validating/static.json'' = place_path rs (ConfP [''validating'', ''static.json''])"
    "config_ref c ''mutating/static.json'' = place_path rs (ConfP [''mutating'', ''static.json''])"
    "config_ref c ''syncer.objects'' = place_path rs (ConfP [''syncer.objects''])"
  using config_place[OF assms, of "[_]"] config_place[OF assms, of "[''validating'', ''static.json'']"]
    config_place[OF assms, of "[''mutating'', ''static.json'']"]
  by (simp_all add: rel_path_def plain_elem_def slash_def)

definition extension_names :: "string set" where
  "extension_names = {''authentication-token-webhook'', ''authorization-webhook'', ''audit-webhook''}"

definition file_places :: "place set" where
  "file_places =
     {p. place_ok p \<and>
        (case p of ConfP _ \<Rightarrow> True | KeysP _ \<Rightarrow> True | KubeP a \<Rightarrow> a \<in> extension_names | _ \<Rightarrow> False)}"

lemma file_places_ok [simp]: "places_ok file_places"
  by (simp add: places_ok_def file_places_def)

lemma literal_file_names [simp]:
  "file_name ''authentication-token-webhook''" "file_name ''authorization-webhook''" "file_name ''audit-webhook''"
  "file_name ''encryption''" "file_name ''serviceaccount''"
  by (simp_all add: file_name_def slash_def)

text \<open>A computation that, when it succeeds, changes files of some places only and removes none.\<close>

definition writes_at :: "string list \<Rightarrow> place set \<Rightarrow> unit act \<Rightarrow> bool" where
  "writes_at rs ps f \<longleftrightarrow>
     (\<forall>w w'. f w = (w', Inr ()) \<longrightarrow>
        differ_at rs ps w w' \<and> wd_cas w' = wd_cas w \<and> dom (wd_files w) \<subseteq> dom (wd_files w'))"

text \<open>The places of the configuration files and key sets, without the kubeconfigs.\<close>

definition conf_places :: "place set" where
  "conf_places = {p \<in> file_places. \<forall>a. p \<noteq> KubeP a}"

lemma differ_at_trans: "differ_at rs ps u v \<Longrightarrow> differ_at rs ps v w \<Longrightarrow> differ_at rs ps u w"
  by (simp add: differ_at_def same_except_def)

lemma differ_at_mono: "differ_at rs ps w w' \<Longrightarrow> ps \<subseteq> qs \<Longrightarrow> differ_at rs qs w w'"
  by (auto simp: differ_at_def same_except_def)

lemma differ_at_refl [simp]: "differ_at rs ps w w"
  by (simp add: differ_at_def same_except_def)

lemma differ_at_write: "p \<in> ps \<Longrightarrow> differ_at rs ps w (w\<lparr>wd_files := (wd_files w)(place_path rs p \<mapsto> x)\<rparr>)"
  by (auto simp: differ_at_def same_except_def)

lemma writes_at_mono: "writes_at rs ps f \<Longrightarrow> ps \<subseteq> qs \<Longrightarrow> writes_at rs qs f"
  unfolding writes_at_def using differ_at_mono by blast

lemma writes_at_all:
  assumes "for_each (\<lambda>f. f) fs w = (w', Inr ())" "list_all (writes_at rs ps) fs"
  shows "differ_at rs ps w w' \<and> wd_cas w' = wd_cas w \<and> dom (wd_files w) \<subseteq> dom (wd_files w')"
proof (rule for_each_keeps[OF assms(1)])
  fix f v v' assume "f \<in> set fs" "differ_at rs ps w v \<and> wd_cas v = wd_cas w \<and> dom (wd_files w) \<subseteq> dom (wd_files v)"
    "f v = (v', Inr ())"
  then show "differ_at rs ps w v' \<and> wd_cas v' = wd_cas w \<and> dom (wd_files w) \<subseteq> dom (wd_files v')"
    using assms(2) differ_at_trans unfolding list_all_iff writes_at_def by (metis subset_trans)
qed simp

lemma in_file_places [simp]:
  "ConfP es \<in> file_places \<longleftrightarrow> es \<noteq> [] \<and> list_all plain_elem es" "KeysP a \<in> file_places \<longleftrightarrow> file_name a"
  "KubeP a \<in> file_places \<longleftrightarrow> file_name a \<and> a \<in> extension_names"
  "CaCertP n \<notin> file_places" "CaKeyP n \<notin> file_places" "LeafCertP a \<notin> file_places" "LeafKeyP a \<notin> file_places"
  by (auto simp: file_places_def)

lemma in_conf_places [simp]:
  "ConfP es \<in> conf_places \<longleftrightarrow> es \<noteq> [] \<and> list_all plain_elem es" "KeysP a \<in> conf_places \<longleftrightarrow> file_name a"
  "KubeP a \<notin> conf_places"
  by (auto simp: conf_places_def)

lemma literal_config_names [simp]:
  "plain_elem ''egress-selector-config''" "plain_elem ''authentication-config''" "plain_elem ''authorization-config''"
  "plain_elem ''admission-config''" "plain_elem ''audit-policy''" "plain_elem ''encryption-provider-config''"
  "plain_elem ''validating''" "plain_elem ''mutating''" "plain_elem ''static.json''" "plain_elem ''syncer.objects''"
  by (simp_all add: plain_elem_def slash_def)

lemma writes_config [simp]:
  assumes "es \<noteq> []" "list_all plain_elem es"
  shows "writes_at rs conf_places (config_write su (place_path rs (ConfP es)) t)"
  using assms by (auto simp: writes_at_def success_iff intro: differ_at_write)

lemma new_jwk_success: "new_jwk role w = (w', Inr k) \<Longrightarrow> wd_files w' = wd_files w \<and> wd_cas w' = wd_cas w"
  by (auto simp: new_jwk_def success_iff split: if_splits)

text \<open>After a successful \<open>Write\<close> the file is there.\<close>

lemma jwks_write_success:
  assumes "jwks_write su jkr kid role w = (w', Inr ())"
  shows "wd_cas w' = wd_cas w \<and> same_except {jr_path jkr} w w' \<and> dom (wd_files w) \<subseteq> dom (wd_files w')"
proof -
  obtain jkr1 e where r: "jwks_read w jkr = (jkr1, e)" by fastforce
  have path: "jr_path jkr1 = jr_path jkr"
    using r by (auto simp: jwks_read_def split: option.splits content.splits)
  show ?thesis
    using assms r path
    by (auto simp: jwks_write_def success_iff same_except_def Let_def dest: new_jwk_success split: option.splits if_splits)
qed

lemma writes_keys:
  assumes "p \<in> conf_places" "jr_path jkr = place_path rs p"
  shows "writes_at rs conf_places (jwks_write su jkr kid role)"
  unfolding writes_at_def
proof (intro allI impI)
  fix w w' assume "jwks_write su jkr kid role w = (w', Inr ())"
  note s = jwks_write_success[OF this]
  have "place_path rs p \<in> place_path rs ` conf_places"
    using assms(1) by (rule imageI)
  then have "differ_at rs conf_places w w'"
    using s assms(2) unfolding differ_at_def same_except_def by (metis singletonD)
  then show "differ_at rs conf_places w w' \<and> wd_cas w' = wd_cas w \<and> dom (wd_files w) \<subseteq> dom (wd_files w')"
    using s by simp
qed

lemma writes_nothing [simp]: "writes_at rs ps (mkdir_all su p)"
  by (simp add: writes_at_def success_iff)

lemma writes_kube:
  assumes "cluster_root c rs" "file_name name"
  shows "writes_at rs {KubeP name} (make_extension_kubeconfig su c name srv)"
  using assms
  by (auto simp: writes_at_def make_extension_kubeconfig_def success_iff ref_places intro: differ_at_write)

text \<open>The three kubeconfigs come first; the rest are configuration files and key sets.\<close>

lemma init_confs_write:
  assumes root: "cluster_root c rs"
  shows "list_all (writes_at rs conf_places) (drop 3 (init_files su json c))"
proof -
  have hook: "writes_at rs conf_places (make_admission_webhook su json c)"
    by (auto simp: writes_at_def make_admission_webhook_def success_iff config_refs[OF root] split: option.splits
        intro!: differ_at_trans[OF differ_at_write differ_at_write])
  have api: "writes_at rs conf_places (make_api_service c gs)" for gs
    by (auto simp: writes_at_def make_api_service_def Let_def differ_at_def same_except_def split: option.splits)
  have keys: "writes_at rs conf_places (jwks_write su (key_set_ref c name) kid role)" if "file_name name" for name kid role
    by (rule writes_keys[of "KeysP name"]) (use that in \<open>simp_all add: ref_places[OF root]\<close>)
  show ?thesis
    using hook api keys
    by (simp add: init_files_def config_refs[OF root] make_egress_selector_config_def
        make_authentication_config_def make_authorization_config_def make_admission_config_def make_audit_policy_def
        make_encryption_provider_config_def)
qed

lemma init_files_writes:
  assumes root: "cluster_root c rs"
  shows "list_all (writes_at rs file_places) (init_files su json c)"
proof -
  have kube: "writes_at rs file_places (make_extension_kubeconfig su c name srv)" if "file_name name" "name \<in> extension_names" for name srv
    by (rule writes_at_mono[OF writes_kube[OF root that(1)]]) (use that in simp)
  have "list_all (writes_at rs file_places) (drop 3 (init_files su json c))"
    using init_confs_write[OF root, of su json] writes_at_mono[of rs conf_places _ file_places]
    by (auto simp: list_all_iff conf_places_def)
  then have "list_all (writes_at rs file_places) (take 3 (init_files su json c) @ drop 3 (init_files su json c))"
    using kube by (simp add: init_files_def extension_names_def)
  then show ?thesis
    by (simp only: append_take_drop_id)
qed

subsection \<open>Init\<close>

lemma for_each_map: "for_each f (map g xs) = for_each (\<lambda>x. f (g x)) xs"
  by (induction xs) simp_all

lemma for_each_cong: "(\<And>x. x \<in> set xs \<Longrightarrow> f x = g x) \<Longrightarrow> for_each f xs = for_each g xs"
  by (induction xs) simp_all

lemma item_steps_issue:
  assumes root: "cluster_root c rs" and s: "for_each (item_step su c) xs w = (w', Inr ())"
    and w: "cas_ok (ca_ref c) w"
    and xs: "distinct (map item_name (ys @ xs))" "list_all (\<lambda>x. file_name (item_name x)) (ys @ xs)"
    and api: "list_ex (\<lambda>x. snd x \<noteq> None) (ys @ xs) \<longrightarrow> cached w APIServerCA"
    and before: "list_all (issued su c w) ys"
  shows "cas_ok (ca_ref c) w' \<and> list_all (issued su c w') (ys @ xs) \<and>
    (cached w APIServerCA \<longrightarrow> cached w' APIServerCA)"
proof -
  define I where "I v \<longleftrightarrow> cas_ok (ca_ref c) v \<and> list_all (issued su c v) ys \<and>
      (cached w APIServerCA \<longrightarrow> cached v APIServerCA)" for v
  have names: "file_name (item_name x)" and kube: "snd x \<noteq> None \<longrightarrow> cached w APIServerCA" if "x \<in> set (ys @ xs)" for x
    using xs(2) api that by (auto simp: list_all_iff list_ex_iff)
  have inj: "item_name x = item_name y \<longleftrightarrow> x = y" if "x \<in> set (ys @ xs)" "y \<in> set (ys @ xs)" for x y
    using xs(1) that by (metis distinct_map inj_onD)
  have apart: "item_name y \<noteq> item_name x" if "y \<in> set ys" "x \<in> set xs" for x y
    using xs(1) that by (auto simp: image_iff)
  have "I w' \<and> (\<forall>x \<in> set xs. issued su c w' x)"
  proof (rule for_each_all[OF s])
    show "I w"
      using w before by (simp add: I_def)
    show "distinct xs"
      using xs(1) by (simp add: distinct_map)
  next
    fix x v v' assume x: "x \<in> set xs" and v: "I v" "item_step su c x v = (v', Inr ())"
    then have k: "snd x \<noteq> None \<longrightarrow> cached v APIServerCA"
      using kube[of x] by (auto simp: I_def)
    note step = item_step_success[OF root v(2) _ names k]
    have "issued su c v' y" if y: "y \<in> set ys" for y
    proof (rule item_step_keeps[OF root v(2) _ names k])
      show "issued su c v y" "snd y \<noteq> None \<longrightarrow> cached v APIServerCA"
        using v(1) y kube[of y] by (auto simp: I_def list_all_iff)
    qed (use v(1) x y names apart in \<open>auto simp: I_def\<close>)
    then show "I v' \<and> issued su c v' x"
      using step v(1) x by (auto simp: I_def list_all_iff cached_def)
  next
    fix x y v v' assume xy: "x \<in> set xs" "y \<in> set xs" "x \<noteq> y" and v: "I v" "issued su c v x" "item_step su c y v = (v', Inr ())"
    have k: "snd z \<noteq> None \<longrightarrow> cached v APIServerCA" if "z \<in> set xs" for z
      using v(1) that kube[of z] by (auto simp: I_def)
    show "issued su c v' x"
    proof (rule item_step_keeps[OF root v(3) _ names k[OF xy(2)] v(2) names _ k[OF xy(1)]])
      show "item_name x \<noteq> item_name y"
        using xy inj[of x y] by simp
    qed (use xy v(1) in \<open>auto simp: I_def\<close>)
  qed
  then show ?thesis
    by (auto simp: I_def list_all_iff)
qed

lemma init_files_keep:
  assumes root: "cluster_root c rs" and f: "for_each (\<lambda>f. f) fs w = (w', Inr ())" "list_all (writes_at rs file_places) fs"
    and w: "cas_ok (ca_ref c) w" "list_all (issued su c w) xs"
    and xs: "list_all (\<lambda>x. file_name (item_name x) \<and> item_name x \<notin> extension_names) xs"
  shows "cas_ok (ca_ref c) w' \<and> list_all (issued su c w') xs \<and> wd_cas w' = wd_cas w"
proof -
  have rs: "list_all plain_elem rs"
    using root by (simp add: cluster_root_def)
  note d = writes_at_all[OF f]
  have "cas_ok (ca_ref c) w'"
    unfolding cas_ok_def
  proof (intro allI impI)
    fix n ca assume "map_of (wd_cas w') n = Some ca"
    then have "authority_ok (ca_ref c) w n ca"
      using w(1) d by (simp add: cas_ok_def)
    moreover have "same_except (place_path rs ` file_places) w w'"
      using d by (simp add: differ_at_def)
    moreover have "place_path rs ` file_places \<inter> ref_paths (ca_ref c n) = {}"
      unfolding ref_paths_places(1)[OF root]
      by (rule place_image_disjoint[OF rs]) (auto simp: ca_places_def)
    ultimately show "authority_ok (ca_ref c) w' n ca"
      by (rule files.authority_frame[where rs = rs and c = c, unfolded rooted_id[OF root]])
  qed
  moreover have "issued su c w' x" if x: "x \<in> set xs" for x
  proof (rule issued_frame[OF root _ _ conjunct1[OF d]])
    show "issued su c w x" "file_name (item_name x)"
      using w(2) xs x by (auto simp: list_all_iff)
    show "file_places \<inter> item_places x = {}"
      using xs x by (cases x) (auto simp: list_all_iff item_name_def ca_places_def leaf_places_def)
  qed (use d in auto)
  ultimately show ?thesis
    using d by (simp add: list_all_iff)
qed


definition request_items :: "bool \<Rightarrow> config \<Rightarrow> cert_request list \<Rightarrow> item list" where
  "request_items ul c =
     map (\<lambda>r. (r, if cr_signer r = APIClientCA then Some (apiserver_url ul c, Some (cc_external c)) else None))"

definition node_items :: "config \<Rightarrow> item list" where
  "node_items c = map (\<lambda>n. (node_request n, Some (''https://'' @ hostname c ''apiserver'', None))) (cc_nodes c)"

lemma items_split: "items ul c = request_items ul c (server_requests c) @ request_items ul c (client_requests c) @ node_items c"
  by (simp add: items_def request_items_def node_items_def leaf_requests_def)

lemma request_steps_items:
  "for_each (request_step su ul c) rs = for_each (item_step su c) (request_items ul c rs)"
  unfolding request_items_def for_each_map by (rule for_each_cong) (rule request_step_item)

lemma node_steps_items: "for_each (set_up_node su c) (cc_nodes c) = for_each (item_step su c) (node_items c)"
  unfolding node_items_def for_each_map by (rule for_each_cong) (rule set_up_node_item)

text \<open>The names of the requests, and what the names of the nodes have to keep clear of.\<close>

definition request_names :: "string list" where
  "request_names =
     [''etcd-serving'', ''etcd-peer-client'', ''apiserver-etcd-client'', ''webhook-server'', ''apiserver-serving'',
      ''apiserver-kubelet-client'', ''apiserver-extension-client'', ''requestheader-client'', ''kubelet-server-unused'',
      ''system-admin'', ''controller-manager-client'', ''controller-manager-authnz'', ''controller-manager-server'',
      ''scheduler-client'', ''scheduler-server'', ''scheduler-authnz'']"

lemma names_of_requests:
  "map item_name (request_items ul c (server_requests c)) = take 5 request_names"
  "map item_name (request_items ul c (client_requests c)) = drop 5 request_names"
  "map item_name (node_items c) = cc_nodes c"
  by (simp_all add: request_items_def server_requests_def client_requests_def leaf_request_def item_name_def
      request_names_def node_items_def node_request_def o_def)

lemma request_names_ok:
  "distinct request_names" "list_all (\<lambda>a. file_name a \<and> a \<notin> extension_names) request_names"
proof -
  show "distinct request_names"
    by (simp add: request_names_def)
  show "list_all (\<lambda>a. file_name a \<and> a \<notin> extension_names) request_names"
    by (simp add: request_names_def file_name_def slash_def extension_names_def)
qed

definition node_names_ok :: "config \<Rightarrow> bool" where
  "node_names_ok c \<longleftrightarrow> distinct (cc_nodes c) \<and> list_all (\<lambda>n. file_name n \<and> n \<notin> set request_names) (cc_nodes c)"

lemma server_items_plain: "list_all (\<lambda>x. snd x = None) (request_items ul c (server_requests c))"
  by (simp add: request_items_def server_requests_def leaf_request_def)

lemma server_items_serving: "\<exists>x \<in> set (request_items ul c (server_requests c)). cr_signer (fst x) = APIServerCA"
  by (simp add: request_items_def server_requests_def leaf_request_def)

lemma issued_cached: "issued su c w x \<Longrightarrow> cached w (cr_signer (fst x))"
  by (cases x) (auto simp: chain_ok_def cached_def)

lemma item_names_list:
  "list_all (\<lambda>x. P (item_name x)) xs \<longleftrightarrow> list_all P (map item_name xs)"
  by (simp add: list_all_iff)

lemma all_request_names: "map item_name (request_items ul c (leaf_requests c)) = request_names"
proof -
  have "map item_name (request_items ul c (server_requests c)) @ map item_name (request_items ul c (client_requests c)) =
      take 5 request_names @ drop 5 request_names"
    by (simp only: names_of_requests)
  then show ?thesis
    by (simp add: request_items_def leaf_requests_def)
qed

lemma request_items_append: "request_items ul c (xs @ ys) = request_items ul c xs @ request_items ul c ys"
  by (simp add: request_items_def)

text \<open>After the requests, all of them are issued, and the authority of the API server is loaded.\<close>

lemma request_items_names:
  "distinct (map item_name (request_items ul c (server_requests c) @ request_items ul c (client_requests c)))"
  "list_all (\<lambda>x. file_name (item_name x))
     (request_items ul c (server_requests c) @ request_items ul c (client_requests c))"
proof -
  have all: "map item_name (request_items ul c (server_requests c) @ request_items ul c (client_requests c)) = request_names"
    using all_request_names[of ul c] by (simp only: leaf_requests_def request_items_append)
  show "distinct (map item_name (request_items ul c (server_requests c) @ request_items ul c (client_requests c)))"
    using request_names_ok(1) by (simp only: all)
  show "list_all (\<lambda>x. file_name (item_name x))
      (request_items ul c (server_requests c) @ request_items ul c (client_requests c))"
    unfolding item_names_list all using request_names_ok(2) by (simp add: list_all_iff)
qed

lemma server_requests_issued:
  assumes root: "cluster_root c rs" and w: "cas_ok (ca_ref c) w"
    and s: "for_each (item_step su c) (request_items ul c (server_requests c)) w = (v, Inr ())"
  shows "cas_ok (ca_ref c) v \<and> list_all (issued su c v) (request_items ul c (server_requests c)) \<and> cached v APIServerCA"
proof -
  let ?S = "request_items ul c (server_requests c)"
  have 1: "cas_ok (ca_ref c) v \<and> list_all (issued su c v) ([] @ ?S) \<and> (cached w APIServerCA \<longrightarrow> cached v APIServerCA)"
    by (rule item_steps_issue[OF root s w])
      (use request_items_names[of ul c] server_items_plain[of ul c] in \<open>auto simp: list_all_iff list_ex_iff\<close>)
  obtain x where x: "x \<in> set ?S" "cr_signer (fst x) = APIServerCA"
    using server_items_serving[of ul c] by blast
  then have "cached v APIServerCA"
    using 1 issued_cached[of su c v x] by (simp add: list_all_iff)
  then show ?thesis
    using 1 by simp
qed

lemma requests_issued:
  assumes root: "cluster_root c rs" and w: "cas_ok (ca_ref c) w"
    and s: "for_each (request_step su ul c) (leaf_requests c) w = (u, Inr ())"
  shows "cas_ok (ca_ref c) u \<and> list_all (issued su c u) (request_items ul c (leaf_requests c)) \<and> cached u APIServerCA"
proof -
  let ?S = "request_items ul c (server_requests c)" and ?C = "request_items ul c (client_requests c)"
  obtain v where v: "for_each (item_step su c) ?S w = (v, Inr ())" "for_each (item_step su c) ?C v = (u, Inr ())"
    using s unfolding request_steps_items leaf_requests_def request_items_append for_each_append by blast
  note 1 = server_requests_issued[OF root w v(1)]
  have "cas_ok (ca_ref c) u \<and> list_all (issued su c u) (?S @ ?C) \<and> (cached v APIServerCA \<longrightarrow> cached u APIServerCA)"
    by (rule item_steps_issue[OF root v(2) _ request_items_names]) (use 1 in simp_all)
  then show ?thesis
    using 1 by (simp add: leaf_requests_def request_items_append)
qed

lemma init_issues:
  assumes root: "cluster_root c rs" and nodes: "node_names_ok c" and w: "cas_ok (ca_ref c) w"
    and init: "init_control su json yaml ul c w = (w', Inr ())"
  shows "list_all (issued su c w') (items ul c)"
proof -
  let ?R = "request_items ul c (leaf_requests c)" and ?N = "node_items c"
  obtain u v x where s: "for_each (request_step su ul c) (leaf_requests c) (w\<lparr>wd_objects := []\<rparr>) = (u, Inr ())"
      "for_each (\<lambda>f. f) (init_files su json c) u = (v, Inr ())" "for_each (item_step su c) ?N v = (x, Inr ())"
      "write_objects su yaml c x = (w', Inr ())"
    using init by (auto simp: init_control_def success_iff node_steps_items)
  have "cas_ok (ca_ref c) (w\<lparr>wd_objects := []\<rparr>)"
    using w by (simp add: cas_ok_def authority_ok_def stored_def)
  note 1 = requests_issued[OF root this s(1)]
  have names: "map item_name (?R @ ?N) = request_names @ cc_nodes c"
    by (simp add: all_request_names names_of_requests)
  have distinct: "distinct (map item_name (?R @ ?N))"
    unfolding names using request_names_ok(1) nodes by (auto simp: node_names_ok_def list_all_iff)
  have plain: "list_all (\<lambda>x. file_name (item_name x)) (?R @ ?N)"
    unfolding item_names_list names using request_names_ok(2) nodes by (auto simp: node_names_ok_def list_all_iff)
  have apart: "list_all (\<lambda>x. file_name (item_name x) \<and> item_name x \<notin> extension_names) ?R"
    using request_names_ok(2) item_names_list[of "\<lambda>a. file_name a \<and> a \<notin> extension_names" ?R]
    by (simp only: all_request_names)
  have 2: "cas_ok (ca_ref c) v \<and> list_all (issued su c v) ?R \<and> wd_cas v = wd_cas u"
    by (rule init_files_keep[OF root s(2) init_files_writes[OF root] _ _ apart]) (use 1 in simp_all)
  have 3: "cas_ok (ca_ref c) x \<and> list_all (issued su c x) (?R @ ?N) \<and> (cached v APIServerCA \<longrightarrow> cached x APIServerCA)"
    by (rule item_steps_issue[OF root s(3) _ distinct plain]) (use 1 2 in \<open>simp_all add: cached_def\<close>)
  obtain t where t: "w' = x\<lparr>wd_files := (wd_files x)(place_path rs (ConfP [''syncer.objects'']) \<mapsto> TextFile t)\<rparr>"
    using s(4) by (auto simp: write_objects_def success_iff config_refs[OF root] split: option.splits)
  have "issued su c w' i" if i: "i \<in> set (?R @ ?N)" for i
  proof (rule issued_frame[OF root])
    show "differ_at rs {ConfP [''syncer.objects'']} x w'"
      unfolding t by (rule differ_at_write) simp
    show "{ConfP [''syncer.objects'']} \<inter> item_places i = {}"
      by (cases i) (simp add: ca_places_def leaf_places_def)
  qed (use 3 plain i t in \<open>auto simp: list_all_iff\<close>)
  then show ?thesis
    by (simp add: list_all_iff items_split leaf_requests_def request_items_append)
qed

text \<open>
  C13. Init chains everything: from a state in which no certificate authority is loaded (or those that are have been
  written), a successful \<open>Init\<close> leaves for every one of the sixteen requests and for every node a
  leaf certificate with its subject, names and usages, stored beside its key and signed with the
  key of an authority whose self-signed certificate is stored; and every kubeconfig of an API client
  or node embeds the stored certificate of the API server's authority, the client's certificate and its
  key. Every leaf starts now, lasts between a week and 180 days, and is no authority. Names of nodes must be
  single path elements, distinct, and not the name of a request.
\<close>

theorem init_issues_chains:
  assumes "cluster_root c rs" "node_names_ok c" "cas_ok (ca_ref c) w"
    and "init_control su json yaml ul c w = (w', Inr ())"
  shows "list_all (issued su c w') (items ul c) \<and>
    list_all (\<lambda>(r, e). \<exists>crt. stored w' (cert_ref c (cr_name r)) crt \<and> \<not> ct_ca crt \<and> ct_from crt = su_now su \<and>
        ct_from crt + cert_lifetime_min \<le> ct_until crt \<and> ct_until crt \<le> ct_from crt + cert_lifetime_max) (items ul c)"
proof -
  have all: "list_all (issued su c w') (items ul c)"
    by (rule init_issues[OF assms])
  have range: "cert_lifetime_min \<le> clamp l cert_lifetime_min cert_lifetime_max \<and>
      clamp l cert_lifetime_min cert_lifetime_max \<le> cert_lifetime_max" for l
    by (rule clamp_between) (simp add: cert_lifetime_min_def cert_lifetime_max_def hour_def)
  have "\<exists>crt. stored w' (cert_ref c (cr_name r)) crt \<and> \<not> ct_ca crt \<and> ct_from crt = su_now su \<and>
      ct_from crt + cert_lifetime_min \<le> ct_until crt \<and> ct_until crt \<le> ct_from crt + cert_lifetime_max"
    if "(r, e) \<in> set (items ul c)" for r e
  proof -
    have "chain_ok su (ca_ref c) (cert_ref c) w' r"
      using all that by (auto simp: list_all_iff)
    then obtain ck k where "stored w' (cert_ref c (cr_name r)) (leaf_cert su r ck k)"
      by (auto simp: chain_ok_def)
    then show ?thesis
      using range[of "cr_lifetime r"] by (intro exI[of _ "leaf_cert su r ck k"]) (simp add: leaf_cert_def)
  qed
  then show ?thesis
    using all by (auto simp: list_all_iff)
qed

end
