(* ===== verification/Control_Progress.thy ===== *)
theory Control_Progress
  imports Control_Init
begin

section \<open>Init succeeds, and can be repeated\<close>

text \<open>
  When directories can be made, files written, templates are accepted and the encoders do not fail,
  \<open>Init\<close> does not fail on any root whose certificate and key files, where they exist, can be
  parsed; what it leaves is such a root again.
\<close>

definition permits :: "surroundings \<Rightarrow> bool" where
  "permits su \<longleftrightarrow> (\<forall>p. su_mkdir su p) \<and> (\<forall>p. su_write su p) \<and> (\<forall>c. su_template su c) \<and> (\<forall>c. su_csr su c)"

fun good_cert :: "content option \<Rightarrow> bool" where
  "good_cert None = True"
| "good_cert (Some (PemFile t (CertBytes c))) = (t = certificate_type)"
| "good_cert _ = False"

fun good_key :: "content option \<Rightarrow> bool" where
  "good_key None = True"
| "good_key (Some (PemFile t (KeyBytes k))) = (t = key_type)"
| "good_key _ = False"

definition ref_sane :: "world \<Rightarrow> pki_ref \<Rightarrow> bool" where
  "ref_sane w p \<longleftrightarrow> good_cert (wd_files w (rf_cert_path p)) \<and> good_key (wd_files w (rf_key_path p))"

definition sane :: "config \<Rightarrow> world \<Rightarrow> bool" where
  "sane c w \<longleftrightarrow> (\<forall>n. ref_sane w (ca_ref c n)) \<and> (\<forall>a. file_name a \<longrightarrow> ref_sane w (cert_ref c a))"

subsection \<open>Steps that do not fail\<close>

lemma and_then_run: "m w = (v, Inr x) \<Longrightarrow> and_then m k w = k x v"
  by (simp add: and_then_def)

lemma for_each_progress:
  assumes "I w" "\<And>x v. x \<in> set xs \<Longrightarrow> I v \<Longrightarrow> \<exists>v'. f x v = (v', Inr ()) \<and> I v'"
  shows "\<exists>w'. for_each f xs w = (w', Inr ()) \<and> I w'"
  using assms
proof (induction xs arbitrary: w)
  case (Cons x xs)
  then obtain v where v: "f x w = (v, Inr ())" "I v"
    by (metis list.set_intros(1))
  obtain w' where "for_each f xs v = (w', Inr ())" "I w'"
    using Cons.IH[OF v(2)] Cons.prems(2) by auto
  then show ?case
    using v(1) by (simp add: and_then_run)
qed (simp add: give_def)

lemma permits_runs:
  assumes "permits su"
  shows "mkdir_all su p w = (w, Inr ())" "check (su_template su t) e w = (w, Inr ())" "check (su_csr su r) e w = (w, Inr ())"
    "write_content su p x w = (w\<lparr>wd_files := (wd_files w)(p \<mapsto> x)\<rparr>, Inr ())"
  using assms by (simp_all add: permits_def mkdir_all_def check_def give_def write_content_def)

lemma read_key_runs: "good_key (wd_files w (rf_key_path p)) \<Longrightarrow> \<exists>q. read_key p w = (w, Inr q)"
  by (cases "wd_files w (rf_key_path p)" rule: good_key.cases)
    (auto simp: read_key_def read_content_def and_then_def give_def)

lemma pki_read_runs: "ref_sane w p \<Longrightarrow> \<exists>q. pki_read su p w = (w, Inr q)"
  using read_key_runs[of w p]
  by (cases "wd_files w (rf_cert_path p)" rule: good_cert.cases)
    (auto simp: ref_sane_def pki_read_def read_content_def and_then_def give_def)

lemma ensure_key_runs: "\<exists>w' k. ensure_key p w = (w', Inr (p\<lparr>rf_key := Some k\<rparr>))"
  by (cases p) (auto simp: ensure_key_def give_def and_then_def fresh_key_def split: option.splits)

lemma pki_write_runs: "permits su \<Longrightarrow> \<exists>w'. pki_write su (q\<lparr>rf_key := Some k, rf_cert := Some t\<rparr>) w = (w', Inr ())"
  by (simp add: pki_write_def and_then_def permits_runs cert_data_def key_data_def give_def)

lemma reading_keeps_cert: "pki_read su p w = (w', Inr q) \<Longrightarrow> rf_cert p = None \<Longrightarrow> rf_cert q = None"
  using pki_read_success by metis

lemma ca_init_runs:
  assumes su: "permits su" and p: "ref_sane w p" "rf_cert p = None"
  shows "\<exists>w' ca. ca_init su a p w = (w', Inr ca)"
proof -
  obtain q where q: "pki_read su p w = (w, Inr q)"
    using pki_read_runs[OF p(1)] by blast
  obtain v k where k: "ensure_key q w = (v, Inr (q\<lparr>rf_key := Some k\<rparr>))"
    using ensure_key_runs by blast
  obtain w' where "pki_write su (q\<lparr>rf_key := Some k, rf_cert := Some (ca_template su a k)\<rparr>) v = (w', Inr ())"
    using pki_write_runs[OF su] by blast
  then show ?thesis
    using reading_keeps_cert[OF q p(2)]
    by (simp add: ca_init_def and_then_def q k Let_def permits_runs[OF su] give_def)
qed

lemma issue_runs:
  assumes su: "permits su" and p: "ref_sane w p" "rf_cert p = None"
    and ca: "rf_cert (au_ref ca) \<noteq> None" "rf_key (au_ref ca) \<noteq> None"
  shows "\<exists>w'. issue_certificate su ca p r w = (w', Inr ())"
proof -
  obtain q where q: "pki_read su p w = (w, Inr q)"
    using pki_read_runs[OF p(1)] by blast
  obtain v k where k: "ensure_key q w = (v, Inr (q\<lparr>rf_key := Some k\<rparr>))"
    using ensure_key_runs by blast
  obtain w' where "pki_write su (q\<lparr>rf_key := Some k, rf_cert := Some (leaf_cert su r (the (rf_key (au_ref ca))) k)\<rparr>) v = (w', Inr ())"
    using pki_write_runs[OF su] by blast
  moreover have "certificate_for_request su ca r (csr_of r k) v =
      (v, Inr (leaf_cert su r (the (rf_key (au_ref ca))) k))"
    by (simp add: certificate_for_request_def csr_of_def check_def and_then_def give_def leaf_cert_def)
  ultimately show ?thesis
    using reading_keeps_cert[OF q p(2)] ca
    by (auto simp: issue_certificate_def sign_def and_then_def q k Let_def permits_runs[OF su] give_def)
qed


lemma get_ca_runs:
  assumes su: "permits su" and p: "ref_sane w (ca_ref c n)"
  shows "\<exists>w' ca. get_ca su (ca_ref c) ca_text n w = (w', Inr (Some ca))"
proof -
  obtain w' ca where "ca_init su \<lparr>au_name = ca_text n, au_lifetime = 0, au_ref = ca_ref c n\<rparr> (ca_ref c n) w = (w', Inr ca)"
    using ca_init_runs[OF su p] by (force simp: ca_ref_def)
  then show ?thesis
    by (simp add: get_ca_def split: option.split)
qed

lemma ref_sane_stored: "stored w p t \<Longrightarrow> ref_sane w p"
  by (simp add: ref_sane_def stored_def)

lemma ref_sane_frame: "ref_sane w p \<Longrightarrow> same_except ps w w' \<Longrightarrow> ps \<inter> ref_paths p = {} \<Longrightarrow> ref_sane w' p"
  by (auto simp: ref_sane_def same_except_def ref_paths_def)

lemma item_step_runs:
  assumes root: "cluster_root c rs" and su: "permits su"
    and w: "cas_ok (ca_ref c) w" "sane c w" "file_name (item_name x)"
  shows "\<exists>w'. item_step su c x w = (w', Inr ())"
proof -
  obtain r e where x: "x = (r, e)" by fastforce
  have name: "file_name (cr_name r)"
    using w(3) x by (simp add: item_name_def)
  obtain v ca where v: "get_ca su (ca_ref c) ca_text (cr_signer r) w = (v, Inr (Some ca))"
    using get_ca_runs[OF su, of w c "cr_signer r"] w(2) by (auto simp: sane_def)
  note ca = files.get_ca_success[where rs = rs and c = c, unfolded rooted_id[OF root], OF v w(1)]
  have loaded: "rf_cert (au_ref ca) \<noteq> None" "rf_key (au_ref ca) \<noteq> None"
    using ca by (auto simp: authority_ok_def)
  have "place_path rs ` ca_places n \<inter> place_path rs ` leaf_places (cr_name r) = {}" for n
    by (rule place_image_disjoint) (use root name in \<open>simp_all add: cluster_root_def ca_places_def leaf_places_def\<close>)
  then have "ref_paths (ca_ref c (cr_signer r)) \<inter> ref_paths (cert_ref c (cr_name r)) = {}"
    by (simp only: ref_paths_places[OF root] ref_paths_places(2)[OF root name])
  moreover have "ref_sane w (cert_ref c (cr_name r))"
    using w(2) name by (simp add: sane_def)
  ultimately have "ref_sane v (cert_ref c (cr_name r))"
    using ca by (auto split: if_splits intro: ref_sane_frame)
  moreover have "rf_cert (cert_ref c (cr_name r)) = None"
    by (simp add: cert_ref_def)
  ultimately obtain u where "issue_certificate su ca (cert_ref c (cr_name r)) r v = (u, Inr ())"
    using issue_runs[OF su _ _ loaded] by blast
  then have "issue_step su (ca_ref c) ca_text (cert_ref c) r w = (u, Inr ())"
    by (simp add: issue_step_def and_then_def v)
  then show ?thesis
    by (simp add: x and_then_def kubeconfig_write_def permits_runs[OF su] give_def split: option.split prod.split)
qed

lemma sane_frame:
  assumes root: "cluster_root c rs" and w: "sane c w"
    and d: "differ_at rs ps w w'" "places_ok ps"
    and apart: "\<And>n. ps \<inter> ca_places n = {} \<or> ref_sane w' (ca_ref c n)"
      "\<And>a. file_name a \<Longrightarrow> ps \<inter> leaf_places a = {} \<or> ref_sane w' (cert_ref c a)"
  shows "sane c w'"
proof -
  have rs: "list_all plain_elem rs"
    using root by (simp add: cluster_root_def)
  have same: "same_except (place_path rs ` ps) w w'"
    using d(1) by (simp add: differ_at_def)
  have "ref_sane w' (ca_ref c n)" for n
  proof (cases "ps \<inter> ca_places n = {}")
    case True
    have "ref_sane w (ca_ref c n)"
      using w by (simp add: sane_def)
    then show ?thesis
      by (rule ref_sane_frame[OF _ same])
        (simp add: ref_paths_places(1)[OF root] place_image_disjoint[OF rs d(2) _ True])
  qed (use apart(1) in auto)
  moreover have "ref_sane w' (cert_ref c a)" if a: "file_name a" for a
  proof (cases "ps \<inter> leaf_places a = {}")
    case True
    have "ref_sane w (cert_ref c a)"
      using w a by (simp add: sane_def)
    then show ?thesis
      by (rule ref_sane_frame[OF _ same])
        (simp add: ref_paths_places(2)[OF root a] place_image_disjoint[OF rs d(2) _ True] a)
  qed (use apart(2)[OF a] in auto)
  ultimately show ?thesis
    by (simp add: sane_def)
qed

lemma item_step_sane:
  assumes root: "cluster_root c rs" and s: "item_step su c x w = (w', Inr ())"
    and w: "cas_ok (ca_ref c) w" "sane c w" "file_name (item_name x)"
    and kube: "snd x \<noteq> None \<longrightarrow> cached w APIServerCA"
  shows "sane c w'"
proof (rule sane_frame[OF root w(2)])
  note step = item_step_success[OF root s w(1,3) kube]
  have chain: "chain_ok su (ca_ref c) (cert_ref c) w' (fst x)"
    using step by (cases x) simp
  show "differ_at rs (step_places w x) w w'" "places_ok (step_places w x)"
    using step item_places_ok[OF w(3)] by simp_all
  show "step_places w x \<inter> ca_places n = {} \<or> ref_sane w' (ca_ref c n)" for n
  proof (cases "n = cr_signer (fst x)")
    case True
    then show ?thesis using chain by (auto simp: chain_ok_def intro: ref_sane_stored)
  next
    case False
    then show ?thesis by (cases x) (auto simp: ca_places_def leaf_places_def)
  qed
  show "step_places w x \<inter> leaf_places a = {} \<or> ref_sane w' (cert_ref c a)" for a
  proof (cases "a = item_name x")
    case True
    then show ?thesis using chain by (auto simp: chain_ok_def item_name_def intro: ref_sane_stored)
  next
    case False
    then show ?thesis by (cases x) (auto simp: ca_places_def leaf_places_def item_name_def)
  qed
qed


subsection \<open>The phases of Init\<close>

lemma item_steps_run:
  assumes root: "cluster_root c rs" and su: "permits su"
    and w: "cas_ok (ca_ref c) w" "sane c w" "list_all (\<lambda>x. file_name (item_name x)) xs"
    and kube: "list_ex (\<lambda>x. snd x \<noteq> None) xs \<longrightarrow> cached w APIServerCA"
  shows "\<exists>w'. for_each (item_step su c) xs w = (w', Inr ()) \<and> sane c w'"
proof -
  define I where "I v \<longleftrightarrow> cas_ok (ca_ref c) v \<and> sane c v \<and> (cached w APIServerCA \<longrightarrow> cached v APIServerCA)" for v
  have "\<exists>w'. for_each (item_step su c) xs w = (w', Inr ()) \<and> I w'"
  proof (rule for_each_progress)
    show "I w"
      using w by (simp add: I_def)
  next
    fix x v assume x: "x \<in> set xs" and v: "I v"
    then have iv: "cas_ok (ca_ref c) v" "sane c v" "file_name (item_name x)"
      using w(3) by (auto simp: I_def list_all_iff)
    have k: "snd x \<noteq> None \<longrightarrow> cached v APIServerCA"
      using x v kube by (auto simp: I_def list_ex_iff)
    obtain v' where v': "item_step su c x v = (v', Inr ())"
      using item_step_runs[OF root su iv] by blast
    then show "\<exists>v'. item_step su c x v = (v', Inr ()) \<and> I v'"
      using item_step_success[OF root v' iv(1,3) k] item_step_sane[OF root v' iv k] v by (auto simp: I_def cached_def)
  qed
  then show ?thesis
    by (auto simp: I_def)
qed

lemma requests_run:
  assumes root: "cluster_root c rs" and su: "permits su" and w: "cas_ok (ca_ref c) w" "sane c w"
  shows "\<exists>u. for_each (request_step su ul c) (leaf_requests c) w = (u, Inr ()) \<and> sane c u"
proof -
  let ?S = "request_items ul c (server_requests c)" and ?C = "request_items ul c (client_requests c)"
  have names: "list_all (\<lambda>x. file_name (item_name x)) ?S" "list_all (\<lambda>x. file_name (item_name x)) ?C"
    using request_items_names(2)[of ul c] by simp_all
  obtain v where v: "for_each (item_step su c) ?S w = (v, Inr ())" "sane c v"
    using item_steps_run[OF root su w names(1)] server_items_plain[of ul c] by (auto simp: list_ex_iff list_all_iff)
  note 1 = server_requests_issued[OF root w(1) v(1)]
  obtain u where u: "for_each (item_step su c) ?C v = (u, Inr ())" "sane c u"
    using item_steps_run[OF root su _ v(2) names(2)] 1 by blast
  then show ?thesis
    using v(1) unfolding request_steps_items leaf_requests_def request_items_append for_each_append by blast
qed

lemma jwks_write_runs:
  "permits su \<Longrightarrow> role = ''encryption'' \<or> role = ''signing'' \<Longrightarrow> \<exists>w'. jwks_write su jkr kid role w = (w', Inr ())"
  by (auto simp: jwks_write_def new_jwk_def and_then_def fresh_key_def give_def permits_runs Let_def
      split: prod.split option.split)

lemma init_files_run:
  assumes root: "cluster_root c rs" and su: "permits su" and json: "\<forall>x. \<exists>t. json x = Inr t"
    and w: "sane c w" "wd_files w (rf_cert_path (ca_ref c WebhookServerCA)) \<noteq> None"
  shows "\<exists>w'. for_each (\<lambda>f. f) (init_files su json c) w = (w', Inr ()) \<and> sane c w'"
proof -
  define I where "I v \<longleftrightarrow> sane c v \<and> wd_files v (rf_cert_path (ca_ref c WebhookServerCA)) \<noteq> None" for v
  have rs: "list_all plain_elem rs"
    using root by (simp add: cluster_root_def)
  have "\<exists>w'. for_each (\<lambda>f. f) (init_files su json c) w = (w', Inr ()) \<and> I w'"
  proof (rule for_each_progress)
    show "I w"
      using w by (simp add: I_def)
  next
    fix f v assume f: "f \<in> set (init_files su json c)" and v: "I v"
    obtain pem where pem: "file_data (rf_cert_path (ca_ref c WebhookServerCA)) v = Some pem"
      using v by (auto simp: I_def file_data_def)
    have j: "config_write_object su p (json x) u = (u\<lparr>wd_files := (wd_files u)(p \<mapsto> TextFile (projr (json x)))\<rparr>, Inr ())" for p x u
      using json[rule_format, of x] by (auto simp: config_write_object_def and_then_def permits_runs[OF su])
    have "\<exists>v'. f v = (v', Inr ())"
      using f jwks_write_runs[OF su] pem
      by (auto simp: init_files_def make_extension_kubeconfig_def kubeconfig_write_def config_write_def and_then_def
          permits_runs[OF su] make_egress_selector_config_def make_authentication_config_def make_authorization_config_def
          make_admission_config_def make_audit_policy_def make_encryption_provider_config_def make_admission_webhook_def
          make_api_service_def j Let_def)
    then obtain v' where v': "f v = (v', Inr ())"
      by blast
    then have d: "differ_at rs file_places v v'"
      using init_files_writes[OF root, of su json] f by (auto simp: list_all_iff writes_at_def)
    have "sane c v'"
      by (rule sane_frame[OF root _ d]) (use v in \<open>auto simp: I_def ca_places_def leaf_places_def\<close>)
    moreover have "wd_files v' (rf_cert_path (ca_ref c WebhookServerCA)) = wd_files v (rf_cert_path (ca_ref c WebhookServerCA))"
      unfolding ref_places[OF root] by (rule differ_at_same[OF rs d]) simp_all
    ultimately show "\<exists>v'. f v = (v', Inr ()) \<and> I v'"
      using v v' by (simp add: I_def)
  qed
  then show ?thesis
    by (auto simp: I_def)
qed


lemma init_runs:
  assumes root: "cluster_root c rs" and su: "permits su" and json: "\<forall>x. \<exists>t. json x = Inr t" and yaml: "\<forall>x. yaml x \<noteq> None"
    and w: "cas_ok (ca_ref c) w" "sane c w" and nodes: "list_all file_name (cc_nodes c)"
  shows "\<exists>w'. init_control su json yaml ul c w = (w', Inr ()) \<and> sane c w'"
proof -
  have w0: "cas_ok (ca_ref c) (w\<lparr>wd_objects := []\<rparr>)" "sane c (w\<lparr>wd_objects := []\<rparr>)"
    using w by (simp_all add: cas_ok_def authority_ok_def stored_def sane_def ref_sane_def)
  obtain u where u: "for_each (request_step su ul c) (leaf_requests c) (w\<lparr>wd_objects := []\<rparr>) = (u, Inr ())" "sane c u"
    using requests_run[OF root su w0] by blast
  note issued = requests_issued[OF root w0(1) u(1)]
  have "list_ex (\<lambda>x. cr_signer (fst x) = WebhookServerCA) (request_items ul c (leaf_requests c))"
    by (simp add: request_items_def leaf_requests_def server_requests_def leaf_request_def)
  then obtain r e where "(r, e) \<in> set (request_items ul c (leaf_requests c))" "cr_signer r = WebhookServerCA"
    by (auto simp: list_ex_iff)
  then have "chain_ok su (ca_ref c) (cert_ref c) u r" "cr_signer r = WebhookServerCA"
    using issued by (fastforce simp: list_all_iff)+
  then have "wd_files u (rf_cert_path (ca_ref c WebhookServerCA)) \<noteq> None"
    by (auto simp: chain_ok_def stored_def)
  then obtain v where v: "for_each (\<lambda>f. f) (init_files su json c) u = (v, Inr ())" "sane c v"
    using init_files_run[OF root su json u(2)] by blast
  have "cas_ok (ca_ref c) v \<and> list_all (issued su c v) [] \<and> wd_cas v = wd_cas u"
    by (rule init_files_keep[OF root v(1) init_files_writes[OF root]]) (use issued in simp_all)
  moreover have "list_all (\<lambda>x. file_name (item_name x)) (node_items c)"
    using nodes by (simp only: item_names_list names_of_requests)
  ultimately obtain x where x: "for_each (set_up_node su c) (cc_nodes c) v = (x, Inr ())" "sane c x"
    using item_steps_run[OF root su _ v(2), of "node_items c"] issued by (auto simp: node_steps_items cached_def)
  obtain t where t: "as_yaml yaml (wd_objects x) = Some t"
  proof -
    have "as_yaml yaml xs \<noteq> None" for xs
      using yaml by (induction xs) (auto split: option.split)
    then show thesis using that by blast
  qed
  define w' where "w' = x\<lparr>wd_files := (wd_files x)(place_path rs (ConfP [''syncer.objects'']) \<mapsto> TextFile (normal_text t))\<rparr>"
  have "write_objects su yaml c x = (w', Inr ())"
    by (simp add: write_objects_def t config_write_def and_then_def permits_runs[OF su] config_refs[OF root] w'_def)
  then have "init_control su json yaml ul c w = (w', Inr ())"
    using u(1) v(1) x(1) unfolding init_control_def and_then_success first_error_success by blast
  moreover have "sane c w'"
  proof (rule sane_frame[OF root x(2)])
    show "differ_at rs {ConfP [''syncer.objects'']} x w'"
      unfolding w'_def by (rule differ_at_write) simp
  qed (simp_all add: ca_places_def leaf_places_def)
  ultimately show ?thesis
    by blast
qed

text \<open>
  C14. Init succeeds and can be repeated: when directories can be made, files written and templates
  signed, \<open>Init\<close> returns no error on a root whose certificate and key files, if they exist, can be parsed
  (an empty one in particular), whatever is in the other files; and a later process, whose caches are
  empty, succeeds on what it has left.
\<close>

theorem init_can_be_repeated:
  assumes "cluster_root c rs" "permits su" "permits su'" "\<forall>x. \<exists>t. json x = Inr t" "\<forall>x. yaml x \<noteq> None"
    and "cas_ok (ca_ref c) w" "sane c w" "list_all file_name (cc_nodes c)"
  shows "\<exists>w1 w2. init_control su json yaml ul c w = (w1, Inr ()) \<and>
    init_control su' json yaml ul c (w1\<lparr>wd_cas := []\<rparr>) = (w2, Inr ()) \<and> sane c w2"
proof -
  obtain w1 where w1: "init_control su json yaml ul c w = (w1, Inr ())" "sane c w1"
    using init_runs[OF assms(1,2,4,5,6,7,8)] by blast
  have "cas_ok (ca_ref c) (w1\<lparr>wd_cas := []\<rparr>)" "sane c (w1\<lparr>wd_cas := []\<rparr>)"
    using w1(2) by (simp_all add: cas_ok_def sane_def ref_sane_def)
  then show ?thesis
    using w1(1) init_runs[OF assms(1,3,4,5) _ _ assms(8)] by blast
qed

subsection \<open>A cluster\<close>

definition sample_config :: config where
  "sample_config = \<lparr>cc_name = ''default'', cc_root = ''/srv/rk'', cc_external = ''default.runkube.local'',
     cc_range = Some (V6 0, 64), cc_nodes = [''node-a'']\<rparr>"

definition encode_nothing :: "webhook_configuration \<Rightarrow> failure + string" where
  "encode_nothing x = Inr ''{}''"

lemma sample_config_ok:
  "cluster_root sample_config [''srv'', ''rk'']" "node_names_ok sample_config" "list_all file_name (cc_nodes sample_config)"
  "cas_ok (ca_ref sample_config) empty_world" "sane sample_config empty_world" "permits calm"
  "\<forall>x. \<exists>t. encode_nothing x = Inr t"
  by (simp_all add: cluster_root_def sample_config_def plain_elem_def abs_path_def slash_def node_names_ok_def file_name_def
      request_names_def cas_ok_def empty_world_def sane_def ref_sane_def permits_def calm_def encode_nothing_def)

lemma sample_init: "\<exists>w'. init_control calm encode_nothing (\<lambda>_. Some []) False sample_config empty_world = (w', Inr ())"
  using init_runs[OF sample_config_ok(1,6,7) _ sample_config_ok(4,5,3), of "\<lambda>_. Some []" False] by auto

lemma init_issues_chains_witness:
  "\<exists>w'. init_control calm encode_nothing (\<lambda>_. Some []) False sample_config empty_world = (w', Inr ()) \<and>
     list_all (issued calm sample_config w') (items False sample_config)"
  using sample_init init_issues_chains[OF sample_config_ok(1,2,4)] by fastforce

lemma init_can_be_repeated_witness:
  "\<exists>w. init_control calm encode_nothing (\<lambda>_. Some []) False sample_config empty_world = (w, Inr ())"
  using init_can_be_repeated[OF sample_config_ok(1,6,6,7) _ sample_config_ok(4,5,3), of "\<lambda>_. Some []" False]
  by auto

end
