(* ===== verification/Proc.thy ===== *)
theory Proc
  imports Main
begin

section \<open>Processes (procman's process.Process)\<close>

text \<open>What the program sets of a process: its tag and its arguments, the program first.\<close>

record proc =
  pr_tag :: string
  pr_args :: "string list"

end
