(* ===== verification/Processes.thy ===== *)
theory Processes
  imports Control_Progress Proc
begin

section \<open>The processes of a cluster (comps.go)\<close>

text \<open>
  The command lines of the processes the program starts and replaces itself with. The path of its
  own executable is an argument.
\<close>

definition etcd_process :: "config \<Rightarrow> proc" where
  "etcd_process c =
     (let etcd_name = cc_name c @ ''-etcd'';
          serving = cert_ref c ''etcd-serving'';
          peer_client = cert_ref c ''etcd-peer-client'';
          ca = rf_cert_path (ca_ref c EtcdCA)
      in \<lparr>pr_tag = ''etcd'', pr_args =
        [''etcd'',
         ''--name'', etcd_name,
         ''--log-level'', ''warn'',
         ''--data-dir'', etcd_dir c,
         ''--listen-client-urls'', unix_socket_path_url c ''etcd'',
         ''--listen-peer-urls'', unix_socket_path_url c ''etcd-peer'',
         ''--listen-client-http-urls'', unix_socket_path_url c ''etcd-http'',
         ''--initial-cluster'', etcd_name @ ''='' @ internal_listen_url 443 [],
         ''--advertise-client-urls'', internal_listen_url 443 [],
         ''--initial-advertise-peer-urls'', internal_listen_url 443 [],
         ''--cert-file'', rf_cert_path serving,
         ''--key-file'', rf_key_path serving,
         ''--peer-cert-file'', rf_cert_path serving,
         ''--peer-key-file'', rf_key_path serving,
         ''--peer-client-cert-file'', rf_cert_path peer_client,
         ''--peer-client-key-file'', rf_key_path peer_client,
         ''--trusted-ca-file'', ca,
         ''--peer-trusted-ca-file'', ca]\<rparr>)"

definition api_server_process :: "config \<Rightarrow> proc" where
  "api_server_process c =
     \<lparr>pr_tag = ''api'', pr_args =
        [''kube-apiserver'',
         ''-v'', ''0'',
         ''--profiling=false'',
         ''--feature-gates=AllAlpha=true,AllBeta=true'',
         ''--logging-format=json'',
         ''--bind-address'', show_addr internal_listen_addr,
         ''--secure-port=6443'',
         ''--tls-cert-file'', rf_cert_path (cert_ref c ''apiserver-serving''),
         ''--tls-private-key-file'', rf_key_path (cert_ref c ''apiserver-serving''),
         ''--proxy-client-cert-file'', rf_cert_path (cert_ref c ''apiserver-extension-client''),
         ''--proxy-client-key-file'', rf_key_path (cert_ref c ''apiserver-extension-client''),
         ''--external-hostname'', cc_external c,
         ''--advertise-address'', kubernetes_service_address c,
         ''--etcd-servers'', unix_socket_path_url c ''etcd'',
         ''--etcd-cafile'', rf_cert_path (ca_ref c EtcdCA),
         ''--etcd-certfile'', rf_cert_path (cert_ref c ''apiserver-etcd-client''),
         ''--etcd-keyfile'', rf_key_path (cert_ref c ''apiserver-etcd-client''),
         ''--encryption-provider-config'', config_ref c ''encryption-provider-config'',
         ''--runtime-config'', ''api/all=true'',
         ''--service-cluster-ip-range'', service_address_range c,
         ''--audit-policy-file'', config_ref c ''audit-policy'',
         ''--audit-webhook-config-file'', kube_config_ref c ''audit-webhook'',
         ''--audit-webhook-batch-throttle-enable=false'',
         ''--authorization-config'', config_ref c ''authorization-config'',
         ''--enable-admission-plugins'', ''NodeRestriction,DenyServiceExternalIPs'',
         ''--admission-control-config-file'', config_ref c ''admission-config'',
         ''--allow-privileged=false'',
         ''--authentication-config'', config_ref c ''authentication-config'',
         ''--anonymous-auth=true'',
         ''--enable-bootstrap-token-auth=false'',
         ''--authentication-token-webhook-config-file'', kube_config_ref c ''authentication-token-webhook'',
         ''--client-ca-file'', rf_cert_path (ca_ref c APIClientCA),
         ''--requestheader-client-ca-file'', rf_cert_path (ca_ref c RequestHeaderCA),
         ''--requestheader-extra-headers-prefix=X-Remote-Extra-'',
         ''--requestheader-group-headers=X-Remote-Group'',
         ''--requestheader-username-headers=X-Remote-User'',
         ''--requestheader-uid-headers=X-Remote-UID'',
         ''--service-account-lookup=false'',
         ''--service-account-issuer'', ''https://'' @ cc_external c,
         ''--service-account-max-token-expiration=1h'',
         ''--service-account-extend-token-expiration=false'',
         ''--service-account-signing-endpoint'', unix_socket_opaque c ''jwtsigner'',
         ''--kubelet-certificate-authority'', rf_cert_path (ca_ref c KubeletServerCA),
         ''--kubelet-client-certificate'', rf_cert_path (cert_ref c ''apiserver-kubelet-client''),
         ''--kubelet-client-key'', rf_key_path (cert_ref c ''apiserver-kubelet-client''),
         ''--kubelet-preferred-address-types'', ''Hostname'',
         ''--egress-selector-config-file'', config_ref c ''egress-selector-config'']\<rparr>"

definition controller_process :: "config \<Rightarrow> proc" where
  "controller_process c =
     \<lparr>pr_tag = ''controller'', pr_args =
        [''kube-controller-manager'',
         ''-v'', ''0'',
         ''--feature-gates=AllAlpha=true,AllBeta=true'',
         ''--profiling=false'',
         ''--logging-format=json'',
         ''--leader-elect=false'',
         ''--bind-address'', show_addr internal_listen_addr,
         ''--tls-cert-file'', rf_cert_path (cert_ref c ''controller-manager-server''),
         ''--tls-private-key-file'', rf_key_path (cert_ref c ''controller-manager-server''),
         ''--kubeconfig'', kube_config_ref c ''controller-manager-client'',
         ''--authentication-kubeconfig'', kube_config_ref c ''controller-manager-authnz'',
         ''--authorization-kubeconfig'', kube_config_ref c ''controller-manager-authnz'',
         ''--authentication-tolerate-lookup-failure=true'',
         ''--use-service-account-credentials=true'',
         ''--controllers'', ''*,-serviceaccount-token-controller,-legacy-serviceaccount-token-cleaner-controller'']\<rparr>"

definition scheduler_process :: "config \<Rightarrow> proc" where
  "scheduler_process c =
     \<lparr>pr_tag = ''scheduler'', pr_args =
        [''kube-scheduler'',
         ''-v'', ''0'',
         ''--feature-gates=AllAlpha=true,AllBeta=true'',
         ''--profiling=false'',
         ''--logging-format=json'',
         ''--bind-address'', show_addr internal_listen_addr,
         ''--tls-cert-file'', rf_cert_path (cert_ref c ''scheduler-server''),
         ''--tls-private-key-file'', rf_key_path (cert_ref c ''scheduler-server''),
         ''--leader-elect=false'',
         ''--kubeconfig'', kube_config_ref c ''scheduler-client'',
         ''--authentication-kubeconfig'', kube_config_ref c ''scheduler-authnz'',
         ''--authorization-kubeconfig'', kube_config_ref c ''scheduler-authnz'',
         ''--authentication-tolerate-lookup-failure=true'']\<rparr>"

text \<open>The program's own services, started from its own executable.\<close>

definition webhook_process :: "string \<Rightarrow> proc" where
  "webhook_process self = \<lparr>pr_tag = ''webhook'', pr_args = [self, ''webhook'']\<rparr>"

definition kms_process :: "string \<Rightarrow> proc" where
  "kms_process self = \<lparr>pr_tag = ''kms'', pr_args = [self, ''kms'']\<rparr>"

definition jwt_signer_process :: "string \<Rightarrow> proc" where
  "jwt_signer_process self = \<lparr>pr_tag = ''jwtsigner'', pr_args = [self, ''jwtsigner'']\<rparr>"


definition node_processes :: "string \<Rightarrow> config \<Rightarrow> proc list" where
  "node_processes self c = map (\<lambda>n. \<lparr>pr_tag = n, pr_args = [self, ''node'', n]\<rparr>) (cc_nodes c)"

text \<open>The formation that \<open>Run\<close> hands to the process manager: its processes and its working directory.\<close>

definition formation :: "string \<Rightarrow> config \<Rightarrow> proc list \<times> string" where
  "formation self c =
     ([etcd_process c, api_server_process c, controller_process c, scheduler_process c,
       webhook_process self, kms_process self, jwt_signer_process self] @ node_processes self c, cc_root c)"

subsection \<open>Commands with the credentials of the administrator\<close>

definition cut :: "char \<Rightarrow> string \<Rightarrow> string" where
  "cut sep s = takeWhile (\<lambda>ch. ch \<noteq> sep) s"

definition safe_variables :: "string list" where
  "safe_variables =
     [''PATH'', ''TERM'', ''COLORTERM'', ''HOME'', ''SHELL'', ''PWD'', ''OLDPWD'', ''USER'', ''USERNAME'', ''LANG'']"

definition make_safe_env :: "string list \<Rightarrow> string list" where
  "make_safe_env env = filter (\<lambda>s. cut CHR ''='' s \<in> set safe_variables) env"

text \<open>
  What replaces the process: the program found on the path, its arguments and its environment, or the
  error of looking it up.
\<close>

datatype replacement = Replace string "string list" "string list" | NoProgram string

definition kubectl_exec :: "(string \<Rightarrow> string option) \<Rightarrow> config \<Rightarrow> string list \<Rightarrow> string list \<Rightarrow> replacement" where
  "kubectl_exec look_path c env args =
     (let final_env = make_safe_env env @ [''KUBECONFIG='' @ kube_config_ref c ''system-admin'']
      in case look_path ''kubectl'' of None \<Rightarrow> NoProgram ''kubectl'' | Some p \<Rightarrow> Replace p args final_env)"

definition curl_exec :: "(string \<Rightarrow> string option) \<Rightarrow> config \<Rightarrow> string list \<Rightarrow> string list \<Rightarrow> replacement" where
  "curl_exec look_path c env args =
     (let final_env = make_safe_env env
      in case look_path ''curl'' of
           None \<Rightarrow> NoProgram ''curl''
         | Some p \<Rightarrow> Replace p
             ([p, ''--fail-with-body'', ''-sSLvo-'',
               ''--cacert'', rf_cert_path (ca_ref c APIServerCA),
               ''--cert'', rf_cert_path (cert_ref c ''system-admin''),
               ''--key'', rf_key_path (cert_ref c ''system-admin'')] @ args) final_env)"

definition etcdctl_exec :: "(string \<Rightarrow> string option) \<Rightarrow> config \<Rightarrow> string list \<Rightarrow> string list \<Rightarrow> replacement" where
  "etcdctl_exec look_path c env args =
     (let final_env = make_safe_env env @
            [''ETCDCTL_ENDPOINTS='' @ unix_socket_path_url c ''etcd'',
             ''ETCDCTL_CACERT='' @ rf_cert_path (ca_ref c EtcdCA),
             ''ETCDCTL_CERT='' @ rf_cert_path (cert_ref c ''apiserver-etcd-client''),
             ''ETCDCTL_KEY='' @ rf_key_path (cert_ref c ''apiserver-etcd-client'')]
      in case look_path ''etcdctl'' of None \<Rightarrow> NoProgram ''etcdctl'' | Some p \<Rightarrow> Replace p args final_env)"

text \<open>The values of a variable in an environment.\<close>

definition env_values :: "string \<Rightarrow> string list \<Rightarrow> string list" where
  "env_values k env = map (\<lambda>s. drop (Suc (length k)) s) (filter (\<lambda>s. cut CHR ''='' s = k) env)"

lemma env_values_append: "env_values k (xs @ ys) = env_values k xs @ env_values k ys"
  by (simp add: env_values_def)

lemma env_values_safe: "env_values k (make_safe_env env) = (if k \<in> set safe_variables then env_values k env else [])"
  by (auto simp: env_values_def make_safe_env_def filter_empty_conv intro!: arg_cong[of _ _ "map _"] filter_cong)

lemma cut_prefix: "sep \<notin> set k \<Longrightarrow> cut sep (k @ sep # v) = k"
  by (induction k) (auto simp: cut_def)

lemma env_values_set:
  "CHR ''='' \<notin> set k \<Longrightarrow> env_values j [k @ CHR ''='' # v] = (if j = k then [v] else [])"
  by (auto simp: env_values_def cut_prefix)

text \<open>
  The environment of \<open>kubectl\<close> holds the variables on the list with the values of the caller, the
  kubeconfig of the administrator as its only \<open>KUBECONFIG\<close>, and nothing else.
\<close>

lemma kubectl_environment:
  assumes "kubectl_exec look_path c env args = Replace p args' env'"
  shows "args' = args \<and> env_values k env' =
    (if k = ''KUBECONFIG'' then [kube_config_ref c ''system-admin'']
     else if k \<in> set safe_variables then env_values k env else [])"
proof -
  have "env' = make_safe_env env @ [''KUBECONFIG='' @ kube_config_ref c ''system-admin'']" "args' = args"
    using assms by (auto simp: kubectl_exec_def Let_def split: option.splits)
  then show ?thesis
    using env_values_set[of "''KUBECONFIG''" k "kube_config_ref c ''system-admin''"]
    by (auto simp: env_values_append env_values_safe safe_variables_def)
qed

end
