(* ===== verification/Control_Files.thy ===== *)
theory Control_Files
  imports Processes
begin

section \<open>The files the processes read\<close>

text \<open>
  What the processes of the control plane are given on their command lines exists after \<open>Init\<close>, and the
  certificates they hold are signed by the authorities their peers trust.
\<close>

subsection \<open>The files after Init, by their places\<close>

text \<open>A leaf beside its key, under a stored authority.\<close>

definition leaf_of :: "world \<Rightarrow> config \<Rightarrow> cert_request \<Rightarrow> bool" where
  "leaf_of w c r \<longleftrightarrow>
     (\<exists>ca crt. stored w (ca_ref c (cr_signer r)) ca \<and> ct_ca ca \<and> stored w (cert_ref c (cr_name r)) crt \<and>
        ct_signer crt = ct_key ca \<and> ct_cn crt = cr_cn r \<and> ct_o crt = cr_o r \<and> ct_san crt = cr_san r \<and>
        ct_usages crt = cr_usages r)"

lemma chain_leaf: "chain_ok su (ca_ref c) (cert_ref c) w r \<Longrightarrow> leaf_of w c r"
proof -
  assume "chain_ok su (ca_ref c) (cert_ref c) w r"
  then obtain ca k where "stored w (ca_ref c (cr_signer r)) ca" "ct_ca ca"
      "stored w (cert_ref c (cr_name r)) (leaf_cert su r (ct_key ca) k)"
    by (auto simp: chain_ok_def)
  then show ?thesis
    unfolding leaf_of_def by (intro exI[of _ ca] exI[of _ "leaf_cert su r (ct_key ca) k"]) (simp add: leaf_cert_def)
qed

text \<open>The steps leave alone what does not belong to their items.\<close>

definition own_places :: "item list \<Rightarrow> place set" where
  "own_places xs =
     (\<Union>x \<in> set xs. ca_places (cr_signer (fst x)) \<union> leaf_places (item_name x) \<union> {KubeP (item_name x)})"

lemma item_steps_leave:
  assumes root: "cluster_root c rs" and s: "for_each (item_step su c) xs w = (w', Inr ())"
    and w: "cas_ok (ca_ref c) w" "list_ex (\<lambda>x. snd x \<noteq> None) xs \<longrightarrow> cached w APIServerCA"
    and xs: "list_all (\<lambda>x. file_name (item_name x)) xs"
    and p: "place_ok p" "p \<notin> own_places xs"
  shows "wd_files w' (place_path rs p) = wd_files w (place_path rs p)"
proof -
  have rs: "list_all plain_elem rs"
    using root by (simp add: cluster_root_def)
  have "cas_ok (ca_ref c) w' \<and> (cached w APIServerCA \<longrightarrow> cached w' APIServerCA) \<and>
      wd_files w' (place_path rs p) = wd_files w (place_path rs p)"
  proof (rule for_each_keeps[OF s])
    fix x v v' assume x: "x \<in> set xs" "item_step su c x v = (v', Inr ())"
      and v: "cas_ok (ca_ref c) v \<and> (cached w APIServerCA \<longrightarrow> cached v APIServerCA) \<and>
        wd_files v (place_path rs p) = wd_files w (place_path rs p)"
    have name: "file_name (item_name x)" and kube: "snd x \<noteq> None \<longrightarrow> cached v APIServerCA"
      using xs x(1) w(2) v by (auto simp: list_all_iff list_ex_iff)
    have step: "cas_ok (ca_ref c) v' \<and> issued su c v' x \<and> differ_at rs (step_places v x) v v' \<and>
        (\<forall>m. cached v m \<longrightarrow> map_of (wd_cas v') m = map_of (wd_cas v) m)"
      by (rule item_step_success[OF root x(2) _ name kube]) (use v in simp_all)
    have "p \<notin> ca_places (cr_signer (fst x)) \<union> leaf_places (item_name x) \<union> {KubeP (item_name x)}"
      using p(2) x(1) by (auto simp: own_places_def)
    then have out: "p \<notin> step_places v x"
      by (cases x) (auto simp: item_name_def split: if_splits)
    have "wd_files v' (place_path rs p) = wd_files v (place_path rs p)"
      by (rule differ_at_same[OF rs _ _ p(1) out]) (use step item_places_ok[OF name] in simp_all)
    then show "cas_ok (ca_ref c) v' \<and> (cached w APIServerCA \<longrightarrow> cached v' APIServerCA) \<and>
        wd_files v' (place_path rs p) = wd_files w (place_path rs p)"
      using step v by (simp add: cached_def)
  qed (use w in simp_all)
  then show ?thesis by simp
qed

text \<open>The files of \<open>Init\<close> between those of the requests and those of the nodes.\<close>

lemma init_phases:
  assumes root: "cluster_root c rs" and nodes: "node_names_ok c" and w: "cas_ok (ca_ref c) w"
    and init: "init_control su json yaml ul c w = (w', Inr ())"
  obtains u v where "for_each (\<lambda>f. f) (init_files su json c) u = (v, Inr ())"
    "\<forall>p. place_ok p \<and> p \<notin> own_places (request_items ul c (leaf_requests c)) \<longrightarrow>
       wd_files u (place_path rs p) = wd_files w (place_path rs p)"
    "\<forall>p. place_ok p \<and> p \<notin> own_places (node_items c) \<and> p \<noteq> ConfP [''syncer.objects''] \<longrightarrow>
       wd_files w' (place_path rs p) = wd_files v (place_path rs p)"
proof -
  have rs: "list_all plain_elem rs"
    using root by (simp add: cluster_root_def)
  let ?w = "w\<lparr>wd_objects := []\<rparr>"
  obtain u v x where s: "for_each (request_step su ul c) (leaf_requests c) ?w = (u, Inr ())"
      "for_each (\<lambda>f. f) (init_files su json c) u = (v, Inr ())"
      "for_each (item_step su c) (node_items c) v = (x, Inr ())" "write_objects su yaml c x = (w', Inr ())"
    using init by (auto simp: init_control_def success_iff node_steps_items)
  have cas: "cas_ok (ca_ref c) ?w"
    using w by (simp add: cas_ok_def authority_ok_def stored_def)
  note 1 = requests_issued[OF root cas s(1)]
  have 2: "cas_ok (ca_ref c) v \<and> list_all (issued su c v) [] \<and> wd_cas v = wd_cas u"
    by (rule init_files_keep[OF root s(2) init_files_writes[OF root]]) (use 1 in simp_all)
  let ?S = "request_items ul c (server_requests c)" and ?C = "request_items ul c (client_requests c)"
  obtain y where y: "for_each (item_step su c) ?S ?w = (y, Inr ())" "for_each (item_step su c) ?C y = (u, Inr ())"
    using s(1) unfolding request_steps_items leaf_requests_def request_items_append for_each_append by blast
  note 3 = server_requests_issued[OF root cas y(1)]
  have names: "list_all (\<lambda>x. file_name (item_name x)) (?S @ ?C)"
    using request_items_names by blast
  have early: "wd_files u (place_path rs p) = wd_files w (place_path rs p)"
    if p: "place_ok p" "p \<notin> own_places (request_items ul c (leaf_requests c))" for p
  proof -
    have out: "p \<notin> own_places ?S" "p \<notin> own_places ?C"
      using p(2) by (auto simp: own_places_def leaf_requests_def request_items_append)
    have "wd_files y (place_path rs p) = wd_files ?w (place_path rs p)"
      by (rule item_steps_leave[OF root y(1) cas _ _ p(1) out(1)])
        (use names server_items_plain[of ul c] in \<open>auto simp: list_all_iff list_ex_iff\<close>)
    moreover have "wd_files u (place_path rs p) = wd_files y (place_path rs p)"
      by (rule item_steps_leave[OF root y(2) _ _ _ p(1) out(2)]) (use names 3 in simp_all)
    ultimately show ?thesis by simp
  qed
  have node_names: "list_all (\<lambda>x. file_name (item_name x)) (node_items c)"
    using nodes item_names_list[of file_name "node_items c"]
    by (simp add: names_of_requests node_names_ok_def list_all_iff)
  obtain t where t: "w' = x\<lparr>wd_files := (wd_files x)(place_path rs (ConfP [''syncer.objects'']) \<mapsto> TextFile t)\<rparr>"
    using s(4) by (auto simp: write_objects_def success_iff config_refs[OF root] split: option.splits)
  have late: "wd_files w' (place_path rs p) = wd_files v (place_path rs p)"
    if p: "place_ok p" "p \<notin> own_places (node_items c)" "p \<noteq> ConfP [''syncer.objects'']" for p
  proof -
    have "wd_files x (place_path rs p) = wd_files v (place_path rs p)"
      by (rule item_steps_leave[OF root s(3) _ _ node_names p(1,2)]) (use 1 2 in \<open>simp_all add: cached_def\<close>)
    then show ?thesis
      using p by (simp add: t place_path_inj[OF rs])
  qed
  show thesis
    by (rule that[OF s(2)]) (use early late in blast)+
qed

text \<open>Names of nodes that leave the kubeconfigs of the webhooks alone too.\<close>

definition node_names_clear :: "config \<Rightarrow> bool" where
  "node_names_clear c \<longleftrightarrow> node_names_ok c \<and> list_all (\<lambda>n. n \<notin> extension_names) (cc_nodes c)"

lemma sample_config_clear: "node_names_clear sample_config"
  using sample_config_ok(2) by (simp add: node_names_clear_def sample_config_def extension_names_def)

text \<open>The kubeconfig of a webhook.\<close>

definition extension_kubeconfig :: "world \<Rightarrow> config \<Rightarrow> string \<Rightarrow> string \<Rightarrow> bool" where
  "extension_kubeconfig w c name srv \<longleftrightarrow>
     (\<exists>ca crt. stored w (ca_ref c WebhookServerCA) ca \<and> stored w (cert_ref c ''apiserver-extension-client'') crt \<and>
        wd_files w (kube_config_ref c name) =
          Some (KubeconfigFile srv None (Some (PemFile certificate_type (CertBytes ca)))
            (Some (PemFile certificate_type (CertBytes crt))) (Some (PemFile key_type (KeyBytes (ct_key crt))))))"

definition extension_servers :: "config \<Rightarrow> (string \<times> string) list" where
  "extension_servers c =
     [(''authentication-token-webhook'', internal_url c ''authentication-webhook''),
      (''authorization-webhook'', internal_url c ''authorization-webhook''),
      (''audit-webhook'', internal_url c ''audit-webhook'')]"

definition config_names :: "string list" where
  "config_names =
     [''egress-selector-config'', ''authentication-config'', ''authorization-config'', ''admission-config'',
      ''audit-policy'', ''encryption-provider-config'']"

lemma init_files_split:
  "init_files su json c =
     map (\<lambda>(n, srv). make_extension_kubeconfig su c n srv) (extension_servers c) @ drop 3 (init_files su json c)"
  by (simp add: init_files_def extension_servers_def)


lemma init_files_two:
  "for_each (\<lambda>f. f) (init_files su json c) u = (w, Inr ()) \<longleftrightarrow>
     (\<exists>v. for_each (\<lambda>f. f) (map (\<lambda>(n, srv). make_extension_kubeconfig su c n srv) (extension_servers c)) u = (v, Inr ()) \<and>
        for_each (\<lambda>f. f) (drop 3 (init_files su json c)) v = (w, Inr ()))"
  by (subst init_files_split) (rule for_each_append)

lemma for_each_did:
  assumes "for_each f xs w = (w', Inr u)" "x \<in> set xs"
  obtains v v' ys where "f x v = (v', Inr ())" "set ys \<subseteq> set xs" "for_each f ys v' = (w', Inr ())"
proof -
  obtain bs ys where "xs = bs @ x # ys"
    using assms(2) by (meson split_list)
  then show thesis
    using assms(1) that by (fastforce simp: success_iff)
qed

lemma kubeconfigs_written:
  assumes root: "cluster_root c rs"
    and s: "for_each (\<lambda>f. f) (map (\<lambda>(n, srv). make_extension_kubeconfig su c n srv) (extension_servers c)) u = (v, Inr ())"
  shows "differ_at rs file_places u v \<and>
    (\<forall>(n, srv) \<in> set (extension_servers c). wd_files v (kube_config_ref c n) =
       Some (KubeconfigFile srv None (wd_files u (rf_cert_path (ca_ref c WebhookServerCA)))
          (wd_files u (rf_cert_path (cert_ref c ''apiserver-extension-client'')))
          (wd_files u (rf_key_path (cert_ref c ''apiserver-extension-client'')))))"
proof -
  let ?leaf = "''apiserver-extension-client''"
  define kc where "kc srv = KubeconfigFile srv None (wd_files u (rf_cert_path (ca_ref c WebhookServerCA)))
      (wd_files u (rf_cert_path (cert_ref c ?leaf))) (wd_files u (rf_key_path (cert_ref c ?leaf)))" for srv
  have rs: "list_all plain_elem rs"
    using root by (simp add: cluster_root_def)
  have names: "file_name n \<and> n \<in> extension_names" if "(n, srv) \<in> set (extension_servers c)" for n srv
    using that by (auto simp: extension_servers_def extension_names_def)
  have leaf: "file_name ?leaf"
    by (simp add: file_name_def slash_def)
  have s': "for_each (\<lambda>(n, srv). make_extension_kubeconfig su c n srv) (extension_servers c) u = (v, Inr ())"
    using s by (simp add: for_each_map case_prod_beta')
  have step: "v' = v\<lparr>wd_files := (wd_files v)(place_path rs (KubeP n) \<mapsto> kc srv)\<rparr>"
    if "differ_at rs file_places u v" "make_extension_kubeconfig su c n srv v = (v', Inr ())" "(n, srv) \<in> set (extension_servers c)"
    for n srv v v'
  proof -
    have "wd_files v (place_path rs p) = wd_files u (place_path rs p)" if "p \<in> {CaCertP WebhookServerCA, LeafCertP ?leaf, LeafKeyP ?leaf}" for p
      by (rule differ_at_same[OF rs \<open>differ_at rs file_places u v\<close>]) (use that leaf in auto)
    then show ?thesis
      using that(2) names[OF that(3)]
      by (simp add: make_extension_kubeconfig_def success_iff file_data_def ref_places[OF root] kc_def leaf)
  qed
  have "differ_at rs file_places u v \<and>
      (\<forall>x \<in> set (extension_servers c). wd_files v (kube_config_ref c (fst x)) = Some (kc (snd x)))"
  proof (rule for_each_all[OF s'])
    show "distinct (extension_servers c)"
      by (simp add: extension_servers_def)
  next
    fix x v v' assume x: "x \<in> set (extension_servers c)" and v: "differ_at rs file_places u v"
      "(case x of (n, srv) \<Rightarrow> make_extension_kubeconfig su c n srv) v = (v', Inr ())"
    obtain n srv where ns: "x = (n, srv)" by fastforce
    have v': "v' = v\<lparr>wd_files := (wd_files v)(place_path rs (KubeP n) \<mapsto> kc srv)\<rparr>"
      using step[OF v(1)] v(2) x ns by simp
    have "differ_at rs file_places v v'"
      unfolding v' by (rule differ_at_write) (use names x ns in auto)
    then show "differ_at rs file_places u v' \<and> wd_files v' (kube_config_ref c (fst x)) = Some (kc (snd x))"
      using differ_at_trans[OF v(1)] names x ns by (simp add: v' ref_places[OF root])
  next
    fix x y v v' assume x: "x \<in> set (extension_servers c)" "y \<in> set (extension_servers c)" "x \<noteq> y"
      and v: "differ_at rs file_places u v" "wd_files v (kube_config_ref c (fst x)) = Some (kc (snd x))"
      "(case y of (n, srv) \<Rightarrow> make_extension_kubeconfig su c n srv) v = (v', Inr ())"
    obtain n srv where ns: "y = (n, srv)" by fastforce
    have v': "v' = v\<lparr>wd_files := (wd_files v)(place_path rs (KubeP n) \<mapsto> kc srv)\<rparr>"
      using step[OF v(1)] v(3) x ns by simp
    have "fst x \<noteq> n"
      using x ns by (auto simp: extension_servers_def)
    then show "wd_files v' (kube_config_ref c (fst x)) = Some (kc (snd x))"
      using v(2) names[of "fst x" "snd x"] names[of n srv] x ns by (simp add: v' ref_places[OF root] place_path_inj[OF rs])
  qed simp
  then show ?thesis
    by (auto simp: kc_def)
qed

lemma confs_written:
  assumes root: "cluster_root c rs" and s: "for_each (\<lambda>f. f) (drop 3 (init_files su json c)) v = (v', Inr ())"
  shows "list_all (\<lambda>n. wd_files v' (config_ref c n) \<noteq> None) config_names"
proof -
  note writes = init_confs_write[OF root, of su json]
  have there: "wd_files v' p \<noteq> None" if f: "f \<in> set (drop 3 (init_files su json c))" "\<And>w w'. f w = (w', Inr ()) \<Longrightarrow> wd_files w' p \<noteq> None" for f p
  proof -
    obtain w w' ys where w: "f w = (w', Inr ())" "set ys \<subseteq> set (drop 3 (init_files su json c))" "for_each (\<lambda>f. f) ys w' = (v', Inr ())"
      by (rule for_each_did[OF s f(1)])
    have "dom (wd_files w') \<subseteq> dom (wd_files v')"
      using writes_at_all[OF w(3), of rs conf_places] w(2) writes by (auto simp: list_all_iff)
    then show ?thesis
      using f(2)[OF w(1)] by blast
  qed
  have kept: "wd_files v' p \<noteq> None" if "config_write su p t \<in> set (drop 3 (init_files su json c))" for p t
    by (rule there[OF that]) (auto simp: success_iff)
  have "wd_files v' (config_ref c n) \<noteq> None" if "n \<in> set config_names" for n
    using that kept unfolding config_names_def init_files_def make_egress_selector_config_def
      make_authentication_config_def make_authorization_config_def make_admission_config_def make_audit_policy_def
      make_encryption_provider_config_def
    by auto
  then show ?thesis
    by (auto simp: list_all_iff)
qed


lemma init_leaves_files:
  assumes root: "cluster_root c rs" and nodes: "node_names_clear c" and w: "cas_ok (ca_ref c) w"
    and init: "init_control su json yaml ul c w = (w', Inr ())"
  shows "list_all (leaf_of w' c) (leaf_requests c)" (is ?leaves)
    and "list_all (\<lambda>(n, srv). extension_kubeconfig w' c n srv) (extension_servers c)" (is ?kubes)
    and "list_all (\<lambda>n. wd_files w' (config_ref c n) \<noteq> None) config_names" (is ?confs)
proof -
  let ?leaf = "''apiserver-extension-client''"
  have rs: "list_all plain_elem rs"
    using root by (simp add: cluster_root_def)
  have leaf: "file_name ?leaf"
    by (simp add: file_name_def slash_def)
  have ok: "node_names_ok c"
    using nodes by (simp add: node_names_clear_def)
  have "leaf_of w' c r" if r: "r \<in> set (leaf_requests c)" for r
  proof -
    obtain e where "issued su c w' (r, e)"
      using init_issues[OF root ok w init] request_in_items[OF r, of ul] unfolding list_all_iff by blast
    then show ?thesis
      by (auto intro: chain_leaf)
  qed
  then show leaves: ?leaves
    by (simp add: list_all_iff)
  obtain u v2 where all: "for_each (\<lambda>f. f) (init_files su json c) u = (v2, Inr ())"
    and phase: "\<forall>p. place_ok p \<and> p \<notin> own_places (node_items c) \<and> p \<noteq> ConfP [''syncer.objects''] \<longrightarrow>
       wd_files w' (place_path rs p) = wd_files v2 (place_path rs p)"
    by (rule init_phases[OF root ok w init]) (rule that; assumption)
  have late: "wd_files w' (place_path rs p) = wd_files v2 (place_path rs p)"
    if "place_ok p" "p \<notin> own_places (node_items c)" "p \<noteq> ConfP [''syncer.objects'']" for p
    using phase that by blast
  obtain v where s: "for_each (\<lambda>f. f) (map (\<lambda>(n, srv). make_extension_kubeconfig su c n srv) (extension_servers c)) u = (v, Inr ())"
      "for_each (\<lambda>f. f) (drop 3 (init_files su json c)) v = (v2, Inr ())"
    using all init_files_two[of su json c u v2] by blast
  note kubes = kubeconfigs_written[OF root s(1)]
  have d: "differ_at rs conf_places v v2"
    using writes_at_all[OF s(2) init_confs_write[OF root]] by blast
  have own: "ConfP es \<notin> own_places (node_items c)" "CaCertP WebhookServerCA \<notin> own_places (node_items c)"
      "LeafCertP ?leaf \<notin> own_places (node_items c)" "LeafKeyP ?leaf \<notin> own_places (node_items c)"
      "n \<in> extension_names \<Longrightarrow> KubeP n \<notin> own_places (node_items c)" for es n
    using nodes by (auto simp: own_places_def node_items_def node_request_def leaf_request_def item_name_def ca_places_def
        leaf_places_def node_names_clear_def node_names_ok_def list_all_iff request_names_def)
  show ?confs
    unfolding config_names_def
    using confs_written[OF root s(2)] by (simp add: config_names_def config_refs[OF root] late own)
  have certs: "wd_files w' (place_path rs p) = wd_files u (place_path rs p)"
    if p: "p \<in> {CaCertP WebhookServerCA, LeafCertP ?leaf, LeafKeyP ?leaf}" for p
  proof -
    have "place_ok p" "p \<notin> file_places"
      using p leaf by auto
    then have "wd_files v2 (place_path rs p) = wd_files u (place_path rs p)"
      using differ_at_same[OF rs conjunct1[OF writes_at_all[OF all init_files_writes[OF root]]]] by simp
    moreover have "wd_files w' (place_path rs p) = wd_files v2 (place_path rs p)"
      by (rule late) (use p leaf own in auto)
    ultimately show ?thesis by simp
  qed
  obtain ca crt where ca: "stored w' (ca_ref c WebhookServerCA) ca" and crt: "stored w' (cert_ref c ?leaf) crt"
  proof -
    have "list_ex (\<lambda>r. cr_signer r = WebhookServerCA) (leaf_requests c)" "list_ex (\<lambda>r. cr_name r = ?leaf) (leaf_requests c)"
      by (simp_all add: leaf_requests_def server_requests_def client_requests_def leaf_request_def)
    then show thesis
      using leaves that by (fastforce simp: list_ex_iff list_all_iff leaf_of_def)
  qed
  have "extension_kubeconfig w' c n srv" if n: "(n, srv) \<in> set (extension_servers c)" for n srv
  proof -
    have name: "n \<in> extension_names" "file_name n"
      using n by (auto simp: extension_servers_def extension_names_def)
    have "wd_files v2 (place_path rs (KubeP n)) = wd_files v (place_path rs (KubeP n))"
      by (rule differ_at_same[OF rs d]) (use name in \<open>simp_all add: places_ok_def conf_places_def file_places_def\<close>)
    then have "wd_files w' (kube_config_ref c n) = wd_files v (kube_config_ref c n)"
      using late[of "KubeP n"] own(5)[OF name(1)] name by (simp add: ref_places[OF root])
    then show ?thesis
      using kubes n ca crt certs unfolding extension_kubeconfig_def
      by (intro exI[of _ ca] exI[of _ crt]) (auto simp: ref_places[OF root] leaf stored_def)
  qed
  then show ?kubes
    by (auto simp: list_all_iff)
qed

end
