(* ===== verification/Process_Files.thy ===== *)
theory Process_Files
  imports Control_Files
begin

section \<open>Command lines and files\<close>

text \<open>
  The flags of the processes of the control plane read against the files that \<open>Init\<close> has left.
\<close>

subsection \<open>Flags\<close>

text \<open>A flag without an equals sign takes the next argument as its value.\<close>

fun flag_pairs :: "string list \<Rightarrow> (string \<times> string) list" where
  "flag_pairs (a # b # r) =
     (if take 1 a = ''-'' \<and> CHR ''='' \<notin> set a then (a, b) # flag_pairs r else flag_pairs (b # r))"
| "flag_pairs _ = []"

definition flag :: "string \<Rightarrow> proc \<Rightarrow> string option" where
  "flag f p = map_of (flag_pairs (pr_args p)) f"

definition file_flags :: "string list" where
  "file_flags =
     [''--cert-file'', ''--key-file'', ''--peer-cert-file'', ''--peer-key-file'', ''--peer-client-cert-file'',
      ''--peer-client-key-file'', ''--trusted-ca-file'', ''--peer-trusted-ca-file'', ''--tls-cert-file'',
      ''--tls-private-key-file'', ''--proxy-client-cert-file'', ''--proxy-client-key-file'', ''--etcd-cafile'',
      ''--etcd-certfile'', ''--etcd-keyfile'', ''--encryption-provider-config'', ''--audit-policy-file'',
      ''--audit-webhook-config-file'', ''--authorization-config'', ''--admission-control-config-file'',
      ''--authentication-config'', ''--authentication-token-webhook-config-file'', ''--client-ca-file'',
      ''--requestheader-client-ca-file'', ''--kubelet-certificate-authority'', ''--kubelet-client-certificate'',
      ''--kubelet-client-key'', ''--egress-selector-config-file'', ''--kubeconfig'', ''--authentication-kubeconfig'',
      ''--authorization-kubeconfig'']"

definition file_args :: "proc \<Rightarrow> string list" where
  "file_args p = map snd (filter (\<lambda>(f, v). f \<in> set file_flags) (flag_pairs (pr_args p)))"

definition components :: "config \<Rightarrow> proc list" where
  "components c = [etcd_process c, api_server_process c, controller_process c, scheduler_process c]"

lemma etcd_flags:
  "flag_pairs (pr_args (etcd_process c)) =
    [(''--name'', cc_name c @ ''-etcd''), (''--log-level'', ''warn''), (''--data-dir'', etcd_dir c),
     (''--listen-client-urls'', unix_socket_path_url c ''etcd''),
     (''--listen-peer-urls'', unix_socket_path_url c ''etcd-peer''),
     (''--listen-client-http-urls'', unix_socket_path_url c ''etcd-http''),
     (''--initial-cluster'', cc_name c @ ''-etcd='' @ internal_listen_url 443 []),
     (''--advertise-client-urls'', internal_listen_url 443 []),
     (''--initial-advertise-peer-urls'', internal_listen_url 443 []),
     (''--cert-file'', rf_cert_path (cert_ref c ''etcd-serving'')),
     (''--key-file'', rf_key_path (cert_ref c ''etcd-serving'')),
     (''--peer-cert-file'', rf_cert_path (cert_ref c ''etcd-serving'')),
     (''--peer-key-file'', rf_key_path (cert_ref c ''etcd-serving'')),
     (''--peer-client-cert-file'', rf_cert_path (cert_ref c ''etcd-peer-client'')),
     (''--peer-client-key-file'', rf_key_path (cert_ref c ''etcd-peer-client'')),
     (''--trusted-ca-file'', rf_cert_path (ca_ref c EtcdCA)),
     (''--peer-trusted-ca-file'', rf_cert_path (ca_ref c EtcdCA))]"
  by (simp add: etcd_process_def Let_def)

lemma etcd_files:
  "file_args (etcd_process c) =
    [rf_cert_path (cert_ref c ''etcd-serving''), rf_key_path (cert_ref c ''etcd-serving''),
     rf_cert_path (cert_ref c ''etcd-serving''), rf_key_path (cert_ref c ''etcd-serving''),
     rf_cert_path (cert_ref c ''etcd-peer-client''), rf_key_path (cert_ref c ''etcd-peer-client''),
     rf_cert_path (ca_ref c EtcdCA), rf_cert_path (ca_ref c EtcdCA)]"
  by (simp add: file_args_def etcd_flags file_flags_def)

lemma api_server_files:
  "file_args (api_server_process c) =
    [rf_cert_path (cert_ref c ''apiserver-serving''), rf_key_path (cert_ref c ''apiserver-serving''),
     rf_cert_path (cert_ref c ''apiserver-extension-client''), rf_key_path (cert_ref c ''apiserver-extension-client''),
     rf_cert_path (ca_ref c EtcdCA),
     rf_cert_path (cert_ref c ''apiserver-etcd-client''), rf_key_path (cert_ref c ''apiserver-etcd-client''),
     config_ref c ''encryption-provider-config'', config_ref c ''audit-policy'', kube_config_ref c ''audit-webhook'',
     config_ref c ''authorization-config'', config_ref c ''admission-config'', config_ref c ''authentication-config'',
     kube_config_ref c ''authentication-token-webhook'',
     rf_cert_path (ca_ref c APIClientCA), rf_cert_path (ca_ref c RequestHeaderCA), rf_cert_path (ca_ref c KubeletServerCA),
     rf_cert_path (cert_ref c ''apiserver-kubelet-client''), rf_key_path (cert_ref c ''apiserver-kubelet-client''),
     config_ref c ''egress-selector-config'']"
  by (simp add: file_args_def api_server_process_def file_flags_def)

lemma controller_files:
  "file_args (controller_process c) =
    [rf_cert_path (cert_ref c ''controller-manager-server''), rf_key_path (cert_ref c ''controller-manager-server''),
     kube_config_ref c ''controller-manager-client'', kube_config_ref c ''controller-manager-authnz'',
     kube_config_ref c ''controller-manager-authnz'']"
  by (simp add: file_args_def controller_process_def file_flags_def)

lemma scheduler_files:
  "file_args (scheduler_process c) =
    [rf_cert_path (cert_ref c ''scheduler-server''), rf_key_path (cert_ref c ''scheduler-server''),
     kube_config_ref c ''scheduler-client'', kube_config_ref c ''scheduler-authnz'', kube_config_ref c ''scheduler-authnz'']"
  by (simp add: file_args_def scheduler_process_def file_flags_def)


subsection \<open>After Init\<close>

lemma leaves_of_requests:
  assumes "list_all (leaf_of w c) (leaf_requests c)" "a \<in> set request_names"
  obtains r where "r \<in> set (leaf_requests c)" "cr_name r = a" "leaf_of w c r"
proof -
  have "map cr_name (leaf_requests c) = request_names"
    by (simp add: leaf_requests_def server_requests_def client_requests_def leaf_request_def request_names_def)
  then obtain r where "r \<in> set (leaf_requests c)" "cr_name r = a"
    using assms(2) by (metis imageE list.set_map)
  then show thesis
    using that assms(1) by (auto simp: list_all_iff)
qed

lemma leaf_files_exist:
  assumes "list_all (leaf_of w c) (leaf_requests c)" "a \<in> set request_names"
  shows "wd_files w (rf_cert_path (cert_ref c a)) \<noteq> None" "wd_files w (rf_key_path (cert_ref c a)) \<noteq> None"
  using leaves_of_requests[OF assms] by (auto simp: leaf_of_def stored_def)

lemma ca_files_exist:
  assumes "list_all (leaf_of w c) (leaf_requests c)"
  shows "wd_files w (rf_cert_path (ca_ref c n)) \<noteq> None"
proof -
  have "list_ex (\<lambda>r. cr_signer r = n) (leaf_requests c)"
    by (cases n) (simp_all add: leaf_requests_def server_requests_def client_requests_def leaf_request_def)
  then obtain r where "r \<in> set (leaf_requests c)" "cr_signer r = n"
    by (auto simp: list_ex_iff)
  then show ?thesis
    using assms by (auto simp: list_all_iff leaf_of_def stored_def)
qed

text \<open>The kubeconfig of a client of the API server.\<close>

definition client_kubeconfig :: "world \<Rightarrow> config \<Rightarrow> string \<Rightarrow> string \<Rightarrow> string \<Rightarrow> bool" where
  "client_kubeconfig w c name cn srv \<longleftrightarrow>
     (\<exists>ca cca crt. stored w (ca_ref c APIServerCA) ca \<and> stored w (ca_ref c APIClientCA) cca \<and>
        stored w (cert_ref c name) crt \<and> ct_signer crt = ct_key cca \<and> ct_cn crt = cn \<and>
        wd_files w (kube_config_ref c name) =
          Some (KubeconfigFile srv (Some (cc_external c)) (Some (PemFile certificate_type (CertBytes ca)))
            (Some (PemFile certificate_type (CertBytes crt))) (Some (PemFile key_type (KeyBytes (ct_key crt))))))"

lemma issued_client_kubeconfig:
  assumes "issued su c w (r, Some (srv, Some (cc_external c)))" "cr_signer r = APIClientCA"
  shows "client_kubeconfig w c (cr_name r) (cr_cn r) srv"
proof -
  obtain cca k ca where s: "stored w (ca_ref c APIClientCA) cca" "stored w (cert_ref c (cr_name r)) (leaf_cert su r (ct_key cca) k)"
      "stored w (ca_ref c APIServerCA) ca"
      "wd_files w (kube_config_ref c (cr_name r)) =
         Some (KubeconfigFile srv (Some (cc_external c)) (Some (PemFile certificate_type (CertBytes ca)))
           (wd_files w (rf_cert_path (cert_ref c (cr_name r)))) (wd_files w (rf_key_path (cert_ref c (cr_name r)))))"
    using assms by (auto simp: chain_ok_def)
  then show ?thesis
    unfolding client_kubeconfig_def
    by (intro exI[of _ ca] exI[of _ cca] exI[of _ "leaf_cert su r (ct_key cca) k"]) (simp add: stored_def leaf_cert_def)
qed

definition client_names :: "(string \<times> string) list" where
  "client_names =
     [(''controller-manager-client'', ''system:kube-controller-manager''),
      (''controller-manager-authnz'', ''system:controller-manager-authnz''),
      (''scheduler-client'', ''system:kube-scheduler''),
      (''scheduler-authnz'', ''system:scheduler-authnz'')]"

lemma init_client_kubeconfigs:
  assumes "list_all (issued su c w) (items ul c)" "(a, cn) \<in> set client_names"
  shows "client_kubeconfig w c a cn (apiserver_url ul c)"
proof -
  have "list_ex (\<lambda>r. cr_name r = a \<and> cr_cn r = cn \<and> cr_signer r = APIClientCA) (leaf_requests c)"
    using assms(2) by (auto simp: client_names_def leaf_requests_def server_requests_def client_requests_def leaf_request_def)
  then obtain r where r: "r \<in> set (leaf_requests c)" "cr_name r = a" "cr_cn r = cn" "cr_signer r = APIClientCA"
    by (auto simp: list_ex_iff)
  then have "(r, Some (apiserver_url ul c, Some (cc_external c))) \<in> set (items ul c)"
    using request_in_items[OF r(1), of ul] by simp
  then have "issued su c w (r, Some (apiserver_url ul c, Some (cc_external c)))"
    using assms(1) unfolding list_all_iff by (rule bspec[rotated])
  then show ?thesis
    using issued_client_kubeconfig r(2-4) by blast
qed

lemma config_files_exist:
  assumes "list_all (\<lambda>(n, srv). extension_kubeconfig w c n srv) (extension_servers c)"
    and "list_all (\<lambda>n. wd_files w (config_ref c n) \<noteq> None) config_names"
  shows "n \<in> set config_names \<Longrightarrow> wd_files w (config_ref c n) \<noteq> None"
    "n \<in> {''audit-webhook'', ''authentication-token-webhook''} \<Longrightarrow> wd_files w (kube_config_ref c n) \<noteq> None"
  using assms by (auto simp: list_all_iff extension_servers_def extension_kubeconfig_def)

text \<open>
  C15. Every file named on the command lines of etcd, the API server, the controller manager and the
  scheduler exists after a successful \<open>Init\<close>: certificates, keys, authorities, configuration files and
  kubeconfigs, thirty-eight arguments in all. Names of nodes must be single path elements, distinct, and neither the
  name of a request nor that of a webhook's kubeconfig.
\<close>

theorem process_files_exist:
  assumes "cluster_root c rs" "node_names_clear c" "cas_ok (ca_ref c) w"
    and "init_control su json yaml ul c w = (w', Inr ())"
  shows "length (concat (map file_args (components c))) = 38 \<and>
    list_all (\<lambda>p. wd_files w' p \<noteq> None) (concat (map file_args (components c)))"
proof -
  note files = init_leaves_files[OF assms]
  have "node_names_ok c"
    using assms(2) by (simp add: node_names_clear_def)
  then have "list_all (issued su c w') (items ul c)"
    using init_issues[OF assms(1) _ assms(3,4)] by blast
  note kubes = init_client_kubeconfigs[OF this]
  have clients: "wd_files w' (kube_config_ref c a) \<noteq> None" if "a \<in> fst ` set client_names" for a
    using kubes that by (fastforce simp: client_kubeconfig_def)
  note exist = leaf_files_exist[OF files(1)] ca_files_exist[OF files(1)] config_files_exist[OF files(2,3)] clients
  show ?thesis
    by (simp add: components_def etcd_files api_server_files controller_files scheduler_files exist
        request_names_def client_names_def config_names_def del: not_None_eq)
qed

lemma process_files_exist_witness:
  "\<exists>w'. init_control calm encode_nothing (\<lambda>_. Some []) False sample_config empty_world = (w', Inr ()) \<and>
     list_all (\<lambda>p. wd_files w' p \<noteq> None) (file_args (etcd_process sample_config))"
  using sample_init process_files_exist[OF sample_config_ok(1) sample_config_clear sample_config_ok(4),
      of calm encode_nothing "\<lambda>_. Some []" False]
  by (fastforce simp: components_def)

end
