(* ===== verification/Key_Services.thy ===== *)
theory Key_Services
  imports Process_Files
begin

section \<open>The KMS plugin and the JWT signer as services (RunKMSPlugin and RunJWTSigner in plugins.go)\<close>

text \<open>
  Where the two services listen and with which keys they serve, and that this is where and what the API server is
  configured to use. \<open>listen\<close> is the error of listening on a socket, if any.
\<close>

definition run_kms_plugin :: "(string \<Rightarrow> string option) \<Rightarrow> world \<Rightarrow> config \<Rightarrow> failure + string \<times> jwk list" where
  "run_kms_plugin listen w c =
     (let p = unix_socket_opaque c ''kms'' in
      case listen p of
        Some e \<Rightarrow> Inl (Error e)
      | None \<Rightarrow> (case load_keys w (key_set_ref c ''encryption'') of Inl e \<Rightarrow> Inl e | Inr ks \<Rightarrow> Inr (p, ks)))"

definition run_jwt_signer :: "(string \<Rightarrow> string option) \<Rightarrow> world \<Rightarrow> config \<Rightarrow> failure + string \<times> jwk list" where
  "run_jwt_signer listen w c =
     (case load_keys w (key_set_ref c ''serviceaccount'') of
        Inl e \<Rightarrow> Inl e
      | Inr ks \<Rightarrow>
          (let p = unix_socket_opaque c ''jwtsigner'' in
           case listen p of Some e \<Rightarrow> Inl (Error e) | None \<Rightarrow> Inr (p, ks)))"

subsection \<open>The key sets after Init\<close>

text \<open>A file that holds no key set, or a set with one default key.\<close>

definition key_set_clear :: "world \<Rightarrow> string \<Rightarrow> bool" where
  "key_set_clear w p \<longleftrightarrow>
     (case wd_files w p of Some (KeySetFile ks) \<Rightarrow> length (keys_with default_key_id ks) = 1 | _ \<Rightarrow> True)"

text \<open>What the first steps write: no key set.\<close>

definition no_key_places :: "place set" where
  "no_key_places = {p. place_ok p \<and> (case p of ConfP _ \<Rightarrow> True | KubeP _ \<Rightarrow> True | _ \<Rightarrow> False)}"

lemma init_files_parts:
  "init_files su json c = take 11 (init_files su json c) @
     [jwks_write su (key_set_ref c ''encryption'') ''default'' ''encryption'',
      jwks_write su (key_set_ref c ''serviceaccount'') ''default'' ''signing'',
      mkdir_all su (path_dir (unix_socket_path c ''etcd'')),
      mkdir_all su (path_dir (unix_socket_path c ''etcd-peer'')),
      mkdir_all su (path_dir (unix_socket_path c ''etcd-http''))]"
  by (simp add: init_files_def)

lemma no_keys_first:
  assumes root: "cluster_root c rs"
  shows "list_all (writes_at rs no_key_places) (take 11 (init_files su json c))"
proof -
  have conf: "writes_at rs no_key_places (config_write su (place_path rs (ConfP es)) t)"
    if "es \<noteq> []" "list_all plain_elem es" for es t
    using that by (auto simp: writes_at_def success_iff no_key_places_def intro: differ_at_write)
  have kube: "writes_at rs no_key_places (make_extension_kubeconfig su c name srv)" if "file_name name" for name srv
    by (rule writes_at_mono[OF writes_kube[OF root that]]) (use that in \<open>simp add: no_key_places_def\<close>)
  have hook: "writes_at rs no_key_places (make_admission_webhook su json c)"
    by (auto simp: writes_at_def make_admission_webhook_def success_iff config_refs[OF root] no_key_places_def
        split: option.splits intro!: differ_at_trans[OF differ_at_write differ_at_write])
  have api: "writes_at rs no_key_places (make_api_service c gs)" for gs
    by (auto simp: writes_at_def make_api_service_def Let_def differ_at_def same_except_def split: option.splits)
  show ?thesis
    using hook api
    by (simp add: init_files_def config_refs[OF root] make_egress_selector_config_def kube conf
        make_authentication_config_def make_authorization_config_def make_admission_config_def make_audit_policy_def
        make_encryption_provider_config_def)
qed

lemma key_set_written:
  assumes "jwks_write su \<lparr>jr_path = p, jr_jwks = None\<rparr> kid role w = (w', Inr ())" "key_set_clear w p"
  shows "(\<exists>ks key. wd_files w' p = Some (KeySetFile ks) \<and> keys_with default_key_id ks = [key] \<and>
      (if \<exists>ks. wd_files w p = Some (KeySetFile ks) then wd_files w' p = wd_files w p
       else jk_alg key = (if role = ''encryption'' then ''A256GCM'' else ''ES384''))) \<and>
    (\<forall>q. q \<noteq> p \<longrightarrow> wd_files w' q = wd_files w q)"
proof (cases "\<exists>ks. wd_files w p = Some (KeySetFile ks)")
  case True
  then obtain ks where ks: "wd_files w p = Some (KeySetFile ks)"
    by blast
  then have "w' = w" "length (keys_with default_key_id ks) = 1"
    using assms jwks_write_kept[OF ks] by (simp_all add: key_set_clear_def)
  then show ?thesis
    using ks by (auto simp: length_Suc_conv)
next
  case False
  then obtain key where "wd_files w' = (wd_files w)(p \<mapsto> KeySetFile [key])" "jk_kid key = default_key_id"
    "jk_alg key = (if role = ''encryption'' then ''A256GCM'' else ''ES384'')"
    using jwks_write_fresh[OF assms(1)] by auto
  then show ?thesis
    using False by (auto simp: keys_with_def)
qed

text \<open>The steps of the key sets, with the files around them.\<close>

lemma init_key_sets:
  assumes root: "cluster_root c rs" and nodes: "node_names_ok c" and w: "cas_ok (ca_ref c) w"
    and init: "init_control su json yaml ul c w = (w', Inr ())"
  obtains x y z where
    "jwks_write su (key_set_ref c ''encryption'') ''default'' ''encryption'' x = (y, Inr ())"
    "jwks_write su (key_set_ref c ''serviceaccount'') ''default'' ''signing'' y = (z, Inr ())"
    "\<forall>a. file_name a \<longrightarrow> wd_files x (place_path rs (KeysP a)) = wd_files w (place_path rs (KeysP a)) \<and>
       wd_files w' (place_path rs (KeysP a)) = wd_files z (place_path rs (KeysP a))"
proof -
  have rs: "list_all plain_elem rs"
    using root by (simp add: cluster_root_def)
  obtain u v where files: "for_each (\<lambda>f. f) (init_files su json c) u = (v, Inr ())"
    and early: "\<forall>p. place_ok p \<and> p \<notin> own_places (request_items ul c (leaf_requests c)) \<longrightarrow>
       wd_files u (place_path rs p) = wd_files w (place_path rs p)"
    and late: "\<forall>p. place_ok p \<and> p \<notin> own_places (node_items c) \<and> p \<noteq> ConfP [''syncer.objects''] \<longrightarrow>
       wd_files w' (place_path rs p) = wd_files v (place_path rs p)"
    by (rule init_phases[OF root nodes w init]) (rule that; assumption)
  obtain x y z where s: "for_each (\<lambda>f. f) (take 11 (init_files su json c)) u = (x, Inr ())"
      "jwks_write su (key_set_ref c ''encryption'') ''default'' ''encryption'' x = (y, Inr ())"
      "jwks_write su (key_set_ref c ''serviceaccount'') ''default'' ''signing'' y = (z, Inr ())" "v = z"
    using files by (subst (asm) init_files_parts) (auto simp: success_iff for_each_append)
  have "wd_files x (place_path rs (KeysP a)) = wd_files w (place_path rs (KeysP a)) \<and>
      wd_files w' (place_path rs (KeysP a)) = wd_files z (place_path rs (KeysP a))" if a: "file_name a" for a
  proof -
    have own: "KeysP a \<notin> own_places is" for "is"
      by (auto simp: own_places_def ca_places_def leaf_places_def)
    have "wd_files x (place_path rs (KeysP a)) = wd_files u (place_path rs (KeysP a))"
      by (rule differ_at_same[OF rs conjunct1[OF writes_at_all[OF s(1) no_keys_first[OF root]]]])
        (use a in \<open>simp_all add: places_ok_def no_key_places_def\<close>)
    then show ?thesis
      using early late own a s(4) by simp
  qed
  then show thesis
    using that[OF s(2,3)] by blast
qed

text \<open>The configuration of the encryption names the socket of the plugin.\<close>

lemma encryption_config_last:
  "init_files su json c = take 9 (init_files su json c) @ [make_encryption_provider_config su c] @ drop 10 (init_files su json c)"
  by (simp add: init_files_def)

lemma after_encryption_config:
  assumes root: "cluster_root c rs"
  shows "list_all (writes_at rs {KeysP ''encryption'', KeysP ''serviceaccount''}) (drop 10 (init_files su json c))"
proof -
  have keys: "writes_at rs {KeysP ''encryption'', KeysP ''serviceaccount''} (jwks_write su (key_set_ref c a) kid role)"
    if a: "a = ''encryption'' \<or> a = ''serviceaccount''" for a kid role
  proof -
    have "jr_path (key_set_ref c a) = place_path rs (KeysP a)"
      using a ref_places[OF root] by auto
    then show ?thesis
      using a unfolding writes_at_def differ_at_def same_except_def
      by (auto dest!: jwks_write_success simp: same_except_def)
  qed
  have api: "writes_at rs {KeysP ''encryption'', KeysP ''serviceaccount''} (make_api_service c gs)" for gs
    by (auto simp: writes_at_def make_api_service_def Let_def differ_at_def same_except_def split: option.splits)
  show ?thesis
    using keys api by (simp add: init_files_def)
qed

lemma encryption_config_names_socket:
  assumes root: "cluster_root c rs" and nodes: "node_names_ok c" and w: "cas_ok (ca_ref c) w"
    and init: "init_control su json yaml ul c w = (w', Inr ())"
  shows "wd_files w' (config_ref c ''encryption-provider-config'') =
    Some (TextFile (normal_text (text_lines (encryption_provider_lines c))))"
proof -
  let ?p = "ConfP [''encryption-provider-config'']"
  have rs: "list_all plain_elem rs"
    using root by (simp add: cluster_root_def)
  obtain u v where files: "for_each (\<lambda>f. f) (init_files su json c) u = (v, Inr ())"
    and "\<forall>p. place_ok p \<and> p \<notin> own_places (request_items ul c (leaf_requests c)) \<longrightarrow>
       wd_files u (place_path rs p) = wd_files w (place_path rs p)"
    and late: "\<forall>p. place_ok p \<and> p \<notin> own_places (node_items c) \<and> p \<noteq> ConfP [''syncer.objects''] \<longrightarrow>
       wd_files w' (place_path rs p) = wd_files v (place_path rs p)"
    by (rule init_phases[OF root nodes w init]) (rule that; assumption)
  obtain x y where s: "make_encryption_provider_config su c x = (y, Inr ())"
      "for_each (\<lambda>f. f) (drop 10 (init_files su json c)) y = (v, Inr ())"
    using files by (subst (asm) encryption_config_last) (auto simp: success_iff for_each_append)
  have y: "wd_files y (place_path rs ?p) = Some (TextFile (normal_text (text_lines (encryption_provider_lines c))))"
    using s(1) by (auto simp: make_encryption_provider_config_def success_iff config_refs[OF root])
  have "wd_files v (place_path rs ?p) = wd_files y (place_path rs ?p)"
    by (rule differ_at_same[OF rs conjunct1[OF writes_at_all[OF s(2) after_encryption_config[OF root]]]])
      (simp_all add: places_ok_def)
  moreover have "?p \<notin> own_places (node_items c)"
    by (auto simp: own_places_def ca_places_def leaf_places_def)
  ultimately have "wd_files w' (place_path rs ?p) = wd_files y (place_path rs ?p)"
    using late by simp
  then show ?thesis
    using y by (simp add: config_refs[OF root])
qed

subsection \<open>The services\<close>

text \<open>JOSE opens with a key set what it has sealed with the only default key in it.\<close>

definition jose_opens ::
  "(jwk \<Rightarrow> string \<Rightarrow> string option) \<Rightarrow> (string \<Rightarrow> bool) \<Rightarrow> (jwk list \<Rightarrow> string \<Rightarrow> string option) \<Rightarrow> bool" where
  "jose_opens seal parse_ok unseal \<longleftrightarrow>
     (\<forall>ks key plain ct. keys_with default_key_id ks = [key] \<longrightarrow> seal key plain = Some ct \<longrightarrow>
        parse_ok ct \<and> unseal ks ct = Some plain)"

text \<open>
  C21. Secrets survive, and the key services stand where the API server looks for them: after a successful \<open>Init\<close>, on files
  that hold no key set or one with a single default key, the KMS plugin listens on the socket that the encryption configuration
  of the API server names and the JWT signer on the one its command line names. The plugin has exactly one default key; every
  plaintext that JOSE can seal is encrypted, with the key identifier that \<open>Status\<close> reports, and decrypting gives it back. The
  signer has exactly one default key too, and signs with it when \<open>Init\<close> has made it: for ES384, 48 bytes for each number. A key
  set that was there is kept. JOSE must open with a key set what it sealed with the only key of that name.
\<close>

theorem key_services_serve:
  assumes "cluster_root c rs" "node_names_ok c" "cas_ok (ca_ref c) w"
    and "init_control su json yaml ul c w = (w', Inr ())"
    and "list_all (\<lambda>a. key_set_clear w (jr_path (key_set_ref c a))) [''encryption'', ''serviceaccount'']"
    and "list_all (\<lambda>a. listen (unix_socket_opaque c a) = None) [''kms'', ''jwtsigner'']"
    and "jose_opens seal parse_ok unseal"
  shows "\<exists>ks js. run_kms_plugin listen w' c = Inr (unix_socket_opaque c ''kms'', ks) \<and>
    run_jwt_signer listen w' c = Inr (unix_socket_opaque c ''jwtsigner'', js) \<and>
    wd_files w' (config_ref c ''encryption-provider-config'') =
      Some (TextFile (normal_text (text_lines (encryption_provider_lines c)))) \<and>
    tabs 3 @ ''endpoint: unix:/'' @ unix_socket_opaque c ''kms'' \<in> set (encryption_provider_lines c) \<and>
    flag ''--service-account-signing-endpoint'' (api_server_process c) = Some (unix_socket_opaque c ''jwtsigner'') \<and>
    (\<forall>plain. case kms_encrypt seal ks plain of
       Inl e \<Rightarrow> \<exists>key. keys_with default_key_id ks = [key] \<and> seal key plain = None
     | Inr r \<Rightarrow> er_key_id r = ks_key_id kms_status_of \<and> kms_decrypt parse_ok unseal ks (er_ciphertext r) = Inr plain) \<and>
    (\<exists>key. keys_with default_key_id js = [key] \<and>
       (if \<exists>old. wd_files w (jr_path (key_set_ref c ''serviceaccount'')) = Some (KeySetFile old)
        then wd_files w (jr_path (key_set_ref c ''serviceaccount'')) = Some (KeySetFile js)
        else alg_of (jk_alg key) = Some (SHA384, 48)))"
proof -
  have rs: "list_all plain_elem rs"
    using assms(1) by (simp add: cluster_root_def)
  have refs: "key_set_ref c a = \<lparr>jr_path = place_path rs (KeysP a), jr_jwks = None\<rparr>" if "file_name a" for a
    using ref_places[OF assms(1)] that by (simp add: key_set_ref_def)
  obtain x y z where
    e: "jwks_write su (key_set_ref c ''encryption'') ''default'' ''encryption'' x = (y, Inr ())" and
    s: "jwks_write su (key_set_ref c ''serviceaccount'') ''default'' ''signing'' y = (z, Inr ())" and
    around: "\<forall>a. file_name a \<longrightarrow> wd_files x (place_path rs (KeysP a)) = wd_files w (place_path rs (KeysP a)) \<and>
       wd_files w' (place_path rs (KeysP a)) = wd_files z (place_path rs (KeysP a))"
    by (rule init_key_sets[OF assms(1-4)]) (rule that; assumption)
  let ?e = "place_path rs (KeysP ''encryption'')" and ?s = "place_path rs (KeysP ''serviceaccount'')"
  have apart: "?e \<noteq> ?s"
    by (simp add: place_path_inj[OF rs])
  have x: "wd_files x ?e = wd_files w ?e" "wd_files x ?s = wd_files w ?s"
    and w': "wd_files w' ?e = wd_files z ?e" "wd_files w' ?s = wd_files z ?s"
    using around by simp_all
  have clear: "key_set_clear x ?e" "key_set_clear x ?s"
    using assms(5) by (simp_all add: key_set_clear_def x refs)
  note ew = key_set_written[OF e[unfolded refs[OF literal_file_names(4)]] clear(1)]
  have "key_set_clear y ?s"
    using ew clear(2) apart by (simp add: key_set_clear_def)
  note sw = key_set_written[OF s[unfolded refs[OF literal_file_names(5)]] this]
  obtain ks key where ks: "wd_files w' ?e = Some (KeySetFile ks)" "keys_with default_key_id ks = [key]"
    using ew sw w' apart by auto
  obtain js jkey where js: "wd_files w' ?s = Some (KeySetFile js)" "keys_with default_key_id js = [jkey]"
    "if \<exists>old. wd_files w ?s = Some (KeySetFile old) then wd_files w' ?s = wd_files w ?s else jk_alg jkey = ''ES384''"
    using ew sw w' x apart by (auto split: if_splits)
  have run: "run_kms_plugin listen w' c = Inr (unix_socket_opaque c ''kms'', ks)"
    "run_jwt_signer listen w' c = Inr (unix_socket_opaque c ''jwtsigner'', js)"
    using assms(6) load_keys_file[of w' ?e ks] load_keys_file[of w' ?s js] ks(1) js(1) by (simp_all add: run_kms_plugin_def run_jwt_signer_def Let_def refs)
  have kms: "case kms_encrypt seal ks plain of
       Inl e \<Rightarrow> \<exists>key. keys_with default_key_id ks = [key] \<and> seal key plain = None
     | Inr r \<Rightarrow> er_key_id r = ks_key_id kms_status_of \<and> kms_decrypt parse_ok unseal ks (er_ciphertext r) = Inr plain" for plain
    using ks(2) assms(7)
    by (auto simp: jose_opens_def kms_encrypt_def kms_decrypt_def kms_status_of_def split: option.splits)
  have "flag ''--service-account-signing-endpoint'' (api_server_process c) = Some (unix_socket_opaque c ''jwtsigner'')"
    by (simp add: flag_def api_server_process_def unix_socket_opaque_def)
  moreover have "tabs 3 @ ''endpoint: unix:/'' @ unix_socket_opaque c ''kms'' \<in> set (encryption_provider_lines c)"
    by (simp add: encryption_provider_lines_def)
  moreover have "alg_of ''ES384'' = Some (SHA384, 48)"
    by (simp add: alg_of_def)
  ultimately show ?thesis
    using run encryption_config_names_socket[OF assms(1-4)] kms js ks(2) refs
    by (intro exI[of _ ks] exI[of _ js]) auto
qed

lemma key_services_serve_witness:
  "\<exists>w' ks js. init_control calm encode_nothing (\<lambda>_. Some []) False sample_config empty_world = (w', Inr ()) \<and>
     run_kms_plugin (\<lambda>_. None) w' sample_config = Inr (''@default-kms'', ks) \<and>
     run_jwt_signer (\<lambda>_. None) w' sample_config = Inr (''@default-jwtsigner'', js) \<and>
     (\<exists>key. keys_with default_key_id js = [key] \<and> alg_of (jk_alg key) = Some (SHA384, 48))"
proof -
  obtain w' where init: "init_control calm encode_nothing (\<lambda>_. Some []) False sample_config empty_world = (w', Inr ())"
    using sample_init by blast
  have clear: "list_all (\<lambda>a. key_set_clear empty_world (jr_path (key_set_ref sample_config a))) [''encryption'', ''serviceaccount'']"
    by (simp add: key_set_clear_def empty_world_def)
  have names: "unix_socket_opaque sample_config ''kms'' = ''@default-kms''"
    "unix_socket_opaque sample_config ''jwtsigner'' = ''@default-jwtsigner''"
    by (simp_all add: unix_socket_opaque_def sample_config_def)
  have none: "wd_files empty_world p = None" for p
    by (simp add: empty_world_def)
  have law: "jose_opens (\<lambda>_ s. Some (''jwe:'' @ s)) (\<lambda>s. take 4 s = ''jwe:'') (\<lambda>_ s. Some (drop 4 s))"
    by (auto simp: jose_opens_def)
  have listen: "list_all (\<lambda>a. (\<lambda>_. None) (unix_socket_opaque sample_config a) = (None :: string option)) [''kms'', ''jwtsigner'']"
    by simp
  show ?thesis
    using key_services_serve[OF sample_config_ok(1,2,4) init clear listen law] init
    unfolding names none by auto
qed

end
