(* ===== verification/Process_Trust.thy ===== *)
theory Process_Trust
  imports Process_Files Webhook
begin

section \<open>The processes accept each other\<close>

text \<open>
  The certificates the processes present are signed by the authorities that their peers are given, and the
  identities in their kubeconfigs are those the builtin authorizer knows.
\<close>

definition cert_at :: "world \<Rightarrow> string option \<Rightarrow> cert option" where
  "cert_at w p =
     (case p of
        None \<Rightarrow> None
      | Some q \<Rightarrow> (case wd_files w q of Some (PemFile t (CertBytes c)) \<Rightarrow> if t = certificate_type then Some c else None | _ \<Rightarrow> None))"

definition key_at :: "world \<Rightarrow> string option \<Rightarrow> nat option" where
  "key_at w p =
     (case p of
        None \<Rightarrow> None
      | Some q \<Rightarrow> (case wd_files w q of Some (PemFile t (KeyBytes k)) \<Rightarrow> if t = key_type then Some k else None | _ \<Rightarrow> None))"

text \<open>A peer with the first file as its authority accepts the second file, which has the third as its key.\<close>

definition accepts :: "world \<Rightarrow> string option \<Rightarrow> string option \<Rightarrow> string option \<Rightarrow> bool" where
  "accepts w ca crt key \<longleftrightarrow>
     (case (cert_at w ca, cert_at w crt) of
        (Some a, Some b) \<Rightarrow> ct_ca a \<and> ct_signer b = ct_key a \<and> key_at w key = Some (ct_key b)
      | _ \<Rightarrow> False)"

text \<open>
  A kubeconfig and the API server accept each other: its authority signed the serving certificate, which
  has its server name, and its client certificate is signed by the authority for clients. \<open>client_of\<close> is the
  name in that certificate.
\<close>

definition client_of :: "world \<Rightarrow> proc \<Rightarrow> string option \<Rightarrow> string option" where
  "client_of w api p =
     (case p of
        None \<Rightarrow> None
      | Some q \<Rightarrow>
         (case wd_files w q of
            Some (KubeconfigFile srv (Some tls) (Some (PemFile _ (CertBytes ca)))
              (Some (PemFile _ (CertBytes crt))) (Some (PemFile _ (KeyBytes k)))) \<Rightarrow>
              (case (cert_at w (flag ''--tls-cert-file'' api), cert_at w (flag ''--client-ca-file'' api)) of
                 (Some serving, Some cca) \<Rightarrow>
                   if ct_signer serving = ct_key ca \<and> tls \<in> set (ct_san serving) \<and>
                     ct_signer crt = ct_key cca \<and> k = ct_key crt
                   then Some (ct_cn crt) else None
               | _ \<Rightarrow> None)
          | _ \<Rightarrow> None))"

lemma cert_at_stored: "stored w p c \<Longrightarrow> cert_at w (Some (rf_cert_path p)) = Some c"
  and key_at_stored: "stored w p c \<Longrightarrow> key_at w (Some (rf_key_path p)) = Some (ct_key c)"
  by (simp_all add: stored_def cert_at_def key_at_def)

lemma stored_unique: "stored w p c \<Longrightarrow> stored w p d \<Longrightarrow> c = d"
  by (simp add: stored_def)

lemma leaf_accepted:
  assumes "list_all (leaf_of w c) (leaf_requests c)"
    and "list_ex (\<lambda>r. cr_name r = a \<and> cr_signer r = n) (leaf_requests c)"
  shows "accepts w (Some (rf_cert_path (ca_ref c n))) (Some (rf_cert_path (cert_ref c a))) (Some (rf_key_path (cert_ref c a)))"
proof -
  obtain r where "leaf_of w c r" "cr_name r = a" "cr_signer r = n"
    using assms by (auto simp: list_ex_iff list_all_iff)
  then show ?thesis
    by (auto simp: leaf_of_def accepts_def cert_at_stored key_at_stored)
qed

definition api_server_flag_values :: "config \<Rightarrow> (string \<times> string) list" where
  "api_server_flag_values c =
     [(''--tls-cert-file'', rf_cert_path (cert_ref c ''apiserver-serving'')),
      (''--tls-private-key-file'', rf_key_path (cert_ref c ''apiserver-serving'')),
      (''--etcd-cafile'', rf_cert_path (ca_ref c EtcdCA)),
      (''--etcd-certfile'', rf_cert_path (cert_ref c ''apiserver-etcd-client'')),
      (''--etcd-keyfile'', rf_key_path (cert_ref c ''apiserver-etcd-client'')),
      (''--client-ca-file'', rf_cert_path (ca_ref c APIClientCA))]"

lemma flags_of_api_server: "list_all (\<lambda>(f, v). flag f (api_server_process c) = Some v) (api_server_flag_values c)"
  by (simp add: api_server_flag_values_def flag_def api_server_process_def)

lemma flags_of_etcd:
  "flag ''--cert-file'' (etcd_process c) = Some (rf_cert_path (cert_ref c ''etcd-serving''))"
  "flag ''--key-file'' (etcd_process c) = Some (rf_key_path (cert_ref c ''etcd-serving''))"
  "flag ''--peer-cert-file'' (etcd_process c) = Some (rf_cert_path (cert_ref c ''etcd-serving''))"
  "flag ''--peer-key-file'' (etcd_process c) = Some (rf_key_path (cert_ref c ''etcd-serving''))"
  "flag ''--peer-client-cert-file'' (etcd_process c) = Some (rf_cert_path (cert_ref c ''etcd-peer-client''))"
  "flag ''--peer-client-key-file'' (etcd_process c) = Some (rf_key_path (cert_ref c ''etcd-peer-client''))"
  "flag ''--trusted-ca-file'' (etcd_process c) = Some (rf_cert_path (ca_ref c EtcdCA))"
  "flag ''--peer-trusted-ca-file'' (etcd_process c) = Some (rf_cert_path (ca_ref c EtcdCA))"
  by (simp_all add: flag_def etcd_flags)

lemma flags_of_clients:
  "flag ''--kubeconfig'' (controller_process c) = Some (kube_config_ref c ''controller-manager-client'')"
  "flag ''--authentication-kubeconfig'' (controller_process c) = Some (kube_config_ref c ''controller-manager-authnz'')"
  "flag ''--authorization-kubeconfig'' (controller_process c) = Some (kube_config_ref c ''controller-manager-authnz'')"
  "flag ''--kubeconfig'' (scheduler_process c) = Some (kube_config_ref c ''scheduler-client'')"
  "flag ''--authentication-kubeconfig'' (scheduler_process c) = Some (kube_config_ref c ''scheduler-authnz'')"
  "flag ''--authorization-kubeconfig'' (scheduler_process c) = Some (kube_config_ref c ''scheduler-authnz'')"
  by (simp_all add: flag_def controller_process_def scheduler_process_def)

lemma client_accepted:
  assumes "client_kubeconfig w c a cn srv" "list_all (leaf_of w c) (leaf_requests c)"
  shows "client_of w (api_server_process c) (Some (kube_config_ref c a)) = Some cn"
proof -
  obtain ca cca crt where k: "stored w (ca_ref c APIServerCA) ca" "stored w (ca_ref c APIClientCA) cca"
      "stored w (cert_ref c a) crt" "ct_signer crt = ct_key cca" "ct_cn crt = cn"
      "wd_files w (kube_config_ref c a) =
         Some (KubeconfigFile srv (Some (cc_external c)) (Some (PemFile certificate_type (CertBytes ca)))
            (Some (PemFile certificate_type (CertBytes crt))) (Some (PemFile key_type (KeyBytes (ct_key crt)))))"
    using assms(1) by (auto simp: client_kubeconfig_def)
  have "list_ex (\<lambda>r. cr_name r = ''apiserver-serving'' \<and> cr_signer r = APIServerCA \<and> cc_external c \<in> set (cr_san r)) (leaf_requests c)"
    by (simp add: leaf_requests_def server_requests_def leaf_request_def)
  then obtain r where "leaf_of w c r" "cr_name r = ''apiserver-serving''" "cr_signer r = APIServerCA" "cc_external c \<in> set (cr_san r)"
    using assms(2) by (auto simp: list_ex_iff list_all_iff)
  then obtain sca serving where s: "stored w (ca_ref c APIServerCA) sca" "stored w (cert_ref c ''apiserver-serving'') serving"
      "ct_signer serving = ct_key sca" "cc_external c \<in> set (ct_san serving)"
    by (auto simp: leaf_of_def)
  have "sca = ca"
    using s(1) k(1) by (rule stored_unique)
  then show ?thesis
    using k s flags_of_api_server[of c]
    by (simp add: client_of_def api_server_flag_values_def cert_at_stored[OF s(2)] cert_at_stored[OF k(2)])
qed

text \<open>The configuration that an extension API server reads.\<close>

definition authentication_config_read :: "string \<Rightarrow> sar_spec" where
  "authentication_config_read user =
     \<lparr>sar_user = user, sar_groups = [], sar_uid = [],
      sar_resource = Some \<lparr>ra_verb = ''get'', ra_group = [], ra_version = ''v1'', ra_resource = ''configmaps'',
        ra_subresource = [], ra_namespace = ''kube-system'', ra_name = ''extension-apiserver-authentication''\<rparr>,
      sar_non_resource = None\<rparr>"

definition grants :: "sar_spec \<Rightarrow> bool" where
  "grants s = (case builtin_authorizer s of Inr (Some st) \<Rightarrow> ss_allowed st | _ \<Rightarrow> False)"




end
