(* ===== verification/Webhook_Service.thy ===== *)
theory Webhook_Service
  imports Process_Trust Frontend
begin

section \<open>The webhook service (RunWebhook in webhook.go)\<close>

text \<open>
  The servers that \<open>RunWebhook\<close> registers with the frontend, and that what the API server is configured to
  call arrives there under a name the certificate has. Handlers are numbered in the order of the code:
  the extension API, the authenticator, the authorizer, the auditor and the two admitters.
\<close>

definition webhook_servers :: "config \<Rightarrow> backend_server list" where
  "webhook_servers c =
     [\<lparr>bs_host = ''api-runkube-internal.kube-system.svc'', bs_handler = 0\<rparr>,
      \<lparr>bs_host = hostname c ''authentication-webhook'', bs_handler = 1\<rparr>,
      \<lparr>bs_host = hostname c ''authorization-webhook'', bs_handler = 2\<rparr>,
      \<lparr>bs_host = hostname c ''audit-webhook'', bs_handler = 3\<rparr>,
      \<lparr>bs_host = hostname c ''validating-webhook'', bs_handler = 4\<rparr>,
      \<lparr>bs_host = hostname c ''mutating-webhook'', bs_handler = 5\<rparr>]"

text \<open>The frontend, the error that ends it, and the socket it then listens on.\<close>

definition run_webhook :: "config \<Rightarrow> (frontend \<times> register_error) + (frontend \<times> string)" where
  "run_webhook c =
     (case register (webhook_servers c) new_frontend of
        (f, Some e) \<Rightarrow> Inl (f, e)
      | (f, None) \<Rightarrow> Inr (f, unix_socket_opaque c ''frontend''))"

subsection \<open>Registration of distinct hosts\<close>

lemma register_distinct:
  assumes "frontend_wf f" "list_all (\<lambda>b. plain_host (bs_host b)) bs" "distinct (map bs_host bs)"
    and "\<forall>b \<in> set bs. backend_for (bs_host b @ '':443'') f = None"
  shows "snd (register bs f) = None \<and> frontend_wf (fst (register bs f)) \<and>
    (\<forall>b \<in> set bs. backend_for (bs_host b @ '':443'') (fst (register bs f)) = Some (fresh_backend (bs_host b @ '':443'') b)) \<and>
    (\<forall>k. k \<notin> (\<lambda>b. bs_host b @ '':443'') ` set bs \<longrightarrow> backend_for k (fst (register bs f)) = backend_for k f)"
  using assms
proof (induction bs arbitrary: f)
  case (Cons b bs)
  let ?k = "bs_host b @ '':443''" and ?f = "put_backend (bs_host b @ '':443'') (fresh_backend (bs_host b @ '':443'') b) f"
  have key: "backend_key (bs_host b) = Some ?k"
    using Cons.prems(2) backend_key_plain by simp
  have reg: "register (b # bs) f = register bs ?f"
    using Cons.prems(4) by (simp add: register_Cons register_one_key[OF key])
  have wf: "frontend_wf ?f"
    using key by (intro bes.put_inv[OF Cons.prems(1)]) (simp_all add: backend_ok_def fresh_backend_def)
  have IH: "snd (register bs ?f) = None \<and> frontend_wf (fst (register bs ?f)) \<and>
    (\<forall>b \<in> set bs. backend_for (bs_host b @ '':443'') (fst (register bs ?f)) = Some (fresh_backend (bs_host b @ '':443'') b)) \<and>
    (\<forall>k. k \<notin> (\<lambda>b. bs_host b @ '':443'') ` set bs \<longrightarrow> backend_for k (fst (register bs ?f)) = backend_for k ?f)"
  proof (rule Cons.IH[OF wf])
    show "\<forall>b' \<in> set bs. backend_for (bs_host b' @ '':443'') ?f = None"
      using Cons.prems(3,4) by (auto simp: backend_for_put[OF Cons.prems(1)] image_iff)
  qed (use Cons.prems in simp_all)
  have new: "?k \<notin> (\<lambda>b. bs_host b @ '':443'') ` set bs"
    using Cons.prems(3) by auto
  have mine: "backend_for ?k (fst (register bs ?f)) = Some (fresh_backend ?k b)"
    using IH new by (simp add: backend_for_put[OF Cons.prems(1)])
  have others: "backend_for k (fst (register bs ?f)) = backend_for k f"
    if "k \<notin> (\<lambda>b. bs_host b @ '':443'') ` set (b # bs)" for k
    using IH that by (simp add: backend_for_put[OF Cons.prems(1)])
  show ?case
    unfolding reg using IH mine others by auto
qed simp

lemma hostname_plain:
  assumes "dns_label (cc_name c)" "colon \<notin> set tag"
  shows "plain_host (hostname c tag)"
proof -
  obtain x xs where n: "cc_name c = x # xs"
    using dns_label_chars(1)[OF assms(1)] by (cases "cc_name c") auto
  then have "x \<noteq> CHR ''[''" "colon \<notin> set (cc_name c)"
    using special_not_in_label[OF assms(1)] by auto
  then show ?thesis
    using n assms(2) by (simp add: plain_host_def hostname_def colon_def)
qed

lemma hostname_inj: "hostname c a = hostname c b \<longleftrightarrow> a = b"
  by (simp add: hostname_def)

lemma hostname_not_service: "dns_label (cc_name c) \<Longrightarrow> hostname c tag \<noteq> ''api-runkube-internal.kube-system.svc''"
proof
  assume "hostname c tag = ''api-runkube-internal.kube-system.svc''"
  then have "rev (hostname c tag) = rev ''api-runkube-internal.kube-system.svc''" by simp
  then show False by (simp add: hostname_def)
qed

lemma webhook_servers_ok:
  assumes "dns_label (cc_name c)"
  shows "list_all (\<lambda>b. plain_host (bs_host b)) (webhook_servers c)" "distinct (map bs_host (webhook_servers c))"
proof -
  have "plain_host ''api-runkube-internal.kube-system.svc''"
    by (simp add: plain_host_def colon_def)
  then show "list_all (\<lambda>b. plain_host (bs_host b)) (webhook_servers c)"
    using hostname_plain[OF assms] by (simp add: webhook_servers_def colon_def)
  show "distinct (map bs_host (webhook_servers c))"
    using hostname_not_service[OF assms, symmetric] by (simp add: webhook_servers_def hostname_inj)
qed

subsection \<open>The service\<close>

text \<open>A connection request for a host, and where it is queued.\<close>

definition connect_to :: "string \<Rightarrow> nat \<Rightarrow> connect_request" where
  "connect_to host n =
     \<lparr>cn_method = ''CONNECT'', cn_host = host @ '':443'', cn_hijacker = True, cn_hijack_ok = True, cn_conn = n, cn_close_ok = True\<rparr>"




end
