(* ===== verification/Nodes.thy ===== *)
theory Nodes
  imports Sandbox Ref Proc
begin

section \<open>Nodes (pkg/nodes)\<close>

text \<open>
  A node outside its sandbox, where it only builds the configuration of the sandbox, and inside, where it
  runs the kubelet and the CRI server.
\<close>

record node =
  nd_name :: string
  nd_machine_id :: string
  nd_root :: string
  nd_kubeconfig :: string
  nd_kubelet :: string

subsection \<open>Inside\<close>

definition node_config_ref :: "node \<Rightarrow> string \<Rightarrow> string" where
  "node_config_ref n s = path_join [nd_root n, ''etc/kubernetes'', s]"

definition runtime_endpoint :: string where
  "runtime_endpoint = ''/run/containerd/containerd.sock''"

definition node_address :: string where
  "node_address = ''10.0.0.1''"

definition quoted :: "string \<Rightarrow> string" where
  "quoted s = CHR 0x22 # s @ [CHR 0x22]"

definition kubelet_config_lines :: "string list" where
  "kubelet_config_lines =
     [''kind: KubeletConfiguration'', ''apiVersion: '' @ quoted ''kubelet.config.k8s.io/v1beta1'', ''featureGates:'',
      tab # ''AllAlpha: true'', tab # ''AllBeta: true'', tab # ''KubeletInUserNamespace: true'',
      ''logging:'', tab # ''format: '' @ quoted ''json'', tab # ''verbosity: 0'',
      ''staticPodPath: '' @ quoted [], ''readOnlyPort: 0'', ''healthzBindAddress: '' @ quoted ''127.0.0.1'',
      ''volumePluginDir: '' @ quoted [], ''failSwapOn: false'', ''nodeStatusMaxImages: 0'', ''protectKernelDefaults: false'',
      ''streamingConnectionIdleTimeout: '' @ quoted ''1m'', ''enableProfilingHandler: false'',
      ''enableDebugFlagsHandler: false'', ''enableDebuggingHandlers: false'', ''enableSystemLogHandler: false'',
      ''enableSystemLogQuery: false'', ''serverTLSBootstrap: false'', ''rotateCertificates: false'',
      ''containerLogMaxSize: '' @ quoted ''-1'', ''cgroupDriver: cgroupfs'', ''cgroupsPerQOS: false'',
      ''clusterDNS: [ '' @ quoted ''10.0.0.1'' @ '' ]'', ''enforceNodeAllocatable: [ '' @ quoted ''none'' @ '' ]'',
      ''authentication:'', ''  anonymous:'', ''    enabled: true'', tab # ''webhook:'', [tab, tab] @ ''enabled: true'',
      ''authorization:'', tab # ''mode: Webhook'']"

definition make_kubelet_config :: "surroundings \<Rightarrow> node \<Rightarrow> unit act" where
  "make_kubelet_config su n =
     config_write su (node_config_ref n ''kubelet-config'')
       (line_end # concat (map (\<lambda>l. l @ [line_end]) kubelet_config_lines))"

definition kubelet_process :: "node \<Rightarrow> proc" where
  "kubelet_process n =
     \<lparr>pr_tag = ''kubelet'', pr_args =
        [''kubelet'', ''--config'', node_config_ref n ''kubelet-config'',
         ''--kubeconfig'', ''/etc/kubernetes/kubelet.kubeconfig'', ''--node-ip'', node_address]\<rparr>"

definition cri_server_process :: "string \<Rightarrow> proc" where
  "cri_server_process self = \<lparr>pr_tag = ''criserver'', pr_args = [self, ''criserver'']\<rparr>"

text \<open>\<open>RemoveAll\<close> of the socket: the file and what is below it; the argument is whether it succeeds.\<close>

definition remove_all :: "bool \<Rightarrow> string \<Rightarrow> unit act" where
  "remove_all ok p w =
     (if ok then (w\<lparr>wd_files := (\<lambda>q. if q = p \<or> has_prefix q (p @ ''/'') then None else wd_files w q)\<rparr>, Inr ())
      else (w, Inl (Error ''remove'')))"

definition node_init :: "surroundings \<Rightarrow> bool \<Rightarrow> node \<Rightarrow> unit act" where
  "node_init su removable n =
     and_then (make_kubelet_config su n) (\<lambda>_. remove_all removable runtime_endpoint)"

definition node_formation :: "string \<Rightarrow> node \<Rightarrow> proc list \<times> string" where
  "node_formation self n = ([kubelet_process n, cri_server_process self], nd_root n)"

subsection \<open>The sandbox of a node\<close>

definition bind_of :: "string \<Rightarrow> string \<Rightarrow> sandbox_payload" where
  "bind_of target source =
     \<lparr>pd_target = target, pd_file_mode = 0, pd_source = \<lparr>ps_type = ''bind'', ps_value = source\<rparr>\<rparr>"

definition write_of :: "string \<Rightarrow> 32 word \<Rightarrow> string \<Rightarrow> sandbox_payload" where
  "write_of target mode text =
     \<lparr>pd_target = target, pd_file_mode = mode, pd_source = \<lparr>ps_type = ''write'', ps_value = text\<rparr>\<rparr>"

definition node_sandbox :: "string \<Rightarrow> node \<Rightarrow> sandbox_config" where
  "node_sandbox self n =
     \<lparr>sc_hostname = nd_name n, sc_machine_id = nd_machine_id n, sc_ip_address = node_address,
      sc_command = [''/usr/bin/breakbulk'', ''run''],
      sc_env = [''HOME=/root'', ''PATH=/sbin:/usr/sbin:/usr/local/bin:/usr/bin:/bin''],
      sc_payload =
        [bind_of ''/etc/kubernetes/kubelet.kubeconfig'' (nd_kubeconfig n),
         bind_of ''/usr/bin/breakbulk'' self,
         bind_of ''/usr/bin/kubelet'' (nd_kubelet n),
         write_of ''/usr/bin/mount'' 493 (''#!/usr/bin/breakbulk mount'' @ [newline]),
         bind_of ''/dev/null'' ''/dev/null'',
         write_of ''/sys/devices/system/cpu/online'' 0 ''0-0'',
         write_of ''/sys/devices/system/node/node0/cpulist'' 0 ''0-0'',
         write_of ''/sys/devices/system/node/node0/meminfo'' 0 ''Node 0 MemTotal:       1 kB'',
         write_of ''/sys/devices/system/node/node0/distance'' 0 ''100'',
         write_of ''/sys/devices/system/node/node0/cpu0/topology/core_id'' 0 ''0'',
         write_of ''/sys/devices/system/node/node0/cpu0/topology/physical_package_id'' 0 ''0'']\<rparr>"

subsection \<open>nodes.Main\<close>

text \<open>
  What the node program does for its arguments: \<open>argv\<close> are those of the process, \<open>rest\<close> those that the flag
  parser leaves.
\<close>

datatype node_command = MountHelper | NodeSandbox | NodeRun | NodeKubelet | NodeCriServer | NodeUnknown string

definition nodes_main :: "string list \<Rightarrow> string list \<Rightarrow> node_command" where
  "nodes_main argv rest =
     (if length argv > 1 \<and> argv ! 1 = ''mount'' then MountHelper
      else
        let cmd0 = (case rest of [] \<Rightarrow> [] | a # _ \<Rightarrow> a);
            cmd = (if cmd0 = [] then ''sandbox'' else cmd0)
        in if cmd = ''sandbox'' then NodeSandbox
           else if cmd = ''run'' then NodeRun
           else if cmd = ''kubelet'' then NodeKubelet
           else if cmd = ''criserver'' then NodeCriServer
           else NodeUnknown cmd)"

subsection \<open>What a node finds in its sandbox\<close>

lemma op_ok_back:
  assumes "op_ok os Q c f" "sb_config s = c" "sb_last_error (f s) = None"
  shows "sb_last_error s = None \<and> set (sb_trace s) \<subseteq> set (sb_trace (f s))"
proof -
  have "sb_last_error s = None"
    using op_ok_same[OF assms(1,2)] assms(3) by (cases "sb_last_error s") auto
  then show ?thesis
    using op_ok_effects[OF assms(1,2)] by auto
qed

lemma bind_mount_mounts:
  assumes "sb_last_error (bind_mount os f t src s) = None"
  shows "MountAt src (path_join [root_dir, t]) [] (ft_flags f) (ft_opts f) \<in> set (sb_trace (bind_mount os f t src s))"
  using assms
  by (auto simp: bind_mount_def unless_failed_def attempt_def finish_def Let_def split: option.splits if_splits prod.splits)

lemma payload_mounted:
  assumes c: "sb_config s = c" and ok: "sb_last_error (set_up os s) = None"
    and p: "p \<in> set (sc_payload c)" "ps_type (pd_source p) = ''bind''"
  shows "MountAt (ps_value (pd_source p)) (path_join [root_dir, pd_target p]) [] (ft_flags fs_bind_ro) []
    \<in> set (sb_trace (set_up os s))"
proof -
  have inject: "op_ok os not_exec c (inject_one os q)" for q
    using bind_mount_ok[of not_exec "pd_target q"] write_file_ok[of not_exec "pd_target q"] op_ok_id
    by (cases "ps_type (pd_source q) = ''bind''"; cases "ps_type (pd_source q) = ''write''") (auto simp: inject_one_def[abs_def])
  obtain xs ys where split: "sc_payload c = xs @ p # ys"
    using p(1) by (meson split_list)
  have mounts: "op_ok os not_exec c (mount_all os \<circ> set_hostname os)"
    unfolding mount_all_def
    by (intro op_ok_comp mount_fs_ok set_hostname_ok) (auto simp: not_exec_def)
  have last: "op_ok os not_exec c (pivot os \<circ> link_up os ''lo'' \<circ> write_etc os)"
    by (intro op_ok_comp pivot_ok link_up_ok write_etc_ok) (auto simp: not_exec_def)
  define s1 where "s1 = fold (inject_one os) xs ((mount_all os \<circ> set_hostname os) s)"
  have folded: "op_ok os not_exec c (fold (inject_one os) zs)" for zs
    by (rule op_ok_fold) (rule inject)
  note before = op_ok_comp[OF folded mounts, of xs] and after = op_ok_comp[OF last folded, of ys]
  have config: "sb_config s1 = c" "sb_config (inject_one os p s1) = c"
    using op_ok_config[OF before c] op_ok_config[OF inject] by (simp_all add: s1_def)
  have all: "set_up os s = ((pivot os \<circ> link_up os ''lo'' \<circ> write_etc os) \<circ> fold (inject_one os) ys) (inject_one os p s1)"
    using op_ok_config[OF mounts c] by (simp add: set_up_def inject_payload_def split s1_def)
  have kept: "sb_last_error (inject_one os p s1) = None \<and>
      set (sb_trace (inject_one os p s1)) \<subseteq> set (sb_trace (set_up os s))"
    using op_ok_back[OF after config(2)] ok by (simp add: all)
  have "inject_one os p s1 = bind_mount os fs_bind_ro (pd_target p) (ps_value (pd_source p)) s1"
    using p(2) by (simp add: inject_one_def)
  then have "MountAt (ps_value (pd_source p)) (path_join [root_dir, pd_target p]) [] (ft_flags fs_bind_ro) []
      \<in> set (sb_trace (inject_one os p s1))"
    using bind_mount_mounts[of os fs_bind_ro "pd_target p" "ps_value (pd_source p)" s1] kept by (simp add: fs_bind_ro_def)
  then show ?thesis
    using kept by blast
qed

text \<open>
  A sandbox whose payload has only safe targets: the set-up stays below the root, and when the command starts every bind
  of the payload has been mounted.
\<close>

definition bound_below_root :: "effect list \<Rightarrow> sandbox_payload \<Rightarrow> bool" where
  "bound_below_root tr p \<longleftrightarrow>
     ps_type (pd_source p) = ''bind'' \<longrightarrow>
     MountAt (ps_value (pd_source p)) (path_join [root_dir, pd_target p]) [] (ft_flags fs_bind_ro) [] \<in> set tr"

lemma bound_bind:
  "bound_below_root tr (bind_of t src) \<longleftrightarrow> MountAt src (path_join [root_dir, t]) [] (ft_flags fs_bind_ro) [] \<in> set tr"
  by (simp add: bound_below_root_def bind_of_def)

lemma run_finds_payload:
  assumes safe: "\<forall>p \<in> set (sc_payload c). safe_target (pd_target p)" and command: "sc_command c = a # as"
  shows "case run_completed os c of (r, tr) \<Rightarrow>
     list_all confined (filter not_exec (tl tr)) \<and>
     (r = Replaced \<longrightarrow> (\<exists>env. last tr = Exec a (a # as) env) \<and> (\<forall>p \<in> set (sc_payload c). bound_below_root tr p))"
proof -
  let ?m = "MountAt ''tmpfs'' root_dir ''tmpfs'' 0 []"
  let ?s = "(new_sandbox_proc c)\<lparr>sb_trace := [?m]\<rparr>"
  show ?thesis
  proof (cases "os_error (os [] ?m)")
    case None
    then have run: "run_completed os c = start_command os (set_up os ?s)"
      by (simp add: run_completed_def)
    obtain es where es: "sb_trace (set_up os ?s) = sb_trace ?s @ es" "list_all confined es"
      "sb_config (set_up os ?s) = c"
      by (rule set_up_run[of confined c ?s os]) (simp_all add: new_sandbox_proc_def safe)
    have "bound_below_root (sb_trace (set_up os ?s)) p"
      if "sb_last_error (set_up os ?s) = None" "p \<in> set (sc_payload c)" for p
      using payload_mounted[where s = ?s and c = c, OF _ that] by (simp add: bound_below_root_def new_sandbox_proc_def)
    then show ?thesis
      using es command
      by (auto simp: run start_command_def Let_def not_exec_def list_all_iff bound_below_root_def split: option.splits)
  qed (simp add: run_completed_def)
qed

lemma node_targets_safe: "\<forall>p \<in> set (sc_payload (node_sandbox self n)). safe_target (pd_target p)"
  by (simp add: node_sandbox_def bind_of_def write_of_def safe_target_def no_dotdot_def kept_elems_def slash_def)

lemma node_target_paths:
  "path_join [root_dir, ''/etc/kubernetes/kubelet.kubeconfig''] = ''/tmp/etc/kubernetes/kubelet.kubeconfig''"
  "path_join [root_dir, ''/usr/bin/breakbulk''] = ''/tmp/usr/bin/breakbulk''"
  "path_join [root_dir, ''/usr/bin/kubelet''] = ''/tmp/usr/bin/kubelet''"
  by (simp_all add: root_dir_def path_join_def path_clean_def Let_def slash_def clean_step_def)

text \<open>
  Whatever the operating system answers and whatever the node is called, every directory, file and mount of the set-up is
  below /tmp; and if the command starts, it is the program itself with the kubelet and its kubeconfig mounted where the
  kubelet's command line names them.
\<close>

lemma node_set_up:
  "case run_completed os (node_sandbox self n) of (r, tr) \<Rightarrow>
     list_all confined (filter not_exec (tl tr)) \<and>
     (case r of
        Returned e \<Rightarrow> True
      | Replaced \<Rightarrow>
          list_all (\<lambda>(src, target). MountAt src (''/tmp'' @ target) [] (ft_flags fs_bind_ro) [] \<in> set tr)
            [(nd_kubeconfig n, ''/etc/kubernetes/kubelet.kubeconfig''), (self, ''/usr/bin/breakbulk''),
             (nd_kubelet n, ''/usr/bin/kubelet'')] \<and>
          (case last tr of
             Exec path argv env \<Rightarrow> path = ''/usr/bin/breakbulk'' \<and> nodes_main argv (tl argv) = NodeRun
           | _ \<Rightarrow> False) \<and>
          pr_args (kubelet_process m) ! 4 = ''/etc/kubernetes/kubelet.kubeconfig'')"
proof -
  let ?c = "node_sandbox self n"
  have command: "sc_command ?c = [''/usr/bin/breakbulk'', ''run'']"
    by (simp add: node_sandbox_def)
  have binds: "list_all (\<lambda>(src, target). MountAt src (''/tmp'' @ target) [] (ft_flags fs_bind_ro) [] \<in> set tr)
      [(nd_kubeconfig n, ''/etc/kubernetes/kubelet.kubeconfig''), (self, ''/usr/bin/breakbulk''),
       (nd_kubelet n, ''/usr/bin/kubelet'')]"
    if "\<forall>p \<in> set (sc_payload ?c). bound_below_root tr p" for tr
    using that by (simp add: node_sandbox_def bound_bind node_target_paths)
  show ?thesis
    using run_finds_payload[OF node_targets_safe command, of os] binds
    by (auto simp: nodes_main_def kubelet_process_def split: run_result.splits)
qed

end
