(* ===== verification/Program.thy ===== *)
theory Program
  imports Webhook_Service Nodes Sandbox_Control
begin

section \<open>The program (tools/runkube/main.go)\<close>

text \<open>
  The dispatch on the command line, how a node is run, and which command the processes started by the
  program itself carry out. Parsing the flags is pflag's: an argument.
\<close>

datatype command =
    RunCluster
  | ExecProcess proc
  | ServeKms
  | ServeJwt
  | ServeWebhook
  | ServeNode string
  | NodeNameMissing
  | RunKubectl "string list"
  | RunCurl "string list"
  | RunEtcdctl "string list"
  | UnknownCommand string

definition cluster_command :: "config \<Rightarrow> string list \<Rightarrow> command" where
  "cluster_command c args =
     (let cmd = (case args of [] \<Rightarrow> ''run'' | a # _ \<Rightarrow> a)
      in if cmd = ''run'' then RunCluster
         else if cmd = ''apiserver'' then ExecProcess (api_server_process c)
         else if cmd = ''etcd'' then ExecProcess (etcd_process c)
         else if cmd = ''controller'' then ExecProcess (controller_process c)
         else if cmd = ''scheduler'' then ExecProcess (scheduler_process c)
         else if cmd = ''kms'' then ServeKms
         else if cmd = ''jwtsigner'' then ServeJwt
         else if cmd = ''webhook'' then ServeWebhook
         else if cmd = ''node'' then (if length args \<noteq> 2 then NodeNameMissing else ServeNode (args ! 1))
         else if cmd = ''kubectl'' then RunKubectl args
         else if cmd = ''curl'' then RunCurl (tl args)
         else if cmd = ''etcdctl'' then RunEtcdctl args
         else UnknownCommand cmd)"

text \<open>
  What \<open>main\<close> does: a process with the cookie is a sandbox; under the path of the node program \<open>nodes.Main\<close>
  comes first, and when it returns \<open>main\<close> goes on to the configuration and the command of the cluster. \<open>parse_args\<close> gives
  the values of the flags and the arguments left.
\<close>

datatype program =
    SandboxFails string
  | SandboxRuns sandbox_config
  | Program "node_command option" "(config_error + config) \<times> string list"

definition program ::
  "(string list \<Rightarrow> string list) \<Rightarrow> (string list \<Rightarrow> flags \<times> string list) \<Rightarrow>
     (flags \<Rightarrow> config_error + config) \<Rightarrow> string list \<Rightarrow> program" where
  "program node_args parse_args configure argv =
     (case init_args argv of
        Inl e \<Rightarrow> SandboxFails e
      | Inr (Some sc) \<Rightarrow> SandboxRuns sc
      | Inr None \<Rightarrow>
          (let node = (if argv \<noteq> [] \<and> hd argv = ''/usr/bin/breakbulk''
                       then Some (nodes_main argv (node_args (tl argv))) else None);
               (fl, args) = parse_args (tl argv)
           in Program node (configure fl, args)))"

subsection \<open>RunNode\<close>

text \<open>Without a kubelet on the path it panics: \<open>None\<close>. \<open>machine_id\<close> is the hash of the name in hexadecimal.\<close>

definition run_node ::
  "(string \<Rightarrow> string option) \<Rightarrow> (string \<Rightarrow> string) \<Rightarrow> config \<Rightarrow> string \<Rightarrow> node option" where
  "run_node look_path machine_id c node_name =
     (case look_path ''kubelet'' of
        None \<Rightarrow> None
      | Some kp \<Rightarrow> Some \<lparr>nd_name = node_name, nd_machine_id = machine_id node_name, nd_root = [],
          nd_kubeconfig = kube_config_ref c node_name, nd_kubelet = kp\<rparr>)"

subsection \<open>The processes of a formation are programs of their own\<close>

definition no_flags :: flags where
  "no_flags = \<lparr>fl_name = None, fl_root = None, fl_external = None, fl_range = None, fl_nodes = None\<rparr>"

text \<open>What pflag does with arguments that are no flags.\<close>

definition passes_arguments :: "(string list \<Rightarrow> flags \<times> string list) \<Rightarrow> bool" where
  "passes_arguments parse_args \<longleftrightarrow>
     (\<forall>args. list_all (\<lambda>a. take 1 a \<noteq> ''-'') args \<longrightarrow> parse_args args = (no_flags, args))"

text \<open>The configuration and the command of a process, run by its arguments.\<close>

definition child ::
  "(string list \<Rightarrow> flags \<times> string list) \<Rightarrow> (flags \<Rightarrow> config_error + config) \<Rightarrow> proc \<Rightarrow> (config_error + config \<times> command)" where
  "child parse_args configure p =
     (let (fl, args) = parse_args (tl (pr_args p)) in
      case configure fl of Inl e \<Rightarrow> Inl e | Inr c \<Rightarrow> Inr (c, cluster_command c args))"

definition own_processes :: "string \<Rightarrow> config \<Rightarrow> proc list" where
  "own_processes self c = drop 4 (fst (formation self c))"

lemma default_configuration:
  assumes "parse_flags sha parse_prefix env no_flags = Inr d"
  shows "cc_name d = ''default'' \<and> cc_nodes d = [''node-a'']"
  using assms
  by (auto simp: parse_flags_def no_flags_def the_flag_def Let_def dest: validate_ok(2,7))

lemma default_configuration_exists:
  assumes "parse_prefix = (\<lambda>_. None)"
  shows "\<exists>d. parse_flags sha parse_prefix env no_flags = Inr d"
  by (simp add: parse_flags_def no_flags_def the_flag_def validate_def dns_label_def is_lower_def is_alnum_def Let_def)

lemma socket_names: "unix_socket_opaque c tag = unix_socket_opaque d tag \<longleftrightarrow> cc_name c = cc_name d"
  by (simp add: unix_socket_opaque_def)

text \<open>
  C18. The processes that the program starts from its own executable carry out the commands meant for them, the
  webhook service, the KMS plugin, the JWT signer and every node; but they are started without flags, so each
  of them does so for the cluster called default, with its root and its one node: the socket the
  webhook service listens on is the one that \<open>Init\<close> has written into the egress configuration only
  when the cluster has that name. Names of nodes must not look like flags.
\<close>

theorem children_serve_the_default_cluster:
  assumes "passes_arguments parse_args" "list_all (\<lambda>n. take 1 n \<noteq> ''-'') (cc_nodes c)"
    and "parse_flags sha parse_prefix env no_flags = Inr d"
  shows "map (child parse_args (parse_flags sha parse_prefix env)) (own_processes self c) =
      map (\<lambda>cmd. Inr (d, cmd)) ([ServeWebhook, ServeKms, ServeJwt] @ map ServeNode (cc_nodes c)) \<and>
    (\<exists>f. run_webhook d = Inr (f, unix_socket_opaque d ''frontend'')) \<and>
    (unix_socket_opaque d ''frontend'' = unix_socket_opaque c ''frontend'' \<longleftrightarrow> cc_name c = ''default'')"
proof -
  have d: "cc_name d = ''default''"
    using default_configuration[OF assms(3)] by blast
  have args: "parse_args xs = (no_flags, xs)" if "list_all (\<lambda>a. take 1 a \<noteq> ''-'') xs" for xs
    using assms(1) that by (simp add: passes_arguments_def)
  have nodes: "child parse_args (parse_flags sha parse_prefix env) \<lparr>pr_tag = n, pr_args = [self, ''node'', n]\<rparr> = Inr (d, ServeNode n)"
    if "n \<in> set (cc_nodes c)" for n
    using assms(2,3) that by (simp add: child_def args list_all_iff cluster_command_def)
  have services: "child parse_args (parse_flags sha parse_prefix env) (webhook_process self) = Inr (d, ServeWebhook)"
      "child parse_args (parse_flags sha parse_prefix env) (kms_process self) = Inr (d, ServeKms)"
      "child parse_args (parse_flags sha parse_prefix env) (jwt_signer_process self) = Inr (d, ServeJwt)"
    using assms(3)
    by (simp_all add: child_def args webhook_process_def kms_process_def jwt_signer_process_def cluster_command_def)
  have "snd (register (webhook_servers d) new_frontend) = None"
    using register_distinct[OF frontend_wf_new webhook_servers_ok[of d]] d
    by (simp add: new_frontend_def backend_for_def dns_label_def is_lower_def is_alnum_def)
  then have "\<exists>f. run_webhook d = Inr (f, unix_socket_opaque d ''frontend'')"
    by (cases "register (webhook_servers d) new_frontend") (simp add: run_webhook_def)
  then show ?thesis
    using nodes services d by (auto simp: own_processes_def formation_def node_processes_def socket_names)
qed

lemma children_serve_the_default_cluster_witness:
  "\<exists>d. map (child (\<lambda>args. (no_flags, args)) (parse_flags (\<lambda>_ i. i) (\<lambda>_. None) \<lparr>en_state_home = ''/s'', en_user_home = []\<rparr>))
      (own_processes ''/rk'' sample_config) =
    map (\<lambda>cmd. Inr (d, cmd)) [ServeWebhook, ServeKms, ServeJwt, ServeNode ''node-a'']"
proof -
  obtain d where "parse_flags (\<lambda>_ i. i) (\<lambda>_. None) \<lparr>en_state_home = ''/s'', en_user_home = []\<rparr> no_flags = Inr d"
    using default_configuration_exists by blast
  from children_serve_the_default_cluster[OF _ _ this, of "\<lambda>args. (no_flags, args)" sample_config "''/rk''"]
  show ?thesis
    by (auto simp: passes_arguments_def sample_config_def)
qed

end
