(* ===== verification/Node_Run.thy ===== *)
theory Node_Run
  imports Program
begin

section \<open>A node from its command to its sandbox (pkg/nodes/nodes.go)\<close>

text \<open>
  What a node does outside its sandbox, the process it starts there, and the server it runs inside. The answers of the operating
  system are arguments.
\<close>

text \<open>\<open>RunSandbox\<close>; without the path of its own executable the process exits: \<open>None\<close>.\<close>

definition run_sandbox ::
  "string option \<Rightarrow> node \<Rightarrow> fd_table \<Rightarrow> parent_env \<Rightarrow> (string list \<times> started option \<times> parent_result) option" where
  "run_sandbox executable n table env =
     (case executable of
        None \<Rightarrow> None
      | Some self \<Rightarrow> Some (run_parent ''v1'' (node_sandbox self n) table env))"

text \<open>\<open>RunCRIServer\<close>: the error, or the socket it serves on until its context is done, with every call behind the interceptors.\<close>

definition run_cri_server :: "(string \<Rightarrow> string option) \<Rightarrow> (string \<Rightarrow> string option) \<Rightarrow> string + string" where
  "run_cri_server mkdir listen =
     (case mkdir (path_dir runtime_endpoint) of
        Some e \<Rightarrow> Inl e
      | None \<Rightarrow> (case listen runtime_endpoint of Some e \<Rightarrow> Inl e | None \<Rightarrow> Inr runtime_endpoint))"

lemma run_parent_starts:
  assumes "run_parent version c table env = (reqs, Some proc, res)"
  shows "\<exists>control table'. new_parent (pe_channel env) table = (Inr control, table') \<and>
    proc = \<lparr>st_argv = [sandbox_cookie, write_cookie version c], st_environ = run_environ control,
      st_fds = started_table (run_files control) table'\<rparr>"
  using assms by (auto simp: run_parent_def Let_def split: sum.splits prod.splits option.splits if_splits)

text \<open>
  C19. A node runs in its sandbox and finds there what it needs: the process that RunSandbox starts is, for the program, the
  sandbox of that very node. Whatever the operating system answers there and whatever the node is called, every directory,
  file and mount of the set-up is below /tmp; and if the command starts, it is the program itself, mounted at
  /usr/bin/breakbulk, which then runs the kubelet and the CRI server, and the kubelet and its kubeconfig are mounted where
  the kubelet's command line names them. The names are ASCII, and the flag parser leaves an argument that is no flag.
\<close>

theorem node_runs_in_its_sandbox:
  assumes "run_sandbox (Some self) n table env = Some (reqs, Some proc, res)" "ascii_config (node_sandbox self n)"
    and "node_args [''run''] = [''run'']"
  shows "program node_args parse_args configure (st_argv proc) = SandboxRuns (node_sandbox self n) \<and>
    (case run_completed os (node_sandbox self n) of (r, tr) \<Rightarrow>
       list_all confined (filter not_exec (tl tr)) \<and>
       (case r of
          Returned e \<Rightarrow> True
        | Replaced \<Rightarrow>
            list_all (\<lambda>(src, target). MountAt src (''/tmp'' @ target) [] (ft_flags fs_bind_ro) [] \<in> set tr)
              [(nd_kubeconfig n, ''/etc/kubernetes/kubelet.kubeconfig''), (self, ''/usr/bin/breakbulk''),
               (nd_kubelet n, ''/usr/bin/kubelet'')] \<and>
            (case last tr of
               Exec path argv env' \<Rightarrow> path = ''/usr/bin/breakbulk'' \<and>
                 (\<exists>cluster. program node_args parse_args configure argv = Program (Some NodeRun) cluster)
             | _ \<Rightarrow> False) \<and>
            pr_args (kubelet_process m) ! 4 = ''/etc/kubernetes/kubelet.kubeconfig''))"
proof -
  have "st_argv proc = [sandbox_cookie, write_cookie ''v1'' (node_sandbox self n)]"
    using assms(1) by (auto simp: run_sandbox_def dest!: run_parent_starts)
  then have "program node_args parse_args configure (st_argv proc) = SandboxRuns (node_sandbox self n)"
    by (simp add: program_def init_args_def cookie_round_trip)
  moreover have command: "sc_command (node_sandbox self n) = [''/usr/bin/breakbulk'', ''run'']"
    by (simp add: node_sandbox_def)
  have again: "\<exists>cluster. program node_args parse_args configure [''/usr/bin/breakbulk'', ''run''] = Program (Some NodeRun) cluster"
    using assms(3) by (simp add: program_def init_args_def sandbox_cookie_def nodes_main_def split: prod.splits)
  moreover have "case run_completed os (node_sandbox self n) of (r, tr) \<Rightarrow>
      r = Replaced \<longrightarrow> (\<exists>env. last tr = Exec ''/usr/bin/breakbulk'' [''/usr/bin/breakbulk'', ''run''] env)"
    using run_finds_payload[OF node_targets_safe command, of os] by auto
  ultimately show ?thesis
    using node_set_up[where os = os and self = self and n = n and m = m] by (auto split: run_result.splits)
qed

definition sample_node :: node where
  "sample_node = \<lparr>nd_name = ''node-a'', nd_machine_id = ''00'', nd_root = [], nd_kubeconfig = ''/k'', nd_kubelet = ''/bin/kubelet''\<rparr>"

lemma node_runs_in_its_sandbox_witness:
  "\<exists>reqs proc res. run_sandbox (Some ''/rk'') sample_node sample_table sample_parent_env = Some (reqs, Some proc, res) \<and>
     program (\<lambda>args. args) (\<lambda>args. (no_flags, args)) (\<lambda>_. Inl InvalidRange) (st_argv proc) =
       SandboxRuns (node_sandbox ''/rk'' sample_node)"
proof -
  obtain proc where run: "run_sandbox (Some ''/rk'') sample_node sample_table sample_parent_env =
      Some ([''proxy-listener'', ''complete''], Some proc, Serving 9)"
    using sample_parent_runs by (fastforce simp: run_sandbox_def)
  have "ascii_config (node_sandbox ''/rk'' sample_node)"
    by code_simp
  from node_runs_in_its_sandbox[OF run this, of "\<lambda>args. args"] show ?thesis
    using run by simp
qed

end
