(* ===== verification/Middleware.thy ===== *)
theory Middleware
  imports Cri_System
begin

section \<open>The interceptors of the gRPC server (pkg/grpcmiddleware)\<close>

text \<open>
  The two interceptors of the CRI server and the chain \<open>RunCRIServer\<close> builds from them: \<open>Recover\<close> outside,
  \<open>Logging\<close> inside, the handler inside both. A handler changes the state of the service and answers or
  panics; its deferred \<open>Unlock\<close> has run by the time an interceptor sees the panic. Of a log line the method and
  the code of the error are kept.
\<close>

datatype call_log = Recovered | Called string "grpc_code option"

type_synonym ('s, 'r) unary = "'s \<times> call_log list \<Rightarrow> ('s \<times> call_log list) \<times> 'r rpc"

definition unary_handler :: "('s \<Rightarrow> 's \<times> 'r rpc) \<Rightarrow> ('s, 'r) unary" where
  "unary_handler h w = (case h (fst w) of (s, x) \<Rightarrow> ((s, snd w), x))"

definition recover_call :: "('s, 'r) unary \<Rightarrow> ('s, 'r) unary" where
  "recover_call h w =
     (case h w of
        ((s, l), Panicked) \<Rightarrow> ((s, l @ [Recovered]), Fail Internal)
      | out \<Rightarrow> out)"

definition logging_call :: "string \<Rightarrow> ('s, 'r) unary \<Rightarrow> ('s, 'r) unary" where
  "logging_call full_method h w =
     (case h w of
        (w', Panicked) \<Rightarrow> (w', Panicked)
      | ((s, l), Fail c) \<Rightarrow> ((s, l @ [Called full_method (Some c)]), Fail c)
      | ((s, l), Reply x) \<Rightarrow> ((s, l @ [Called full_method None]), Reply x))"

definition chained_call :: "string \<Rightarrow> ('s \<Rightarrow> 's \<times> 'r rpc) \<Rightarrow> ('s, 'r) unary" where
  "chained_call full_method h = recover_call (logging_call full_method (unary_handler h))"

subsection \<open>Every call is answered\<close>

definition recovered :: "'r rpc \<Rightarrow> 'r rpc" where
  "recovered x = (if x = Panicked then Fail Internal else x)"

fun call_log_of :: "string \<Rightarrow> 'r rpc \<Rightarrow> call_log" where
  "call_log_of m Panicked = Recovered"
| "call_log_of m (Fail c) = Called m (Some c)"
| "call_log_of m (Reply x) = Called m None"

lemma recovered_answers [simp]: "recovered x \<noteq> Panicked"
  by (simp add: recovered_def)

lemma chained_call_eq:
  "chained_call m h (s, l) = (case h s of (s', x) \<Rightarrow> ((s', l @ [call_log_of m x]), recovered x))"
  by (auto simp: chained_call_def recover_call_def logging_call_def unary_handler_def recovered_def
      split: prod.splits rpc.splits)

fun failed :: "'r rpc \<Rightarrow> bool" where
  "failed (Reply x) \<longleftrightarrow> False"
| "failed _ \<longleftrightarrow> True"

lemma failed_recovered [simp]: "failed (recovered x) = failed x"
  by (cases x) (simp_all add: recovered_def)

lemma failing_calls_keep:
  "failed (snd (create_container e q r)) \<Longrightarrow> fst (create_container e q r) = r"
  "failed (snd (remove_pod_sandbox e k r)) \<Longrightarrow> fst (remove_pod_sandbox e k r) = r"
  "failed (snd (remove_container_rpc e k r)) \<Longrightarrow> fst (remove_container_rpc e k r) = r"
  by (auto simp: remove_pod_sandbox_def remove_container_rpc_def create_container_def Let_def
      split: if_splits option.splits bool.splits)

text \<open>A call is answered, is logged once, and has changed nothing when it fails.\<close>

definition clean_answer :: "'s \<times> call_log list \<Rightarrow> ('s \<times> call_log list) \<times> 'r rpc \<Rightarrow> bool" where
  "clean_answer w out \<longleftrightarrow>
     snd out \<noteq> Panicked \<and> (failed (snd out) \<longrightarrow> fst (fst out) = fst w) \<and>
     length (snd (fst out)) = length (snd w) + 1"

lemma clean_answerI:
  assumes "failed (snd (h s)) \<Longrightarrow> fst (h s) = s"
  shows "clean_answer (s, l) (chained_call m h (s, l))"
  using assms by (cases "h s") (simp add: clean_answer_def chained_call_eq)

lemma get_image_without_name: "rt_images r \<noteq> [] \<Longrightarrow> get_image rk [] r \<noteq> None"
  by (cases "gm_range rk (rt_images r)")
    (auto simp: get_image_def list_images_def image_id_filter_def image_match_def split: list.splits
      dest: arg_cong[where f = set])

lemma create_without_image:
  assumes "cr_pod_sandbox_id q \<noteq> []" "get_sandbox (e_match e) (e_rank e 0) (cr_pod_sandbox_id q) r \<noteq> None"
    "Option.bind (cr_config q) cc_image = None" "rt_images r \<noteq> []"
  shows "snd (create_container e q r) = Panicked \<or> snd (create_container e q r) = Fail AlreadyExists"
  using assms get_image_without_name[OF assms(4)] by (simp add: create_container_def Let_def)


end
