(* ===== verification/Resolve.thy ===== *)
theory Resolve
  imports Go_Text
begin

section \<open>Resolving values (pkg/resolve/resolve.go)\<close>

text \<open>
  A sequence of strings and valuers becomes a sequence of strings, which its consumer may stop; the first error
  is kept. What a valuer answers, \<open>Value\<close>, is an argument: \<open>Inl\<close> is an error. The consumer is a function on a state of
  its own that says whether it wants to go on.
\<close>

datatype 'v resolvable = ValuerItem 'v | StringItem string | OtherItem

datatype value_error = ValueError string

definition value_error_text :: "value_error \<Rightarrow> string" where
  "value_error_text e = (case e of ValueError inner \<Rightarrow> ''ValueError '' @ inner)"

type_synonym resolver = "value_error option"

definition set_error :: "value_error \<Rightarrow> resolver \<Rightarrow> resolver" where
  "set_error e r = (case r of Some e' \<Rightarrow> Some e' | None \<Rightarrow> Some e)"

definition resolve_value :: "('v \<Rightarrow> string + string) \<Rightarrow> 'v \<Rightarrow> value_error + string" where
  "resolve_value val v = (case val v of Inl e \<Rightarrow> Inl (ValueError e) | Inr x \<Rightarrow> Inr x)"

text \<open>
  One item: the string to yield. The \<open>break\<close> behind a failure leaves the switch, not the loop, so a value that
  fails is yielded as the empty string.
\<close>

definition resolve_item :: "('v \<Rightarrow> string + string) \<Rightarrow> 'v resolvable \<Rightarrow> resolver \<Rightarrow> resolver \<times> string" where
  "resolve_item val i r =
     (case i of
        ValuerItem v \<Rightarrow> (case resolve_value val v of Inl e \<Rightarrow> (set_error e r, []) | Inr y \<Rightarrow> (r, y))
      | StringItem y \<Rightarrow> (r, y)
      | OtherItem \<Rightarrow> (r, []))"

fun resolve ::
  "('v \<Rightarrow> string + string) \<Rightarrow> (string \<Rightarrow> 's \<Rightarrow> 's \<times> bool) \<Rightarrow> 'v resolvable list \<Rightarrow> resolver \<times> 's \<Rightarrow> resolver \<times> 's" where
  "resolve val yield [] (r, s) = (r, s)"
| "resolve val yield (i # is) (r, s) =
     (case resolve_item val i r of (r', y) \<Rightarrow>
        (case yield y s of (s', go) \<Rightarrow> if go then resolve val yield is (r', s') else (r', s')))"

subsection \<open>What is resolved\<close>

fun text_of_item :: "('v \<Rightarrow> string + string) \<Rightarrow> 'v resolvable \<Rightarrow> string" where
  "text_of_item val (ValuerItem v) = (case val v of Inl e \<Rightarrow> [] | Inr y \<Rightarrow> y)"
| "text_of_item val (StringItem y) = y"
| "text_of_item val OtherItem = []"

fun error_of_item :: "('v \<Rightarrow> string + string) \<Rightarrow> 'v resolvable \<Rightarrow> value_error list" where
  "error_of_item val (ValuerItem v) = (case val v of Inl e \<Rightarrow> [ValueError e] | Inr y \<Rightarrow> [])"
| "error_of_item val _ = []"

text \<open>
  A consumer that stops after its \<open>n\<close>-th string gets the texts of the first \<open>n\<close> items, and only these are
  asked for their values.
\<close>

definition take_strings :: "nat \<Rightarrow> string \<Rightarrow> string list \<Rightarrow> string list \<times> bool" where
  "take_strings n y s = (s @ [y], length s + 1 < n)"

lemma resolve_item_eq:
  "resolve_item val i r = (case r of None \<Rightarrow> (case error_of_item val i of [] \<Rightarrow> None | e # _ \<Rightarrow> Some e) | Some e \<Rightarrow> Some e,
     text_of_item val i)"
  by (cases i) (auto simp: resolve_item_def resolve_value_def set_error_def split: sum.splits option.splits)

definition first_error :: "resolver \<Rightarrow> value_error list \<Rightarrow> resolver" where
  "first_error r es = (case r of Some e \<Rightarrow> Some e | None \<Rightarrow> (case es of [] \<Rightarrow> None | e # _ \<Rightarrow> Some e))"

lemma first_error_append: "first_error (first_error r xs) ys = first_error r (xs @ ys)"
  by (auto simp: first_error_def split: option.splits list.splits)

lemma resolve_take:
  assumes "length s < n"
  shows "resolve val (take_strings n) is (r, s) =
    (first_error r (concat (map (error_of_item val) (take (n - length s) is))),
     s @ map (text_of_item val) (take (n - length s) is))"
  using assms
proof (induction "is" arbitrary: r s)
  case (Cons i "is")
  have item: "resolve_item val i r = (first_error r (error_of_item val i), text_of_item val i)"
    by (simp add: resolve_item_eq first_error_def)
  obtain k where k: "n - length s = Suc k"
    using Cons.prems by (cases "n - length s") auto
  show ?case
  proof (cases k)
    case 0
    then have "n = Suc (length s)"
      using k by simp
    then show ?thesis
      by (simp add: item take_strings_def)
  next
    case (Suc j)
    then have "length (s @ [text_of_item val i]) < n" "n - length (s @ [text_of_item val i]) = k"
      using k by auto
    then show ?thesis
      using Cons.IH[of "s @ [text_of_item val i]"] k by (simp add: item take_strings_def first_error_append)
  qed
qed (simp add: first_error_def split: option.splits)

end
