(* ===== verification/Requestor.thy ===== *)
theory Requestor
  imports Kapi Config
begin

section \<open>The load generator (tools/requestor)\<close>

text \<open>
  Every resource and verb that the discovery of an API server lists becomes a request, round after round.
  What client-go does with a request is not modelled: \<open>ToRESTRequest\<close> is given as what it sets, and
  whether the builder has found an error is an argument, as is \<open>schema.ParseGroupVersion\<close>.
\<close>

record request_info =
  ri_group :: string
  ri_version :: string
  ri_resource :: string
  ri_subresource :: string
  ri_verb :: string
  ri_field_selector :: string
  ri_label_selector :: string
  ri_namespace :: string
  ri_name :: string

definition no_request :: request_info where
  "no_request = \<lparr>ri_group = [], ri_version = [], ri_resource = [], ri_subresource = [], ri_verb = [],
     ri_field_selector = [], ri_label_selector = [], ri_namespace = [], ri_name = []\<rparr>"

record rest_request =
  rr_prefix :: "string list"
  rr_verb :: string
  rr_max_retries :: nat
  rr_namespace :: string
  rr_resource :: string
  rr_subresource :: string
  rr_params :: "(string \<times> string) list"

text \<open>The switch on the verb; an unknown verb panics: \<open>None\<close>.\<close>

definition http_verb :: "string \<Rightarrow> string option" where
  "http_verb verb =
     (let v = to_lower verb
      in if v = ''create'' then Some ''POST''
         else if v = ''update'' \<or> v = ''patch'' then Some ''PUT''
         else if v = ''delete'' \<or> v = ''deletecollection'' then Some ''DELETE''
         else if v = ''get'' \<or> v = ''list'' \<or> v = ''watch'' then Some ''GET''
         else None)"

definition to_rest_request :: "request_info \<Rightarrow> rest_request option" where
  "to_rest_request r =
     (case http_verb (ri_verb r) of
        None \<Rightarrow> None
      | Some v \<Rightarrow> Some
          \<lparr>rr_prefix = (if ri_group r = [] then [''api'', ri_version r] else [''apis'', ri_group r, ri_version r]),
           rr_verb = v, rr_max_retries = 0, rr_namespace = ri_namespace r, rr_resource = ri_resource r,
           rr_subresource = ri_subresource r,
           rr_params =
             (if ri_field_selector r \<noteq> [] then [(''fieldSelector'', ri_field_selector r)] else []) @
             (if ri_label_selector r \<noteq> [] then [(''labelSelector'', ri_label_selector r)] else [])\<rparr>)"

subsection \<open>Discovery\<close>

text \<open>A list of resources of a group: its group and version as one text, and the names and verbs of its resources.\<close>

record resource_list =
  rl_group_version :: string
  rl_resources :: "(string \<times> string list) list"

definition group_requests ::
  "(string \<Rightarrow> group_version option) \<Rightarrow> request_info \<Rightarrow> resource_list \<Rightarrow> request_info list" where
  "group_requests parse base g =
     concat (map (\<lambda>(name, verbs).
       let gv = (case parse (rl_group_version g) of None \<Rightarrow> \<lparr>gv_group = [], gv_version = []\<rparr> | Some gv \<Rightarrow> gv)
       in map (\<lambda>verb.
            case cut_at slash name of (r1, r2, _) \<Rightarrow>
              base\<lparr>ri_verb := verb, ri_version := gv_version gv, ri_group := gv_group gv,
                ri_resource := r1, ri_subresource := r2\<rparr>) verbs)
     (rl_resources g))"

definition discovery_expandor ::
  "(string \<Rightarrow> group_version option) \<Rightarrow> request_info \<Rightarrow> string + resource_list list \<Rightarrow> string + request_info list" where
  "discovery_expandor parse base answer =
     (case answer of Inl e \<Rightarrow> Inl e | Inr gs \<Rightarrow> Inr (concat (map (group_requests parse base) gs)))"

text \<open>
  The iterator \<open>All\<close>: the requests over and over, until the consumer stops. The consumer is a function on a state of its
  own; \<open>feed\<close> also says whether it wants more.
\<close>

fun feed :: "('a \<Rightarrow> 's \<Rightarrow> 's \<times> bool) \<Rightarrow> 'a list \<Rightarrow> 's \<Rightarrow> 's \<times> bool" where
  "feed yield [] s = (s, True)"
| "feed yield (x # xs) s = (case yield x s of (s', go) \<Rightarrow> if go then feed yield xs s' else (s', False))"

partial_function (option) expand_all :: "('a \<Rightarrow> 's \<Rightarrow> 's \<times> bool) \<Rightarrow> 'a list option \<Rightarrow> 's \<Rightarrow> 's option" where
  "expand_all yield disco s =
     (case disco of
        None \<Rightarrow> Some s
      | Some xs \<Rightarrow>
          (case feed yield xs s of (s', go) \<Rightarrow> if go then expand_all yield disco s' else Some s'))"

subsection \<open>The loop of main\<close>

text \<open>The requests started so far, and whether the process has panicked, which ends the loop.\<close>

definition request_one ::
  "(rest_request \<Rightarrow> bool) \<Rightarrow> request_info \<Rightarrow> rest_request list \<times> bool \<Rightarrow> (rest_request list \<times> bool) \<times> bool" where
  "request_one invalid o' s =
     (case to_rest_request o' of
        None \<Rightarrow> ((fst s, True), False)
      | Some r \<Rightarrow> ((if invalid r then fst s else fst s @ [r], snd s), True))"

definition request_loop ::
  "(string \<Rightarrow> group_version option) \<Rightarrow> (rest_request \<Rightarrow> bool) \<Rightarrow> resource_list list \<Rightarrow> (rest_request list \<times> bool) option" where
  "request_loop parse invalid gs =
     (case discovery_expandor parse no_request (Inr gs) of
        Inl e \<Rightarrow> Some ([], False)
      | Inr reqs \<Rightarrow> expand_all (request_one invalid) (Some reqs) ([], False))"

subsection \<open>The start of main\<close>

text \<open>
  The configuration of a client of the API server, as far as the tools change it; a rate of \<open>-1\<close> is none. A warning handler
  and a serializer are known by their names.
\<close>

record rest_config =
  rc_host :: string
  rc_user_agent :: string
  rc_disable_compression :: bool
  rc_qps :: int
  rc_group_version :: group_version
  rc_warning_handler :: string
  rc_serializer :: string

definition requestor_rest_config :: "rest_config \<Rightarrow> rest_config" where
  "requestor_rest_config c =
     c\<lparr>rc_user_agent := ''requestor/v1.0.0'', rc_disable_compression := True, rc_qps := -1,
       rc_group_version := \<lparr>gv_group = [], gv_version = []\<rparr>, rc_warning_handler := ''NoWarnings'',
       rc_serializer := ''simple''\<rparr>"

text \<open>The steps of \<open>main\<close> in order, each with its error if it fails: the first of them ends the process.\<close>

fun fatally :: "(string \<times> string option) list \<Rightarrow> (string \<times> string) option" where
  "fatally [] = None"
| "fatally ((t, None) # xs) = fatally xs"
| "fatally ((t, Some e) # xs) = Some (t, e)"

text \<open>
  What the client libraries answer: the configuration of the flags, the discovery client, its list of resources and
  the client of the API server. The result is what ends the process, or what the loop then does.
\<close>

record requestor_env =
  re_config :: "string + rest_config"
  re_discovery_client :: "string option"
  re_resources :: "string + resource_list list"
  re_client :: "rest_config \<Rightarrow> string option"

definition error_of :: "string + 'a \<Rightarrow> string option" where
  "error_of x = (case x of Inl e \<Rightarrow> Some e | Inr _ \<Rightarrow> None)"

definition requestor_main ::
  "(string \<Rightarrow> group_version option) \<Rightarrow> (rest_request \<Rightarrow> bool) \<Rightarrow> requestor_env \<Rightarrow>
     (string \<times> string) + (rest_request list \<times> bool) option" where
  "requestor_main parse invalid env =
     (case map_sum id requestor_rest_config (re_config env) of
        Inl e \<Rightarrow> Inl (''flags.ToRESTConfig'', e)
      | Inr c \<Rightarrow>
          (case fatally
             [(''kcf.ToDiscoveryClient'', re_discovery_client env),
              (''DiscoveryExpander'', error_of (discovery_expandor parse no_request (re_resources env))),
              (''rest.UnversionedRESTClientFor'', re_client env c)] of
             Some x \<Rightarrow> Inl x
           | None \<Rightarrow>
               (case re_resources env of
                  Inl e \<Rightarrow> Inl (''DiscoveryExpander'', e)
                | Inr gs \<Rightarrow> Inr (request_loop parse invalid gs))))"

subsection \<open>When the loop ends\<close>

lemma expand_all_diverges:
  assumes "\<And>s. snd (feed yield xs s)"
  shows "expand_all yield (Some xs) s = None"
proof (cases "expand_all yield (Some xs) s")
  case (Some t)
  have "d = Some xs \<longrightarrow> y = yield \<longrightarrow> False" if "expand_all y d s = Some t" for y d s t
    by (rule expand_all.raw_induct[where P = "\<lambda>y d s t. d = Some xs \<longrightarrow> y = yield \<longrightarrow> False", OF _ that])
      (fastforce simp: assms case_prod_beta split: option.splits)
  then show ?thesis
    using Some by blast
qed simp

definition sendable :: "request_info \<Rightarrow> bool" where
  "sendable r \<longleftrightarrow> http_verb (ri_verb r) \<noteq> None"

lemma sendable_request: "sendable r \<longleftrightarrow> to_rest_request r \<noteq> None"
  by (auto simp: sendable_def to_rest_request_def split: option.splits)

definition started_by :: "(rest_request \<Rightarrow> bool) \<Rightarrow> request_info list \<Rightarrow> rest_request list" where
  "started_by invalid rs = filter (\<lambda>r. \<not> invalid r) (map (the \<circ> to_rest_request) (takeWhile sendable rs))"

lemma feed_requests:
  "feed (request_one invalid) rs (l, c) =
     ((l @ started_by invalid rs, if list_all sendable rs then c else True), list_all sendable rs)"
  by (induction rs arbitrary: l)
    (auto simp: started_by_def request_one_def sendable_request split: option.splits)

text \<open>The list of resources that the extension API answers for one of its groups.\<close>

definition discovered :: "api_group \<Rightarrow> resource_list" where
  "discovered g =
     \<lparr>rl_group_version = gv_group (ag_version g) @ ''/'' @ gv_version (ag_version g),
      rl_resources = map (\<lambda>d. (ad_name d, ad_verbs d)) (api_discovery g)\<rparr>"


end
