(* ===== verification/Quotable.thy ===== *)
theory Quotable
  imports Requestor Webhook Json_Decode
begin

section \<open>The counter of objects (tools/quotable)\<close>

text \<open>
  An informer for each stored resource puts the metadata of its objects into an index, and three HTTP routes
  tell the dimensions of the index, their values, and the number of objects for a value. The indexer of client-go is an
  argument with the laws it is documented to have; discovery and the parser of group versions are arguments too.
\<close>

record partial_metadata =
  po_uid :: string
  po_labels :: "(string, string) gomap"
  po_annotations :: "(string, string) gomap"
  po_managed_fields :: "string list"
  po_owner_references :: "string list"
  po_finalizers :: "string list"
  po_resource_version :: string

text \<open>What an informer hands on: metadata, or something else (a tombstone), which has no accessor.\<close>

datatype tracked = Partial partial_metadata | Foreign string

definition accessor :: "tracked \<Rightarrow> string + partial_metadata" where
  "accessor x = (case x of Partial p \<Rightarrow> Inr p | Foreign t \<Rightarrow> Inl (''object does not implement the Object interfaces''))"

definition uid_key_func :: "tracked \<Rightarrow> string + string" where
  "uid_key_func x = (case accessor x of Inl e \<Rightarrow> Inl e | Inr p \<Rightarrow> Inr (po_uid p))"

definition dimensions :: "string \<Rightarrow> partial_metadata \<Rightarrow> (string, string) gomap" where
  "dimensions gr p =
     [(''gr'', gr)] @
     (case map_of (po_labels p) ''runkube.internal/realm'' of
        None \<Rightarrow> []
      | Some r \<Rightarrow> [(''realm'', r), (''realm.gr'', r @ ''+'' @ gr)])"

definition make_index_func :: "string \<Rightarrow> tracked \<Rightarrow> string + string list" where
  "make_index_func k x =
     (case accessor x of
        Inl e \<Rightarrow> Inl e
      | Inr p \<Rightarrow> Inr (case map_of (po_labels p) k of None \<Rightarrow> [] | Some v \<Rightarrow> [v]))"

definition quotable_indexers :: "(string \<times> (tracked \<Rightarrow> string + string list)) list" where
  "quotable_indexers = [(''gr'', make_index_func ''gr''), (''realm.gr'', make_index_func ''realm.gr'')]"

subsection \<open>The indexer of client-go\<close>

record 's indexer =
  ix_start :: 's
  ix_add :: "tracked \<Rightarrow> 's \<Rightarrow> 's \<times> string option"
  ix_delete :: "tracked \<Rightarrow> 's \<Rightarrow> 's \<times> string option"
  ix_index_keys :: "string \<Rightarrow> string \<Rightarrow> 's \<Rightarrow> string + string list"
  ix_names :: "string list"
  ix_values :: "string \<Rightarrow> 's \<Rightarrow> string list"

text \<open>
  An indexer made with a key function and index functions: it stores an object under its key and an object without
  a key not at all, and for each index it knows the keys of the objects with a value, and the values.
\<close>

definition values_under :: "(tracked \<Rightarrow> string + string list) \<Rightarrow> tracked option \<Rightarrow> string list" where
  "values_under f x = (case x of None \<Rightarrow> [] | Some y \<Rightarrow> (case f y of Inl e \<Rightarrow> [] | Inr vs \<Rightarrow> vs))"

definition indexed_under :: "(tracked \<Rightarrow> string + string list) \<Rightarrow> string \<Rightarrow> tracked option \<Rightarrow> bool" where
  "indexed_under f v x \<longleftrightarrow> v \<in> set (values_under f x)"

definition stores_by_key ::
  "(tracked \<Rightarrow> string + string) \<Rightarrow> ('s \<Rightarrow> string \<Rightarrow> tracked option) \<Rightarrow> 's indexer \<Rightarrow> bool" where
  "stores_by_key key view ix \<longleftrightarrow>
     view (ix_start ix) = Map.empty \<and>
     (\<forall>x s. case key x of
        Inl e \<Rightarrow> ix_add ix x s = (s, Some e) \<and> ix_delete ix x s = (s, Some e)
      | Inr k \<Rightarrow> view (fst (ix_add ix x s)) = (view s)(k \<mapsto> x) \<and> view (fst (ix_delete ix x s)) = (view s)(k := None))"

definition answers_by_index ::
  "(string \<times> (tracked \<Rightarrow> string + string list)) list \<Rightarrow> ('s \<Rightarrow> string \<Rightarrow> tracked option) \<Rightarrow> 's indexer \<Rightarrow> bool" where
  "answers_by_index fs view ix \<longleftrightarrow>
     mset (ix_names ix) = mset (map fst fs) \<and>
     (\<forall>n v s. case map_of fs n of
        None \<Rightarrow> (\<exists>e. ix_index_keys ix n v s = Inl e) \<and> ix_values ix n s = []
      | Some f \<Rightarrow>
          (\<exists>ks. ix_index_keys ix n v s = Inr ks \<and> distinct ks \<and> set ks = {k. indexed_under f v (view s k)}) \<and>
          set (ix_values ix n s) = {w. \<exists>k. indexed_under f w (view s k)})"

subsection \<open>Events\<close>

definition on_add :: "'s indexer \<Rightarrow> tracked \<Rightarrow> 's \<Rightarrow> 's" where
  "on_add ix x s = fst (ix_add ix x s)"

definition on_delete :: "'s indexer \<Rightarrow> tracked \<Rightarrow> 's \<Rightarrow> 's" where
  "on_delete ix x s = fst (ix_add ix x (fst (ix_delete ix x s)))"

definition on_update :: "'s indexer \<Rightarrow> tracked \<Rightarrow> tracked \<Rightarrow> 's \<Rightarrow> 's" where
  "on_update ix old new s = s"

definition gvr_key :: "group_version_resource \<Rightarrow> string" where
  "gvr_key a = join_with ''.'' [gvr_resource a, gvr_version a, if gvr_group a = [] then ''core'' else gvr_group a]"

text \<open>What the informer of a resource does to an object before it hands it on.\<close>

definition transform_func :: "string \<Rightarrow> tracked \<Rightarrow> string + tracked" where
  "transform_func gr x =
     (case x of
        Foreign t \<Rightarrow> Inl (''transform.Cast '' @ t)
      | Partial m \<Rightarrow> Inr (Partial
          (m\<lparr>po_annotations := [], po_managed_fields := [], po_owner_references := [], po_finalizers := [],
            po_resource_version := [], po_labels := dimensions gr m\<rparr>)))"

datatype notice =
    Added group_version_resource tracked
  | Updated group_version_resource tracked tracked
  | Deleted group_version_resource tracked

fun notify :: "'s indexer \<Rightarrow> notice \<Rightarrow> 's \<Rightarrow> 's" where
  "notify ix (Added a x) s = (case transform_func (gvr_key a) x of Inl e \<Rightarrow> s | Inr y \<Rightarrow> on_add ix y s)"
| "notify ix (Updated a x' x) s =
     (case transform_func (gvr_key a) x of Inl e \<Rightarrow> s | Inr y \<Rightarrow> on_update ix x' y s)"
| "notify ix (Deleted a x) s = (case transform_func (gvr_key a) x of Inl e \<Rightarrow> s | Inr y \<Rightarrow> on_delete ix y s)"

subsection \<open>Which resources are watched\<close>

definition storage_verbs :: "string list" where
  "storage_verbs = [''create'', ''update'', ''delete'']"

definition watched_resource :: "string \<times> string list \<Rightarrow> bool" where
  "watched_resource a \<longleftrightarrow> slash \<notin> set (fst a) \<and> list_all (\<lambda>v. v \<in> set (snd a)) storage_verbs"

fun resources_in ::
  "(string \<Rightarrow> string + group_version) \<Rightarrow> resource_list list \<Rightarrow> group_version_resource list \<Rightarrow>
     string + group_version_resource list" where
  "resources_in parse [] rs = Inr rs"
| "resources_in parse (g # gs) rs =
     (case parse (rl_group_version g) of
        Inl e \<Rightarrow> Inl e
      | Inr gv \<Rightarrow> resources_in parse gs
          (fold (\<lambda>a. List.insert \<lparr>gvr_group = gv_group gv, gvr_version = gv_version gv, gvr_resource = fst a\<rparr>)
            (filter watched_resource (rl_resources g)) rs))"

definition get_resources ::
  "(string \<Rightarrow> string + group_version) \<Rightarrow> string + resource_list list \<Rightarrow> string + group_version_resource list" where
  "get_resources parse answer = (case answer of Inl e \<Rightarrow> Inl e | Inr gs \<Rightarrow> resources_in parse gs [])"

text \<open>The informers that are started, with the key their objects get; \<open>add\<close> is the error of \<open>AddEventHandler\<close>.\<close>

fun informers_for ::
  "(group_version_resource \<Rightarrow> string option) \<Rightarrow> group_version_resource list \<Rightarrow>
     string + (group_version_resource \<times> string) list" where
  "informers_for add [] = Inr []"
| "informers_for add (a # as) =
     (case add a of
        Some e \<Rightarrow> Inl e
      | None \<Rightarrow> (case informers_for add as of Inl e \<Rightarrow> Inl e | Inr xs \<Rightarrow> Inr ((a, gvr_key a) # xs)))"

definition run_quotable ::
  "(string \<Rightarrow> string + group_version) \<Rightarrow> (group_version_resource \<Rightarrow> string option) \<Rightarrow>
     string + resource_list list \<Rightarrow> string + (group_version_resource \<times> string) list" where
  "run_quotable parse add answer =
     (case get_resources parse answer of Inl e \<Rightarrow> Inl e | Inr rs \<Rightarrow> informers_for add rs)"

text \<open>
  \<open>New\<close>: the answers are the errors of making the two clients. The routes are installed before the first of them is looked
  at.
\<close>

definition quotable_rest_config :: "rest_config \<Rightarrow> rest_config" where
  "quotable_rest_config c =
     c\<lparr>rc_user_agent := ''quotable/v1.0.0'', rc_qps := -1, rc_group_version := \<lparr>gv_group = [], gv_version = []\<rparr>,
       rc_warning_handler := ''NoWarnings'', rc_serializer := ''simple''\<rparr>"

definition new_quotable ::
  "(rest_config \<Rightarrow> string option) \<Rightarrow> (rest_config \<Rightarrow> string option) \<Rightarrow> rest_config \<Rightarrow> string + rest_config" where
  "new_quotable metadata_client discovery_client ic =
     (let c = quotable_rest_config ic in
      case metadata_client c of
        Some e \<Rightarrow> Inl e
      | None \<Rightarrow> (case discovery_client c of Some e \<Rightarrow> Inl e | None \<Rightarrow> Inr c))"

text \<open>
  \<open>main\<close>: the error that ends it, or the informers it starts and the address it serves on. \<open>serve\<close> is the error of serving,
  other than that the server has been shut down.
\<close>

definition quotable_main ::
  "string + rest_config \<Rightarrow> (rest_config \<Rightarrow> string option) \<Rightarrow> (rest_config \<Rightarrow> string option) \<Rightarrow> (string \<Rightarrow> string option) \<Rightarrow>
     string + (group_version_resource \<times> string) list \<Rightarrow> (string \<times> string) + (group_version_resource \<times> string) list \<times> string" where
  "quotable_main flags metadata_client discovery_client serve informers =
     (case flags of
        Inl e \<Rightarrow> Inl (''flags.ToRESTConfig'', e)
      | Inr ic \<Rightarrow>
          (case new_quotable metadata_client discovery_client ic of
             Inl e \<Rightarrow> Inl (''quotable.New'', e)
           | Inr c \<Rightarrow>
               (case (serve '':8081'', informers) of
                  (Some e, _) \<Rightarrow> Inl (''run'', ''s.ListenAndServe: '' @ e)
                | (None, Inl e) \<Rightarrow> Inl (''run'', e)
                | (None, Inr xs) \<Rightarrow> Inr (xs, '':8081''))))"

text \<open>Every stored resource of every group is watched, once; no subresource is.\<close>

definition stored_in :: "(string \<Rightarrow> string + group_version) \<Rightarrow> resource_list \<Rightarrow> group_version_resource set" where
  "stored_in parse g =
     {\<lparr>gvr_group = gv_group gv, gvr_version = gv_version gv, gvr_resource = fst a\<rparr> |
        gv a. parse (rl_group_version g) = Inr gv \<and> a \<in> set (rl_resources g) \<and> watched_resource a}"

lemma fold_insert_set: "set (fold (\<lambda>a. List.insert (f a)) xs rs) = set rs \<union> f ` set xs"
  by (induction xs arbitrary: rs) auto

lemma fold_insert_distinct: "distinct rs \<Longrightarrow> distinct (fold (\<lambda>a. List.insert (f a)) xs rs)"
  by (induction xs arbitrary: rs) auto

lemma resources_in_stored:
  "resources_in parse gs rs = Inr rs' \<Longrightarrow> distinct rs \<Longrightarrow>
     distinct rs' \<and> set rs' = set rs \<union> (\<Union>g \<in> set gs. stored_in parse g)"
proof (induction parse gs rs rule: resources_in.induct)
  case (2 parse g gs rs)
  then obtain gv where gv: "parse (rl_group_version g) = Inr gv"
    by (auto split: sum.splits)
  let ?f = "\<lambda>a. \<lparr>gvr_group = gv_group gv, gvr_version = gv_version gv, gvr_resource = fst a\<rparr>"
  have "stored_in parse g = ?f ` set (filter watched_resource (rl_resources g))"
    by (auto simp: stored_in_def gv image_iff)
  then show ?case
    using 2 gv by (simp add: fold_insert_set fold_insert_distinct Un_assoc del: set_filter)
qed simp

lemma run_watches_stored_resources:
  assumes "run_quotable parse add (Inr gs) = Inr xs"
  shows "distinct (map fst xs)" "set (map fst xs) = (\<Union>g \<in> set gs. stored_in parse g)" "list_all (\<lambda>(a, k). k = gvr_key a) xs"
proof -
  have informers: "map fst xs = rs \<and> list_all (\<lambda>(a, k). k = gvr_key a) xs" if "informers_for add rs = Inr xs" for rs xs
    using that by (induction add rs arbitrary: xs rule: informers_for.induct) (auto split: option.splits sum.splits)
  obtain rs where "resources_in parse gs [] = Inr rs" "informers_for add rs = Inr xs"
    using assms by (auto simp: run_quotable_def get_resources_def split: sum.splits)
  then show "distinct (map fst xs)" "set (map fst xs) = (\<Union>g \<in> set gs. stored_in parse g)"
    "list_all (\<lambda>(a, k). k = gvr_key a) xs"
    using resources_in_stored[of parse gs "[]"] informers by simp_all
qed

text \<open>Two resources have different keys, if no group is called core and the names and versions have no dots.\<close>

lemma gvr_key_inject:
  assumes "CHR ''.'' \<notin> set (gvr_resource a) \<union> set (gvr_version a) \<union> set (gvr_resource b) \<union> set (gvr_version b)"
    and "gvr_group a \<noteq> ''core''" "gvr_group b \<noteq> ''core''"
  shows "gvr_key a = gvr_key b \<longleftrightarrow> a = b"
  using assms by (cases a; cases b) (auto simp: gvr_key_def first_cut_inject split: if_splits)

subsection \<open>The API\<close>

definition max_int :: int where
  "max_int = 9223372036854775807"

definition count_values :: "'s indexer \<Rightarrow> string \<Rightarrow> string \<Rightarrow> 's \<Rightarrow> int \<times> string option" where
  "count_values ix k v s =
     (case ix_index_keys ix k v s of Inl e \<Rightarrow> (max_int, Some e) | Inr ks \<Rightarrow> (int (length ks), None))"

datatype quotable_route = ListDimensions | ListValues | CountValue

definition setup_api :: "quotable_route serve_mux option" where
  "setup_api = install_routes
     [(''GET /dimensions'', ListDimensions), (''GET /dimensions/{dim}/values'', ListValues),
      (''GET /dimensions/{dim}/values/{value}'', CountValue)] []"

datatype quotable_body = Names "string list" | CountOf string string int

definition quotable_value :: "quotable_body \<Rightarrow> json" where
  "quotable_value b =
     (case b of
        Names ns \<Rightarrow> JArr (map JStr ns)
      | CountOf d v c \<Rightarrow> JObj [(''Dimension'', JStr d), (''Value'', JStr v), (''Count'', JNum (dec_int c))])"

definition quotable_json :: "quotable_body \<Rightarrow> string" where
  "quotable_json b = json_text (quotable_value b) @ [newline]"

text \<open>The handlers, for the segments of the path; the answer to a path no pattern matches is that of the multiplexer.\<close>

definition answer_route ::
  "'s indexer \<Rightarrow> 's \<Rightarrow> string list \<Rightarrow> quotable_route \<Rightarrow> action list" where
  "answer_route ix s path r =
     (case r of
        ListDimensions \<Rightarrow> [WriteBody (quotable_json (Names (ix_names ix)))]
      | ListValues \<Rightarrow> [WriteBody (quotable_json (Names (ix_values ix (path ! 1) s)))]
      | CountValue \<Rightarrow>
          (case count_values ix (path ! 1) (path ! 3) s of
             (c, Some e) \<Rightarrow> [WriteBody (''error: '' @ e), WriteHeader 500]
           | (c, None) \<Rightarrow> [WriteBody (quotable_json (CountOf (path ! 1) (path ! 3) c))]))"

definition serve_quotable ::
  "'s indexer \<Rightarrow> 's \<Rightarrow> string \<Rightarrow> string list \<Rightarrow> action list option" where
  "serve_quotable ix s method path =
     map_option (answer_route ix s path) (Option.bind setup_api (\<lambda>m. dispatch_route m method path))"

subsection \<open>What is counted\<close>

text \<open>
  The specification: for each UID the resource and the realm of the object last added or deleted under it. A
  deleted object is put back into the index, so it goes on being counted.
\<close>

definition realm_of :: "partial_metadata \<Rightarrow> string option" where
  "realm_of p = map_of (po_labels p) ''runkube.internal/realm''"

fun see_notice :: "notice \<Rightarrow> (string \<rightharpoonup> string \<times> string option) \<Rightarrow> (string \<rightharpoonup> string \<times> string option)" where
  "see_notice (Added a (Partial p)) m = m(po_uid p \<mapsto> (gvr_key a, realm_of p))"
| "see_notice (Deleted a (Partial p)) m = m(po_uid p \<mapsto> (gvr_key a, realm_of p))"
| "see_notice _ m = m"

definition last_seen :: "notice list \<Rightarrow> string \<rightharpoonup> string \<times> string option" where
  "last_seen ns = fold see_notice ns Map.empty"

fun kept_as :: "(string \<times> string option) option \<Rightarrow> tracked option \<Rightarrow> bool" where
  "kept_as None None \<longleftrightarrow> True"
| "kept_as (Some (g, r)) (Some (Partial p)) \<longleftrightarrow>
     map_of (po_labels p) ''gr'' = Some g \<and> map_of (po_labels p) ''realm.gr'' = map_option (\<lambda>r. r @ ''+'' @ g) r"
| "kept_as _ _ \<longleftrightarrow> False"

definition agrees :: "(string \<rightharpoonup> string \<times> string option) \<Rightarrow> (string \<Rightarrow> tracked option) \<Rightarrow> bool" where
  "agrees m v \<longleftrightarrow> (\<forall>u. kept_as (m u) (v u))"

lemma stores_by_keyD:
  assumes "stores_by_key uid_key_func view ix"
  shows "view (ix_start ix) = Map.empty"
    "view (fst (ix_add ix (Partial p) s)) = (view s)(po_uid p \<mapsto> Partial p)"
    "view (fst (ix_delete ix (Partial p) s)) = (view s)(po_uid p := None)"
  using assms[unfolded stores_by_key_def, THEN conjunct2, THEN spec, of "Partial p", THEN spec, of s] assms
  by (auto simp: stores_by_key_def uid_key_func_def accessor_def)

lemma agrees_put: "agrees m v \<Longrightarrow> kept_as (Some d) (Some x) \<Longrightarrow> agrees (m(u \<mapsto> d)) (v(u \<mapsto> x))"
  by (simp add: agrees_def)

lemma agrees_put_again:
  "agrees m v \<Longrightarrow> kept_as (Some d) (Some x) \<Longrightarrow> agrees (m(u \<mapsto> d)) ((v(u := None))(u \<mapsto> x))"
  by (simp add: agrees_def)

lemma kept_dimensions:
  "kept_as (Some (gr, realm_of p))
     (Some (Partial (p\<lparr>po_annotations := [], po_managed_fields := [], po_owner_references := [], po_finalizers := [],
        po_resource_version := [], po_labels := dimensions gr p\<rparr>)))"
  by (simp add: dimensions_def realm_of_def split: option.splits)

lemma notify_agrees:
  assumes "stores_by_key uid_key_func view ix" "agrees m (view s)"
  shows "agrees (see_notice n m) (view (notify ix n s))"
proof (cases n)
  case (Added a x)
  then show ?thesis
    using assms(2) agrees_put[OF assms(2) kept_dimensions]
    by (cases x) (simp_all add: transform_func_def on_add_def stores_by_keyD[OF assms(1)])
next
  case (Deleted a x)
  then show ?thesis
    using assms(2) agrees_put_again[OF assms(2) kept_dimensions]
    by (cases x) (simp_all add: transform_func_def on_delete_def stores_by_keyD[OF assms(1)])
qed (use assms(2) in \<open>simp add: on_update_def split: sum.splits\<close>)

lemma last_seen_agrees:
  assumes "stores_by_key uid_key_func view ix"
  shows "agrees (last_seen ns) (view (fold (notify ix) ns (ix_start ix)))"
proof (induction ns rule: rev_induct)
  case Nil
  then show ?case
    by (simp add: last_seen_def agrees_def stores_by_keyD[OF assms])
next
  case (snoc n ns)
  then show ?case
    using notify_agrees[OF assms] by (simp add: last_seen_def)
qed

lemma kept_indexed:
  assumes "kept_as d x"
  shows "indexed_under (make_index_func ''gr'') g x \<longleftrightarrow> (\<exists>r. d = Some (g, r))"
    "indexed_under (make_index_func ''realm.gr'') w x \<longleftrightarrow> (\<exists>g r. d = Some (g, Some r) \<and> w = r @ ''+'' @ g)"
  using assms
  by (cases "(d, x)" rule: kept_as.cases;
      auto simp: indexed_under_def values_under_def make_index_func_def accessor_def split: option.splits)+

fun notice_resource :: "notice \<Rightarrow> group_version_resource" where
  "notice_resource (Added a x) = a"
| "notice_resource (Updated a x' x) = a"
| "notice_resource (Deleted a x) = a"

definition plain_resources :: "notice list \<Rightarrow> bool" where
  "plain_resources ns \<longleftrightarrow> list_all (\<lambda>n. CHR ''+'' \<notin> set (gvr_key (notice_resource n))) ns"

lemma last_seen_plain: "plain_resources ns \<Longrightarrow> last_seen ns u = Some (g, r) \<Longrightarrow> CHR ''+'' \<notin> set g"
proof (induction ns arbitrary: u g r rule: rev_induct)
  case (snoc n ns)
  then show ?case
    by (cases "(n, last_seen ns)" rule: see_notice.cases)
      (auto simp: last_seen_def plain_resources_def split: if_splits)
qed (simp add: last_seen_def)

lemma index_answer:
  assumes "answers_by_index quotable_indexers view ix" "map_of quotable_indexers n = Some f"
  shows "count_values ix n v s = (int (card {k. indexed_under f v (view s k)}), None)"
    "set (ix_values ix n s) = {w. \<exists>k. indexed_under f w (view s k)}"
proof -
  obtain ks where "ix_index_keys ix n v s = Inr ks" "distinct ks" "set ks = {k. indexed_under f v (view s k)}"
    "set (ix_values ix n s) = {w. \<exists>k. indexed_under f w (view s k)}"
    using assms unfolding answers_by_index_def by (fastforce dest: spec[of _ n] spec[of _ v] spec[of _ s])
  then show "count_values ix n v s = (int (card {k. indexed_under f v (view s k)}), None)"
    "set (ix_values ix n s) = {w. \<exists>k. indexed_under f w (view s k)}"
    by (simp_all add: count_values_def distinct_card[symmetric])
qed

lemma no_index_answer:
  assumes "answers_by_index quotable_indexers view ix" "map_of quotable_indexers n = None"
  shows "\<exists>e. count_values ix n v s = (max_int, Some e)"
proof -
  obtain e where "ix_index_keys ix n v s = Inl e"
    using assms unfolding answers_by_index_def by (fastforce dest: spec[of _ n] spec[of _ v] spec[of _ s])
  then show ?thesis
    by (simp add: count_values_def)
qed

lemma quotable_routes:
  "Option.bind setup_api (\<lambda>m. dispatch_route m ''GET'' [''dimensions'']) = Some ListDimensions"
  "Option.bind setup_api (\<lambda>m. dispatch_route m ''GET'' [''dimensions'', d, ''values'']) = Some ListValues"
  "Option.bind setup_api (\<lambda>m. dispatch_route m ''GET'' [''dimensions'', d, ''values'', v]) = Some CountValue"
proof -
  let ?get = "\<lambda>ss. \<lparr>pt_method = Some ''GET'', pt_segments = ss\<rparr>"
  have api: "setup_api = Some
    [(?get [Lit ''dimensions''], ListDimensions), (?get [Lit ''dimensions'', Wild, Lit ''values''], ListValues),
     (?get [Lit ''dimensions'', Wild, Lit ''values'', Wild], CountValue)]"
    by code_simp
  show "Option.bind setup_api (\<lambda>m. dispatch_route m ''GET'' [''dimensions'']) = Some ListDimensions"
    "Option.bind setup_api (\<lambda>m. dispatch_route m ''GET'' [''dimensions'', d, ''values'']) = Some ListValues"
    "Option.bind setup_api (\<lambda>m. dispatch_route m ''GET'' [''dimensions'', d, ''values'', v]) = Some CountValue"
    by (simp_all add: api dispatch_route_def pattern_match_def method_match_def Let_def covers_def)
qed

lemma counted_sets:
  assumes "agrees m v"
  shows "{k. indexed_under (make_index_func ''gr'') g (v k)} = {u. \<exists>r. m u = Some (g, r)}"
    "{k. indexed_under (make_index_func ''realm.gr'') w (v k)} = {u. \<exists>g r. m u = Some (g, Some r) \<and> w = r @ ''+'' @ g}"
    "{w. \<exists>k. indexed_under (make_index_func ''gr'') w (v k)} = {g. \<exists>u r. m u = Some (g, r)}"
  using assms[unfolded agrees_def, THEN spec, THEN kept_indexed(1)] assms[unfolded agrees_def, THEN spec, THEN kept_indexed(2)]
  by simp_all

text \<open>
  C24. The API tells how many objects the informers have seen: for every resource the number of UIDs whose last
  object was one of it, for a realm and a resource the number of those labelled with the realm, and as the values of
  the first dimension exactly the resources with such objects. Objects that have been deleted are counted like
  the others, and a dimension that is not indexed is answered by an error text, with status 200.
\<close>

theorem quotable_counts_what_was_seen:
  assumes "stores_by_key uid_key_func view ix" "answers_by_index quotable_indexers view ix"
    and "plain_resources ns" "CHR ''+'' \<notin> set g" "d \<notin> {''gr'', ''realm.gr''}"
  shows "let s = fold (notify ix) ns (ix_start ix) in
    serve_quotable ix s ''GET'' [''dimensions'', ''gr'', ''values'', g] =
      Some [WriteBody (quotable_json (CountOf ''gr'' g (int (card {u. \<exists>r. last_seen ns u = Some (g, r)}))))] \<and>
    serve_quotable ix s ''GET'' [''dimensions'', ''realm.gr'', ''values'', r @ ''+'' @ g] =
      Some [WriteBody (quotable_json (CountOf ''realm.gr'' (r @ ''+'' @ g) (int (card {u. last_seen ns u = Some (g, Some r)}))))] \<and>
    set (ix_values ix ''gr'' s) = {g. \<exists>u r. last_seen ns u = Some (g, r)} \<and>
    (\<exists>acts. serve_quotable ix s ''GET'' [''dimensions'', d, ''values'', g] = Some acts \<and>
       hw_status (hw_respond acts fresh_writer) = Some 200)"
proof -
  define s where "s = fold (notify ix) ns (ix_start ix)"
  note kept = last_seen_agrees[OF assms(1), of ns, folded s_def]
  have index: "map_of quotable_indexers ''gr'' = Some (make_index_func ''gr'')"
    "map_of quotable_indexers ''realm.gr'' = Some (make_index_func ''realm.gr'')" "map_of quotable_indexers d = None"
    using assms(5) by (simp_all add: quotable_indexers_def)
  have realm: "{u. \<exists>g' r'. last_seen ns u = Some (g', Some r') \<and> r @ ''+'' @ g = r' @ ''+'' @ g'} =
      {u. last_seen ns u = Some (g, Some r)}"
    using last_cut_inject[OF assms(4) last_seen_plain[OF assms(3)]] by auto
  obtain e where "count_values ix d g s = (max_int, Some e)"
    using no_index_answer[OF assms(2) index(3)] by blast
  then show ?thesis
    unfolding Let_def s_def[symmetric] serve_quotable_def quotable_routes answer_route_def
    by (simp add: index_answer[OF assms(2) index(1)] index_answer[OF assms(2) index(2)] counted_sets[OF kept] realm[simplified]
        hw_respond_def hw_write_def hw_write_header_def fresh_writer_def body_allowed_def Let_def)
qed

subsection \<open>An indexer with these laws\<close>

definition list_indexer ::
  "(tracked \<Rightarrow> string + string) \<Rightarrow> (string \<times> (tracked \<Rightarrow> string + string list)) list \<Rightarrow>
     (string, tracked) gomap indexer" where
  "list_indexer key fs =
     \<lparr>ix_start = [],
      ix_add = (\<lambda>x s. case key x of Inl e \<Rightarrow> (s, Some e) | Inr k \<Rightarrow> (gm_store k x s, None)),
      ix_delete = (\<lambda>x s. case key x of Inl e \<Rightarrow> (s, Some e) | Inr k \<Rightarrow> (gm_remove k s, None)),
      ix_index_keys = (\<lambda>n v s.
        case map_of fs n of
          None \<Rightarrow> Inl ''index does not exist''
        | Some f \<Rightarrow> Inr (filter (\<lambda>k. indexed_under f v (map_of s k)) (remdups (map fst s)))),
      ix_names = map fst fs,
      ix_values = (\<lambda>n s.
        case map_of fs n of
          None \<Rightarrow> []
        | Some f \<Rightarrow> concat (map (\<lambda>k. values_under f (map_of s k)) (map fst s)))\<rparr>"

lemma indexed_dom: "v \<in> set (values_under f (map_of s k)) \<Longrightarrow> k \<in> fst ` set s"
  by (cases "map_of s k") (force simp: values_under_def dest: map_of_SomeD)+

lemma list_indexer_laws:
  "stores_by_key key map_of (list_indexer key fs)" "answers_by_index fs map_of (list_indexer key fs)"
proof -
  show "stores_by_key key map_of (list_indexer key fs)"
    by (auto simp: stores_by_key_def list_indexer_def map_simps split: sum.splits)
  show "answers_by_index fs map_of (list_indexer key fs)"
    by (auto simp: answers_by_index_def list_indexer_def indexed_under_def dest: indexed_dom split: option.splits)
qed

definition sample_pods :: group_version_resource where
  "sample_pods = \<lparr>gvr_group = [], gvr_version = ''v1'', gvr_resource = ''pods''\<rparr>"

definition sample_object :: "string \<Rightarrow> (string, string) gomap \<Rightarrow> tracked" where
  "sample_object u ls = Partial \<lparr>po_uid = u, po_labels = ls, po_annotations = [], po_managed_fields = [],
     po_owner_references = [], po_finalizers = [], po_resource_version = ''7''\<rparr>"

definition sample_notices :: "notice list" where
  "sample_notices =
     [Added sample_pods (sample_object ''u1'' [(''runkube.internal/realm'', ''a'')]), Added sample_pods (sample_object ''u2'' []),
      Deleted sample_pods (sample_object ''u2'' []), Deleted sample_pods (Foreign ''tombstone'')]"

lemma sample_seen: "last_seen sample_notices = [''u1'' \<mapsto> (''pods.v1.core'', Some ''a''), ''u2'' \<mapsto> (''pods.v1.core'', None)]"
  by (simp add: last_seen_def sample_notices_def sample_pods_def sample_object_def realm_of_def gvr_key_def fun_upd_twist)

lemma quotable_counts_what_was_seen_witness:
  "let ix = list_indexer uid_key_func quotable_indexers;
       s = fold (notify ix) sample_notices (ix_start ix)
   in serve_quotable ix s ''GET'' [''dimensions'', ''gr'', ''values'', ''pods.v1.core''] =
        Some [WriteBody (''{\"Dimension\":\"gr\",\"Value\":\"pods.v1.core\",\"Count\":2}'' @ [newline])] \<and>
      serve_quotable ix s ''GET'' [''dimensions'', ''realm.gr'', ''values'', ''a+pods.v1.core''] =
        Some [WriteBody (''{\"Dimension\":\"realm.gr\",\"Value\":\"a+pods.v1.core\",\"Count\":1}'' @ [newline])]"
proof -
  let ?ix = "list_indexer uid_key_func quotable_indexers"
  have plain: "plain_resources sample_notices" "CHR ''+'' \<notin> set ''pods.v1.core''" "''realm'' \<notin> {''gr'', ''realm.gr''}"
    by (simp_all add: plain_resources_def sample_notices_def sample_pods_def gvr_key_def)
  have "{u. \<exists>r. last_seen sample_notices u = Some (''pods.v1.core'', r)} = {''u1'', ''u2''}"
    "{u. last_seen sample_notices u = Some (''pods.v1.core'', Some ''a'')} = {''u1''}"
    by (auto simp: sample_seen)
  then have counts: "int (card {u. \<exists>r. last_seen sample_notices u = Some (''pods.v1.core'', r)}) = 2"
    "int (card {u. last_seen sample_notices u = Some (''pods.v1.core'', Some ''a'')}) = 1"
    by simp_all
  have json: "quotable_json (CountOf ''gr'' ''pods.v1.core'' 2) =
      ''{\"Dimension\":\"gr\",\"Value\":\"pods.v1.core\",\"Count\":2}'' @ [newline]"
    "quotable_json (CountOf ''realm.gr'' ''a+pods.v1.core'' 1) =
      ''{\"Dimension\":\"realm.gr\",\"Value\":\"a+pods.v1.core\",\"Count\":1}'' @ [newline]"
    by (code_simp; fail)+
  show ?thesis
    using quotable_counts_what_was_seen[OF list_indexer_laws plain, of "''a''", unfolded append.simps counts,
        unfolded json[unfolded append.simps]]
    by (simp only: Let_def append.simps)
qed

end
