(* ===== verification/Isolated.thy ===== *)
theory Isolated
  imports Nodes
begin

section \<open>A shell in a sandbox (tools/isolated)\<close>

text \<open>The configuration of the program, and what its sandbox holds when the shell starts.\<close>

definition isolated_config :: sandbox_config where
  "isolated_config =
     \<lparr>sc_hostname = ''sandbox'', sc_machine_id = ''32e825d5701d11f08f966c02e06b743e'', sc_ip_address = ''10.0.0.1'',
      sc_command = [''/usr/bin/busybox'', ''sh''], sc_env = [],
      sc_payload = [\<lparr>pd_target = ''/usr/bin/busybox'', pd_file_mode = 0,
        pd_source = \<lparr>ps_type = ''bind'', ps_value = ''/usr/bin/busybox''\<rparr>\<rparr>]\<rparr>"

lemma isolated_shell_is_in_the_sandbox:
  "case run_completed os isolated_config of (r, tr) \<Rightarrow>
     list_all confined (filter not_exec (tl tr)) \<and>
     (r = Replaced \<longrightarrow> (\<exists>env. last tr = Exec ''/usr/bin/busybox'' [''/usr/bin/busybox'', ''sh''] env) \<and>
        MountAt ''/usr/bin/busybox'' ''/tmp/usr/bin/busybox'' [] (ft_flags fs_bind_ro) [] \<in> set tr)"
proof -
  have safe: "\<forall>p \<in> set (sc_payload isolated_config). safe_target (pd_target p)"
    by (simp add: isolated_config_def safe_target_def no_dotdot_def kept_elems_def slash_def)
  have command: "sc_command isolated_config = [''/usr/bin/busybox'', ''sh'']"
    by (simp add: isolated_config_def)
  have path: "path_join [root_dir, ''/usr/bin/busybox''] = ''/tmp/usr/bin/busybox''"
    by (simp add: root_dir_def path_join_def path_clean_def Let_def slash_def clean_step_def)
  have bound: "MountAt ''/usr/bin/busybox'' ''/tmp/usr/bin/busybox'' [] (ft_flags fs_bind_ro) [] \<in> set tr"
    if "\<forall>p \<in> set (sc_payload isolated_config). bound_below_root tr p" for tr
    using that by (simp add: isolated_config_def bound_below_root_def path)
  show ?thesis
    using run_finds_payload[OF safe command, of os] bound by auto
qed

end
