(* ===== verification/Spec2Isabelle.thy ===== *)
theory Spec2Isabelle
  imports Cri_Properties Http_Server Frontend Webhook Fd_Stream Fd_Ends Procfs Sandbox Sandbox_Control Key_Services Node_Run
    Middleware Resolve Requestor Quotable Isolated
begin

text \<open>
  A model of runkube and proofs about it.

  \<^bold>\<open>The program.\<close> runkube runs a Kubernetes cluster without root: one process per component of the control
  plane (etcd, the API server, the controller manager, the scheduler), and processes of its own for the webhooks that
  the API server calls, for a KMS plugin, for a signer of tokens and for each node. \<open>ControlPlane.Init\<close> writes the
  certificates, key sets, kubeconfigs and configuration files below the root of the cluster, \<open>ControlPlane.Run\<close> starts
  the processes. A node starts itself again inside a sandbox (namespaces and a new root), which it sets up as a configuration
  in an argument tells it, with a channel to its parent that carries messages and open descriptors; inside, the node
  runs the kubelet and a fake container runtime behind the CRI interface of gRPC. Three more programs load, watch and
  explore a cluster.

  \<^bold>\<open>Conventions.\<close> Definitions are named after the code, in its order. A Go map is an association list with
  distinct keys (\<open>gomap\<close>), and what \<open>range\<close> yields depends on an arbitrary ranking, so every theorem holds for every
  iteration order. An error is the left value of a sum, a panic a constructor of its own or \<open>None\<close>, as the
  definition says. Machine integers are words where they can wrap: the 64-bit ticks of the simulation and sequence
  numbers of the channel, 32-bit file modes and mount flags. A Go string is a list of characters, one per byte. What the
  program asks of the world (system calls, file operations, the clock, libraries) is an argument, as general as the
  theorem allows; where a theorem relies on the documented behaviour of a library, it says so in a hypothesis.

  \<^bold>\<open>Foundations.\<close> Prelude: Go maps, rankings and shared lemmas. Keyed_Store: the interface of an object store
  (a locale) that the runtime's tables and the frontend's backends interpret. Go_Text, Go_Path, Go_Net, Go_Addr: what the
  code uses of strings, strconv, path, net/url, net and netip. Json, Json_Decode, Base64: the texts of encoding/json and
  encoding/base64, with the round trips; \<open>b64_alphabet\<close> is a locale with two interpretations. The parser of JSON has fuel
  and \<open>json_parse\<close> gives it \<open>2 * length s + 1\<close>; \<open>fuel_is_enough\<close> shows that more changes nothing. Proc: the arguments
  of a process.

  \<^bold>\<open>pkg/cri and pkg/cri/model.\<close> Cri_Model: objects and their transitions. Cri_Runtime: the tables and the event queue
  with its simulation. Cri_Handlers: one definition for each RPC. Cri_Refinement and Cri_Contract: an abstract state and the
  refinement of every RPC and callback by it. Cri_System: any number of clients, the mutex, the ticking simulation,
  as a step relation; Cri_Safety: its invariants. Cri_Timing: the 64-bit clock. Cri_Properties: C1 to C11. Middleware
  (pkg/grpcmiddleware): the interceptors around the RPCs, C12.

  \<^bold>\<open>The control plane.\<close> World: files, fresh keys, the cache of authorities and fallible computations on them. Pki
  (pki.go), Ref (pkg/ref), Keys (plugins.go), Config (pkg/config), Syncer (pkg/syncer), Kapi (pkg/kapi and api.go),
  Control_Plane (controlplane.go and webhook.go) and Processes (comps.go) model the parts. Control_Layout shows that
  the places of files are apart, Control_Init that a successful Init leaves complete certificate chains, Control_Progress
  that it succeeds and can be repeated. Control_Files, Process_Files and Process_Trust relate the command lines of
  the processes to the files, names and authorities; Key_Services and Webhook_Service do so for the services of
  the program itself: C13 to C17 and C20 to C23.

  \<^bold>\<open>Nodes and the program.\<close> Nodes (pkg/nodes), Program (tools/runkube) and Node_Run: the commands, what the processes
  started from the program carry out (C18), and a node from its command to the command in its sandbox (C19). Isolated: the
  one other user of the sandbox.

  \<^bold>\<open>Servers and tools.\<close> Http_Server (pkg/server): response writers and wrappers, C26. Frontend (pkg/frontend): C27 to
  C29. Webhook (pkg/webhook and the builtin functions of webhook.go): C30 and C31. Resolve (pkg/resolve). Quotable and
  Requestor (tools): C24 and C25. The loop of the requestor is a partial function in the option monad: \<open>None\<close> is that it never
  ends.

  \<^bold>\<open>The sandbox.\<close> Fd_Wire, Fdchan, Fd_Stream, Fd_Ends (pkg/sandbox/fdchan): messages and frames down to their bytes,
  the multiplexer with every interleaving of parent and child, the same over the bytes of their socket, which refines it,
  and the descriptors of the two processes: C32 to C35. Sandbox and
  Sandbox_Control (pkg/sandbox): the set-up as a sequence of system calls that a given operating system grants or refuses,
  the command loop, the parent, the forwarder; Cookie: the configuration as an argument, down to its bytes: C36 to
  C40. Procfs (pkg/sandbox/procfs): the overridden files.

  \<^bold>\<open>Idealisations.\<close> Keys are numbers, a certificate is a record signed by a key, a file holds a parsed PEM block, key
  set, kubeconfig or a text; encrypting, signing and hashing are arguments. Texts that are encoded are ASCII where the
  encoder would otherwise change invalid bytes (the theorems say so). The socket of the channel delivers at most one segment
  per read. Each goroutine step named in a step relation is atomic, as the mutexes and channels of the code make it.

  \<^bold>\<open>Not modelled.\<close> The serving of HTTP, TLS and gRPC, and of FUSE (go-fuse): libraries. Process management
  (procman), signals, the limit of concurrent requests (errgroup) and what client-go sends, caches and retries: libraries the
  sources only call. Parsing of flags (pflag): theorems take the values of the flags. Logging, but for the access log and the
  log of the interceptors, whose content the code computes. The YAML and JSON texts of Kubernetes objects: their types are
  not part of the repository. The clone flags of the sandbox, and fakeProcfs and debugShell, which nothing calls. The copying
  between the two connections of a tunnel, finalizers of open files, serial numbers and fingerprints of certificates.
\<close>

end
